theory Spec2Isabelle
  imports Complex_Main "HOL-Library.Multiset" "HOL-Library.AList" "HOL-Library.Char_ord"
    "HOL-Library.List_Lexorder" "HOL-Library.Log_Nat"
begin

section \<open>Times, dates and timestamps\<close>

text \<open>
  Python's naive \<open>datetime.datetime\<close> is modelled as the number of microseconds since
  midnight of the day with proleptic Gregorian ordinal 0, a \<open>datetime.date\<close> as its
  ordinal and a \<open>datetime.time\<close> as the number of microseconds since midnight.
  The library only represents the ordinals 1 (0001-01-01) to 3652059 (9999-12-31);
  arithmetic that leaves this range raises \<open>OverflowError\<close>.
\<close>

type_synonym datetime = int
type_synonym date = int
type_synonym time = int

definition US_MINUTE :: int where "US_MINUTE = 60000000"
definition US_HOUR :: int where "US_HOUR = 3600000000"
definition US_DAY :: int where "US_DAY = 86400000000"
definition MAX_ORDINAL :: int where "MAX_ORDINAL = 3652059"

definition mk_time :: "int \<Rightarrow> int \<Rightarrow> time" where
  "mk_time h m = h * US_HOUR + m * US_MINUTE"

definition valid_time :: "time \<Rightarrow> bool" where
  "valid_time t \<longleftrightarrow> 0 \<le> t \<and> t < US_DAY"

definition valid_date :: "date \<Rightarrow> bool" where
  "valid_date d \<longleftrightarrow> 1 \<le> d \<and> d \<le> MAX_ORDINAL"

definition combine :: "date \<Rightarrow> time \<Rightarrow> datetime" where
  "combine d t = d * US_DAY + t"

definition date_of :: "datetime \<Rightarrow> date" where
  "date_of dt = dt div US_DAY"

definition time_of :: "datetime \<Rightarrow> time" where
  "time_of dt = dt mod US_DAY"

definition hour :: "datetime \<Rightarrow> int" where
  "hour dt = time_of dt div US_HOUR"

definition minute :: "datetime \<Rightarrow> int" where
  "minute dt = (time_of dt div US_MINUTE) mod 60"

datatype error =
    AssertionError
  | OverflowError
  | KeyError string
  | TypeError
  | ValueError
  | AttributeError
  | PeriodNotUnique
  | NoTemporalColumns
  | NoDatetimeColumn nat
  | NoVolColumn nat
  | VolNotInteger nat
  | DifferentColumns
  | DifferentDtypes
  | SystemExit

text \<open>
  \<open>var_dt += dt.timedelta(minutes=period_min)\<close>: the sum, or \<open>OverflowError\<close> when the
  date of the sum is outside the representable range.
\<close>

definition add_minutes :: "datetime \<Rightarrow> int \<Rightarrow> error + datetime" where
  "add_minutes dt period_min =
     (let dt' = dt + period_min * US_MINUTE
      in if valid_date (date_of dt') then Inr dt' else Inl OverflowError)"

section \<open>cleaner.py: the session time grid\<close>

definition MKT_OPEN :: time where "MKT_OPEN = mk_time 10 0"
definition MKT_CLOSE :: time where "MKT_CLOSE = mk_time 18 40"

text \<open>
  The \<open>while\<close> loop of \<open>get_full_list_of_daily_bar_times\<close>. It need not terminate
  (a period of 0 never advances \<open>var_dt\<close>), so it lives in the option monad:
  \<open>None\<close> is a loop that never returns.
\<close>

partial_function (option) bar_times_loop ::
  "datetime \<Rightarrow> time \<Rightarrow> int \<Rightarrow> bool \<Rightarrow> time list \<Rightarrow> (error + time list) option"
where
  "bar_times_loop var_dt end_time period_min skip_daily_clearing full_list =
     (if time_of var_dt < end_time then
        (let full_list' =
               (if skip_daily_clearing \<or> hour var_dt \<noteq> 14
                   \<or> minute var_dt \<notin> set [0, 1, 2, 3, 4]
                then full_list @ [time_of var_dt] else full_list)
         in case add_minutes var_dt period_min of
              Inl e \<Rightarrow> Some (Inl e)
            | Inr var_dt' \<Rightarrow>
                bar_times_loop var_dt' end_time period_min skip_daily_clearing full_list')
      else Some (Inr full_list))"

definition get_full_list_of_daily_bar_times ::
  "date \<Rightarrow> time \<Rightarrow> time \<Rightarrow> int \<Rightarrow> bool \<Rightarrow> (error + time list) option"
where
  "get_full_list_of_daily_bar_times today start_time end_time period_min skip_daily_clearing =
     (if start_time \<le> end_time
      then bar_times_loop (combine today start_time) end_time period_min
             skip_daily_clearing []
      else Some (Inl AssertionError))"

declare bar_times_loop.simps [code]

section \<open>Data frames\<close>

text \<open>
  A pandas \<open>DataFrame\<close> is modelled by its schema (the column names with their dtypes,
  in column order) and its rows, each row an association list from column name to cell.
  The row index is not modelled: neither program reads it and the files are written
  without it. Strings are ASCII. Missing values (\<open>NaN\<close>, \<open>NaT\<close>) are outside the model.
  A finite float is the rational number it denotes.
\<close>

datatype dtype = IntDtype nat | UIntDtype nat | FloatDtype nat | BoolDtype | DatetimeDtype
  | ObjectDtype

fun is_integer_dtype :: "dtype \<Rightarrow> bool" where
  "is_integer_dtype (IntDtype _) = True"
| "is_integer_dtype (UIntDtype _) = True"
| "is_integer_dtype _ = False"

datatype cell = IntV int | FloatV rat | StrV string | TsV datetime

type_synonym row = "(string \<times> cell) list"

record dataframe =
  columns :: "(string \<times> dtype) list"
  rows :: "row list"

definition col_names :: "dataframe \<Rightarrow> string list" where
  "col_names df = map fst (columns df)"

text \<open>
  \<open>df[c]\<close>: the cells of column \<open>c\<close>, or \<open>KeyError\<close>.
\<close>

definition get_col :: "dataframe \<Rightarrow> string \<Rightarrow> error + cell list" where
  "get_col df c =
     (if c \<in> set (col_names df)
      then (case those (map (\<lambda>r. map_of r c) (rows df)) of
              None \<Rightarrow> Inl (KeyError c) | Some vs \<Rightarrow> Inr vs)
      else Inl (KeyError c))"

text \<open>
  The timestamp and the volume of a row. They are read only from frames whose
  \<open>datetime\<close> column holds timestamps and whose \<open>vol\<close> column holds integers
  (see \<open>well_typed\<close>); the last case of each is never taken there.
\<close>

definition ts :: "row \<Rightarrow> datetime" where
  "ts r = (case map_of r ''datetime'' of Some (TsV d) \<Rightarrow> d | _ \<Rightarrow> 0)"

definition vol :: "row \<Rightarrow> int" where
  "vol r = (case map_of r ''vol'' of Some (IntV v) \<Rightarrow> v | _ \<Rightarrow> 0)"

definition cell_fits :: "dtype \<Rightarrow> cell \<Rightarrow> bool" where
  "cell_fits t c =
     (case t of
        DatetimeDtype \<Rightarrow> (case c of TsV _ \<Rightarrow> True | _ \<Rightarrow> False)
      | IntDtype _ \<Rightarrow> (case c of IntV _ \<Rightarrow> True | _ \<Rightarrow> False)
      | UIntDtype _ \<Rightarrow> (case c of IntV v \<Rightarrow> 0 \<le> v | _ \<Rightarrow> False)
      | _ \<Rightarrow> True)"

definition well_typed :: "dataframe \<Rightarrow> bool" where
  "well_typed df \<longleftrightarrow>
     distinct (col_names df)
     \<and> list_all (\<lambda>r. map fst r = col_names df
                     \<and> list_all2 (\<lambda>(_, t) (_, c). cell_fits t c) (columns df) r) (rows df)"

definition filter_rows :: "(row \<Rightarrow> bool) \<Rightarrow> dataframe \<Rightarrow> dataframe" where
  "filter_rows P df = df\<lparr>rows := filter P (rows df)\<rparr>"

definition bind_err :: "error + 'a \<Rightarrow> ('a \<Rightarrow> error + 'b) \<Rightarrow> error + 'b" where
  "bind_err m f = (case m of Inl e \<Rightarrow> Inl e | Inr x \<Rightarrow> f x)"

fun map_err :: "('a \<Rightarrow> error + 'b) \<Rightarrow> 'a list \<Rightarrow> error + 'b list" where
  "map_err f [] = Inr []"
| "map_err f (x # xs) =
     (case f x of
        Inl e \<Rightarrow> Inl e
      | Inr y \<Rightarrow> (case map_err f xs of Inl e \<Rightarrow> Inl e | Inr ys \<Rightarrow> Inr (y # ys)))"

text \<open>
  \<open>drop_duplicates(key)\<close> with the default \<open>keep='first'\<close>, and \<open>sort_values\<close>.
  numpy's default sort is not stable; the model sorts stably, and no theorem below
  depends on the order of rows with equal timestamps.
\<close>

fun drop_duplicates :: "('a \<Rightarrow> 'k) \<Rightarrow> 'a list \<Rightarrow> 'a list" where
  "drop_duplicates key [] = []"
| "drop_duplicates key (x # xs) = x # drop_duplicates key (filter (\<lambda>y. key y \<noteq> key x) xs)"

definition sort_values :: "dataframe \<Rightarrow> dataframe" where
  "sort_values df = df\<lparr>rows := sort_key ts (rows df)\<rparr>"

section \<open>cleaner.py: the gap detector\<close>

text \<open>
  What \<open>intraday_data_check\<close> prints: the number of bars per day, one warning per date
  with missing or irregular bars, and the closing line when there was no warning.
  The dates are read through the \<open>.dt\<close> accessor, which a column of another dtype than
  datetime does not have.
  A warning holds, when bars are missing, their count, the size of the grid and the
  first and last missing time; when bars are irregular, their count and the last one.
\<close>

record day_warning =
  wdate :: date
  missing :: "(nat \<times> nat \<times> time \<times> time) option"
  irregular :: "(nat \<times> time) option"

record check_output =
  total_bars :: nat
  warnings :: "day_warning list"
  all_ok :: bool

definition day_check :: "time set \<Rightarrow> row list \<Rightarrow> date \<Rightarrow> day_warning option" where
  "day_check full_times_set rs d =
     (let times_set = set (map (\<lambda>r. time_of (ts r)) (filter (\<lambda>r. date_of (ts r) = d) rs));
          missing_bars_set = full_times_set - times_set;
          irregular_bars_set = times_set - full_times_set
      in if card missing_bars_set \<noteq> 0 \<or> card irregular_bars_set \<noteq> 0
         then Some \<lparr>wdate = d,
                missing =
                  (if card missing_bars_set \<noteq> 0
                   then Some (card missing_bars_set, card full_times_set,
                              hd (sorted_list_of_set missing_bars_set),
                              last (sorted_list_of_set missing_bars_set))
                   else None),
                irregular =
                  (if card irregular_bars_set \<noteq> 0
                   then Some (card (times_set - full_times_set),
                              last (sorted_list_of_set (times_set - full_times_set)))
                   else None)\<rparr>
         else None)"

definition intraday_data_check ::
  "date \<Rightarrow> bool \<Rightarrow> dataframe \<Rightarrow> int \<Rightarrow> (error + check_output) option"
where
  "intraday_data_check today stock_flag df period_min =
     (case get_full_list_of_daily_bar_times today MKT_OPEN MKT_CLOSE period_min stock_flag of
        None \<Rightarrow> None
      | Some (Inl e) \<Rightarrow> Some (Inl e)
      | Some (Inr full) \<Rightarrow>
          (if ''datetime'' \<notin> set (col_names df) then Some (Inl (KeyError ''datetime''))
           else if map_of (columns df) ''datetime'' \<noteq> Some DatetimeDtype
           then Some (Inl AttributeError)
           else (let ws = List.map_filter (day_check (set full) (rows df))
                            (sort (remdups (map (\<lambda>r. date_of (ts r)) (rows df))))
                 in Some (Inr \<lparr>total_bars = card (set full), warnings = ws,
                               all_ok = (ws = [])\<rparr>))))"

section \<open>cleaner.py: the cleaning pipeline\<close>

text \<open>
  The library functions the pipeline calls on values it does not build itself:
  \<open>datetime.fromisoformat\<close>, \<open>pd.to_datetime\<close> on a cell that is not yet a timestamp,
  and the conversions \<open>astype(str)\<close> and \<open>astype(int)\<close> of a cell. \<open>None\<close> is a raised
  exception.
\<close>

record lib =
  fromisoformat :: "string \<Rightarrow> datetime option"
  to_datetime :: "cell \<Rightarrow> datetime option"
  str_of :: "cell \<Rightarrow> string"
  int_of :: "cell \<Rightarrow> int option"

text \<open>
  The options of the command line that the processing reads, the day the program runs
  and what the user types at the prompt of the interactive mode.
\<close>

record args =
  stock :: bool
  extended_hours :: bool
  keep_date_time :: bool
  start_date :: "date option"
  end_date :: "date option"
  interactive :: bool

record env =
  env_today :: date
  env_answer :: string

definition KNOWN_PERIODS :: "(cell \<times> int option) list" where
  "KNOWN_PERIODS =
     [(IntV 1, Some 1), (IntV 2, Some 2), (IntV 5, Some 5), (IntV 10, Some 10),
      (IntV 15, Some 15), (IntV 30, Some 30), (IntV 60, Some 60),
      (StrV ''daily'', None), (StrV ''weekly'', None), (StrV ''Monthly'', None)]"

text \<open>
  A dictionary key is found by hash and equality, and a float equal to an integer is
  equal to it as a key.
\<close>

definition dict_key :: "cell \<Rightarrow> cell" where
  "dict_key c = (case c of FloatV q \<Rightarrow> (if of_int \<lfloor>q\<rfloor> = q then IntV \<lfloor>q\<rfloor> else c) | _ \<Rightarrow> c)"

text \<open>\<open>KNOWN_PERIODS.get(period)\<close>, where a missing key gives Python's \<open>None\<close>.\<close>

definition KNOWN_PERIODS_get :: "cell \<Rightarrow> int option" where
  "KNOWN_PERIODS_get period =
     (case map_of KNOWN_PERIODS (dict_key period) of Some v \<Rightarrow> v | None \<Rightarrow> None)"

definition lower_char :: "char \<Rightarrow> char" where
  "lower_char c =
     (let n = (of_char c :: nat) in if 65 \<le> n \<and> n \<le> 90 then char_of (n + 32) else c)"

definition lower :: "string \<Rightarrow> string" where
  "lower s = map lower_char s"

text \<open>\<open>re.sub(r'[<>]', '', x).lower()\<close>\<close>

definition norm_column_name :: "string \<Rightarrow> string" where
  "norm_column_name x = lower (filter (\<lambda>c. c \<notin> set ''<>'') x)"

definition rename_columns :: "dataframe \<Rightarrow> dataframe" where
  "rename_columns df =
     \<lparr>columns = map (\<lambda>(n, t). (norm_column_name n, t)) (columns df),
      rows = map (map (\<lambda>(n, v). (norm_column_name n, v))) (rows df)\<rparr>"

text \<open>
  \<open>re.sub(r'.?SPBFUT.?|.?SPFB.?', '', x)\<close>. At a position the first alternative is tried
  before the second, and in each the leading \<open>.?\<close> first takes a character (any but
  a newline) and gives it back only if the literal does not follow; the trailing \<open>.?\<close>
  takes a character when there is one. A match is removed and the search goes on behind
  it; where nothing matches the character is kept.
\<close>

definition trail :: "string \<Rightarrow> nat" where
  "trail s = (case s of [] \<Rightarrow> 0 | c # _ \<Rightarrow> if c = CHR 0x0A then 0 else 1)"

definition match_alt :: "string \<Rightarrow> string \<Rightarrow> nat option" where
  "match_alt lit s =
     (case s of
        [] \<Rightarrow> None
      | c # rest \<Rightarrow>
          if c \<noteq> CHR 0x0A \<and> take (length lit) rest = lit
          then Some (1 + length lit + trail (drop (length lit) rest))
          else if take (length lit) s = lit
          then Some (length lit + trail (drop (length lit) s))
          else None)"

definition match_here :: "string \<Rightarrow> nat option" where
  "match_here s =
     (case match_alt ''SPBFUT'' s of Some n \<Rightarrow> Some n | None \<Rightarrow> match_alt ''SPFB'' s)"

function re_sub_markers :: "string \<Rightarrow> string" where
  "re_sub_markers s =
     (case match_here s of
        Some n \<Rightarrow> re_sub_markers (drop n s)
      | None \<Rightarrow> (case s of [] \<Rightarrow> [] | c # rest \<Rightarrow> c # re_sub_markers rest))"
  by pat_completeness auto
termination
  by (relation "measure length")
     (auto simp: match_here_def match_alt_def split: option.splits list.splits if_splits)

definition isspace :: "char \<Rightarrow> bool" where
  "isspace c \<longleftrightarrow> (of_char c :: nat) \<in> set [9, 10, 11, 12, 13, 28, 29, 30, 31, 32]"

text \<open>\<open>str.strip()\<close>\<close>

definition strip :: "string \<Rightarrow> string" where
  "strip s = rev (dropWhile isspace (rev (dropWhile isspace s)))"

definition clean_ticker :: "string \<Rightarrow> string" where
  "clean_ticker x = strip (re_sub_markers x)"

text \<open>
  The steps of \<open>process_dataframe\<close>, in the order of the source. A step that applies a
  function to every cell of a column fails when one application does. \<open>unique()\<close> tells
  the values of a column apart by hash and equality, as a dictionary does its keys: the
  integer 60 and the float 60.0 are one value.
\<close>

definition check_period :: "dataframe \<Rightarrow> error + cell" where
  "check_period df =
     bind_err (get_col df ''per'')
       (\<lambda>pers. if length (remdups (map dict_key pers)) \<noteq> 1 then Inl PeriodNotUnique
               else (case pers of [] \<Rightarrow> Inl PeriodNotUnique | period # _ \<Rightarrow> Inr period))"

definition clean_ticker_row :: "row \<Rightarrow> error + row" where
  "clean_ticker_row r =
     (case map_of r ''ticker'' of
        Some (StrV x) \<Rightarrow> Inr (AList.update ''ticker'' (StrV (clean_ticker x)) r)
      | Some _ \<Rightarrow> Inl TypeError
      | None \<Rightarrow> Inl (KeyError ''ticker''))"

definition clean_tickers :: "dataframe \<Rightarrow> error + dataframe" where
  "clean_tickers df =
     (if ''ticker'' \<in> set (col_names df)
      then bind_err (map_err clean_ticker_row (rows df))
             (\<lambda>rs. Inr \<lparr>columns = AList.update ''ticker'' ObjectDtype (columns df),
                        rows = rs\<rparr>)
      else Inl (KeyError ''ticker''))"

definition pad_time :: "string \<Rightarrow> string" where
  "pad_time x = (if length x = 5 then ''0'' @ x else x)"

definition make_datetime_row :: "lib \<Rightarrow> row \<Rightarrow> error + row" where
  "make_datetime_row l r =
     (case (map_of r ''date'', map_of r ''time'') of
        (Some d, Some t) \<Rightarrow>
          (case fromisoformat l (str_of l d @ '' '' @ pad_time (str_of l t)) of
             Some v \<Rightarrow> Inr (AList.update ''datetime'' (TsV v) r)
           | None \<Rightarrow> Inl ValueError)
      | (None, _) \<Rightarrow> Inl (KeyError ''date'')
      | (_, None) \<Rightarrow> Inl (KeyError ''time''))"

definition convert_datetime_row :: "lib \<Rightarrow> row \<Rightarrow> error + row" where
  "convert_datetime_row l r =
     (case map_of r ''datetime'' of
        Some c \<Rightarrow>
          (case (case c of TsV v \<Rightarrow> Some v | _ \<Rightarrow> to_datetime l c) of
             Some v \<Rightarrow> Inr (AList.update ''datetime'' (TsV v) r)
           | None \<Rightarrow> Inl ValueError)
      | None \<Rightarrow> Inl (KeyError ''datetime''))"

definition create_datetime :: "lib \<Rightarrow> dataframe \<Rightarrow> error + dataframe" where
  "create_datetime l df =
     (if {''date'', ''time''} \<subseteq> set (col_names df)
      then bind_err (map_err (make_datetime_row l) (rows df))
             (\<lambda>rs. Inr \<lparr>columns = AList.update ''datetime'' DatetimeDtype (columns df),
                        rows = rs\<rparr>)
      else if ''datetime'' \<in> set (col_names df)
      then bind_err (map_err (convert_datetime_row l) (rows df))
             (\<lambda>rs. Inr \<lparr>columns = AList.update ''datetime'' DatetimeDtype (columns df),
                        rows = rs\<rparr>)
      else Inl NoTemporalColumns)"

definition cast_vol_row :: "lib \<Rightarrow> row \<Rightarrow> error + row" where
  "cast_vol_row l r =
     (case map_of r ''vol'' of
        Some c \<Rightarrow>
          (case int_of l c of
             Some v \<Rightarrow> Inr (AList.update ''vol'' (IntV v) r)
           | None \<Rightarrow> Inl ValueError)
      | None \<Rightarrow> Inl (KeyError ''vol''))"

definition cast_vol :: "lib \<Rightarrow> dataframe \<Rightarrow> error + dataframe" where
  "cast_vol l df =
     (case map_of (columns df) ''vol'' of
        None \<Rightarrow> Inr df
      | Some t \<Rightarrow>
          if \<not> is_integer_dtype t
          then bind_err (map_err (cast_vol_row l) (rows df))
                 (\<lambda>rs. Inr \<lparr>columns = AList.update ''vol'' (IntDtype 64) (columns df),
                            rows = rs\<rparr>)
          else Inr df)"

definition drop_columns :: "string list \<Rightarrow> dataframe \<Rightarrow> dataframe" where
  "drop_columns cs df =
     \<lparr>columns = filter (\<lambda>(n, _). n \<notin> set cs) (columns df),
      rows = map (filter (\<lambda>(n, _). n \<notin> set cs)) (rows df)\<rparr>"

definition drop_date_time :: "args \<Rightarrow> dataframe \<Rightarrow> dataframe" where
  "drop_date_time a df =
     (if \<not> keep_date_time a \<and> {''date'', ''time''} \<subseteq> set (col_names df)
      then drop_columns [''date'', ''time''] df else df)"

definition restrict_dates :: "args \<Rightarrow> dataframe \<Rightarrow> dataframe" where
  "restrict_dates a df =
     (let df1 = (case start_date a of
                   Some s \<Rightarrow> filter_rows (\<lambda>r. s \<le> date_of (ts r)) df | None \<Rightarrow> df)
      in case end_date a of
           Some e \<Rightarrow> filter_rows (\<lambda>r. date_of (ts r) \<le> e) df1 | None \<Rightarrow> df1)"

definition drop_extended_hours :: "args \<Rightarrow> dataframe \<Rightarrow> dataframe" where
  "drop_extended_hours a df =
     (if extended_hours a then df
      else filter_rows (\<lambda>r. MKT_OPEN \<le> time_of (ts r) \<and> time_of (ts r) < MKT_CLOSE) df)"

definition drop_datetime_duplicates :: "dataframe \<Rightarrow> dataframe" where
  "drop_datetime_duplicates df =
     (if \<not> distinct (map ts (rows df)) then df\<lparr>rows := drop_duplicates ts (rows df)\<rparr>
      else df)"

text \<open>
  The first part of \<open>process_dataframe\<close>, up to the creation of the timestamps and the
  removal of the original columns: it gives the period and the frame whose rows are then
  filtered, deduplicated and sorted.
\<close>

definition prepare :: "lib \<Rightarrow> args \<Rightarrow> dataframe \<Rightarrow> error + (cell \<times> dataframe)" where
  "prepare l a df0 =
     (let df = rename_columns df0 in
      bind_err (check_period df) (\<lambda>period.
      bind_err (clean_tickers df) (\<lambda>df.
      bind_err (create_datetime l df) (\<lambda>df.
      bind_err (cast_vol l df) (\<lambda>df.
      Inr (period, drop_date_time a df))))))"

definition select_rows :: "args \<Rightarrow> dataframe \<Rightarrow> dataframe" where
  "select_rows a df =
     sort_values (drop_datetime_duplicates (drop_extended_hours a (restrict_dates a df)))"

definition process_dataframe ::
  "lib \<Rightarrow> env \<Rightarrow> args \<Rightarrow> dataframe \<Rightarrow> (error + (dataframe \<times> check_output option)) option"
where
  "process_dataframe l ev a df0 =
     (case prepare l a df0 of
        Inl e \<Rightarrow> Some (Inl e)
      | Inr (period, df1) \<Rightarrow>
          (let df = select_rows a df1 in
           if interactive a \<and> lower (env_answer ev) = ''n'' then Some (Inl SystemExit)
           else (case KNOWN_PERIODS_get period of
                   None \<Rightarrow> Some (Inr (df, None))
                 | Some p \<Rightarrow>
                     if p \<noteq> 0
                     then (case intraday_data_check (env_today ev) (stock a) df p of
                             None \<Rightarrow> None
                           | Some (Inl e) \<Rightarrow> Some (Inl e)
                           | Some (Inr out) \<Rightarrow> Some (Inr (df, Some out)))
                     else Some (Inr (df, None)))))"

section \<open>merger.py\<close>

text \<open>
  \<open>load_source_files\<close>. A file is given by the table \<open>read_csv\<close> finds in it, before the
  dates are parsed; whether the file exists and is well formed is not modelled.
  \<open>parse_dates=['datetime']\<close> raises \<open>ValueError\<close> when the table has no such column.
  Otherwise the column is converted, and left as it is when one of its values cannot be
  converted. \<open>read_csv\<close> gives repeated column names a suffix, so the names of a loaded
  frame are distinct.
\<close>

definition parse_dates :: "lib \<Rightarrow> dataframe \<Rightarrow> dataframe" where
  "parse_dates l df =
     (case map_err (convert_datetime_row l) (rows df) of
        Inl _ \<Rightarrow> df
      | Inr rs \<Rightarrow> \<lparr>columns = AList.update ''datetime'' DatetimeDtype (columns df),
                   rows = rs\<rparr>)"

definition load_source_file :: "lib \<Rightarrow> dataframe \<Rightarrow> error + dataframe" where
  "load_source_file l file =
     (if ''datetime'' \<in> set (col_names file) then Inr (parse_dates l file)
      else Inl ValueError)"

definition load_source_files ::
  "lib \<Rightarrow> dataframe \<Rightarrow> dataframe \<Rightarrow> error + (dataframe \<times> dataframe)"
where
  "load_source_files l file_1 file_2 =
     bind_err (load_source_file l file_1) (\<lambda>df1.
     bind_err (load_source_file l file_2) (\<lambda>df2. Inr (df1, df2)))"

text \<open>
  \<open>check_source_data\<close>. The checks of one frame, then, for the second frame, the
  comparison of the column sets and of the dtypes, both sorted by column name.
  \<open>Series.compare\<close> raises \<open>ValueError\<close> when the two sorted series do not carry the same
  labels, which two frames with equal column sets only do when a name is repeated.
\<close>

definition check_columns :: "nat \<Rightarrow> dataframe \<Rightarrow> error + unit" where
  "check_columns i df =
     (if ''datetime'' \<notin> set (col_names df) then Inl (NoDatetimeColumn (i + 1))
      else if ''vol'' \<notin> set (col_names df) then Inl (NoVolColumn (i + 1))
      else (case map_of (columns df) ''vol'' of
              None \<Rightarrow> Inl (NoVolColumn (i + 1))
            | Some t \<Rightarrow> if \<not> is_integer_dtype t then Inl (VolNotInteger (i + 1))
                       else Inr ()))"

definition check_source_data :: "dataframe \<Rightarrow> dataframe \<Rightarrow> error + unit" where
  "check_source_data df1 df2 =
     bind_err (check_columns 0 df1) (\<lambda>_.
       let df1_dtypes = sort_key fst (columns df1) in
       bind_err (check_columns 1 df2) (\<lambda>_.
         if set (col_names df2) \<noteq> set (map fst df1_dtypes) then Inl DifferentColumns
         else (let df2_dtypes = sort_key fst (columns df2) in
               if map fst df1_dtypes \<noteq> map fst df2_dtypes then Inl ValueError
               else if map snd df1_dtypes \<noteq> map snd df2_dtypes then Inl DifferentDtypes
               else Inr ())))"

text \<open>
  \<open>merge_data\<close>. The line printed for a frame reads its \<open>datetime\<close> column through the
  \<open>.dt\<close> accessor, its \<open>ticker\<close> column, and the minimum of its dates, which does not
  exist for a frame without rows.
\<close>

definition frame_info :: "dataframe \<Rightarrow> error + unit" where
  "frame_info df =
     (if ''datetime'' \<notin> set (col_names df) then Inl (KeyError ''datetime'')
      else if map_of (columns df) ''datetime'' \<noteq> Some DatetimeDtype then Inl AttributeError
      else if ''ticker'' \<notin> set (col_names df) then Inl (KeyError ''ticker'')
      else if rows df = [] then Inl ValueError
      else Inr ())"

text \<open>
  The arithmetic of the daily volumes is that of numpy. A sum of an integer column is
  accumulated in 64 bits, signed or unsigned as the column is, and wraps around.
  A float64 has a significand of 53 bits: an integer of more bits is rounded to the
  nearest float, to the one with the even significand when it lies halfway. The floats
  that occur here are those of 64-bit integers and their differences; they are integers,
  and a float is given by its value.
\<close>

definition wrap_int64 :: "int \<Rightarrow> int" where
  "wrap_int64 x = (x + 2 ^ 63) mod 2 ^ 64 - 2 ^ 63"

definition wrap_uint64 :: "int \<Rightarrow> int" where
  "wrap_uint64 x = x mod 2 ^ 64"

definition to_float64 :: "int \<Rightarrow> int" where
  "to_float64 x =
     (let m = \<bar>x\<bar>; e = nat (bitlen m - 53) in
      if e = 0 then x
      else (let q = m div 2 ^ e; r = m mod 2 ^ e; h = 2 ^ (e - 1);
                q' = (if h < r \<or> r = h \<and> odd q then q + 1 else q)
            in sgn x * (q' * 2 ^ e)))"

datatype arith = Int64 | UInt64 | Float64

text \<open>
  The dtype in which the volumes of a frame are summed. \<open>merge_data\<close> runs after
  \<open>check_source_data\<close>, on \<open>vol\<close> columns of an integer dtype. The sum of a column narrower
  than 64 bits is accumulated in 64 bits as well; in which width pandas then stores it
  depends on the sums, and the theorems on the comparison of volumes are stated for
  64-bit signed columns, as \<open>read_csv\<close> and the cleaning program produce them.
\<close>

definition sum_arith :: "dataframe \<Rightarrow> arith" where
  "sum_arith df = (case map_of (columns df) ''vol'' of Some (UIntDtype _) \<Rightarrow> UInt64 | _ \<Rightarrow> Int64)"

definition wrap :: "arith \<Rightarrow> int \<Rightarrow> int" where
  "wrap k x = (case k of Int64 \<Rightarrow> wrap_int64 x | UInt64 \<Rightarrow> wrap_uint64 x
               | Float64 \<Rightarrow> to_float64 x)"

text \<open>
  \<open>df.groupby(df['datetime'].dt.date)['vol'].sum().sort_index()\<close>: the dates of the frame
  in ascending order, each with the sum of its volumes.
\<close>

definition daily_volumes :: "dataframe \<Rightarrow> (date \<times> int) list" where
  "daily_volumes df =
     map (\<lambda>d. (d, wrap (sum_arith df)
                     (sum_list (map vol (filter (\<lambda>r. date_of (ts r) = d) (rows df))))))
       (sort (remdups (map (\<lambda>r. date_of (ts r)) (rows df))))"

text \<open>
  \<open>df1_vol - df2_vol\<close>. When the two series have the same index and the same dtype, the
  difference is taken in that dtype and wraps around. Otherwise both series are brought
  to the union of the two indexes, which makes them float64 series, missing (\<open>NaN\<close>,
  here \<open>None\<close>) where a date is in one index only, and the difference is that of floats.
\<close>

definition sub_arith :: "arith \<Rightarrow> arith \<Rightarrow> bool \<Rightarrow> arith" where
  "sub_arith k1 k2 same_index = (if same_index \<and> k1 = k2 then k1 else Float64)"

definition arith_sub :: "arith \<Rightarrow> int \<Rightarrow> int \<Rightarrow> int" where
  "arith_sub k x y =
     (case k of Float64 \<Rightarrow> to_float64 (to_float64 x - to_float64 y) | _ \<Rightarrow> wrap k (x - y))"

definition series_sub ::
  "arith \<Rightarrow> (date \<times> int) list \<Rightarrow> (date \<times> int) list \<Rightarrow> (date \<times> int option) list"
where
  "series_sub k v1 v2 =
     map (\<lambda>d. (d, case (map_of v1 d, map_of v2 d) of
                     (Some x, Some y) \<Rightarrow> Some (arith_sub k x y) | _ \<Rightarrow> None))
       (sort (remdups (map fst v1 @ map fst v2)))"

definition nonneg_index :: "(date \<times> int option) list \<Rightarrow> date list" where
  "nonneg_index s =
     map fst (filter (\<lambda>(d, x). case x of Some z \<Rightarrow> 0 \<le> z | None \<Rightarrow> False) s)"

text \<open>
  \<open>df[df['datetime'].dt.date.apply(...)]\<close>: on a frame with rows, \<open>apply\<close> gives a Boolean
  mask and the rows whose date is in the set are kept. On a frame without rows \<open>apply\<close>
  gives an empty series of dtype object, which pandas does not read as a mask but as a
  list of column labels: the result has no columns.
\<close>

definition select_dates :: "date set \<Rightarrow> dataframe \<Rightarrow> dataframe" where
  "select_dates dates df =
     (if rows df = [] then \<lparr>columns = [], rows = []\<rparr>
      else filter_rows (\<lambda>r. date_of (ts r) \<in> dates) df)"

text \<open>
  \<open>pd.concat\<close> of two frames: the columns of the first, then those only the second has;
  the rows of the first, then the rows of the second, each brought into that column
  order. A cell that \<open>concat\<close> would fill with \<open>NaN\<close> is left out; there is none when
  the column sets are equal or one of the frames has no columns.
\<close>

definition align :: "string list \<Rightarrow> row \<Rightarrow> row" where
  "align names r = List.map_filter (\<lambda>n. map_option (Pair n) (map_of r n)) names"

definition concat :: "dataframe \<Rightarrow> dataframe \<Rightarrow> dataframe" where
  "concat dfa dfb =
     (let cols = columns dfa @ filter (\<lambda>(n, _). n \<notin> set (col_names dfa)) (columns dfb)
      in \<lparr>columns = cols, rows = rows dfa @ map (align (map fst cols)) (rows dfb)\<rparr>)"

definition merge_data :: "args \<Rightarrow> dataframe \<Rightarrow> dataframe \<Rightarrow> error + dataframe" where
  "merge_data a df1_in df2_in =
     bind_err (frame_info df1_in) (\<lambda>_.
     bind_err (frame_info df2_in) (\<lambda>_.
       let df1 = restrict_dates a df1_in;
           df2 = restrict_dates a df2_in
       in if ''vol'' \<notin> set (col_names df1) \<or> ''vol'' \<notin> set (col_names df2)
          then Inl (KeyError ''vol'')
          else
            (let df1_vol = daily_volumes df1;
                 df2_vol = daily_volumes df2;
                 diff = series_sub (sub_arith (sum_arith df1) (sum_arith df2)
                                      (map fst df1_vol = map fst df2_vol)) df1_vol df2_vol;
                 df1_dates = (set (map fst df1_vol) - set (map fst df2_vol))
                               \<union> set (nonneg_index diff);
                 df2_dates = set (map fst df2_vol) - df1_dates;
                 new_df = sort_values
                            (concat (select_dates df1_dates df1) (select_dates df2_dates df2))
             in bind_err (frame_info new_df) (\<lambda>_. Inr new_df))))"

text \<open>
  The \<open>try\<close> block of the main program, for two files that exist: the files are loaded
  and checked, then merged.
\<close>

definition merger_main :: "lib \<Rightarrow> args \<Rightarrow> dataframe \<Rightarrow> dataframe \<Rightarrow> error + dataframe" where
  "merger_main l a file_1 file_2 =
     bind_err (load_source_files l file_1 file_2) (\<lambda>(df1, df2).
     bind_err (check_source_data df1 df2) (\<lambda>_. merge_data a df1 df2))"

section \<open>Specification-side notions\<close>

text \<open>
  The settlement break as a predicate on a time of day, and the sequence the specification
  describes: \<open>start\<close>, \<open>start + period\<close>, ... up to but excluding \<open>end\<close>. Both are used to
  state what the loop above computes.
\<close>

definition in_clearing_break :: "time \<Rightarrow> bool" where
  "in_clearing_break t \<longleftrightarrow> t div US_HOUR = 14 \<and> (t div US_MINUTE) mod 60 \<in> {0, 1, 2, 3, 4}"

definition grid_times :: "time \<Rightarrow> time \<Rightarrow> int \<Rightarrow> time list" where
  "grid_times start_time end_time period_min =
     map (\<lambda>k. start_time + int k * (period_min * US_MINUTE))
       [0..<nat ((end_time - start_time + period_min * US_MINUTE - 1) div (period_min * US_MINUTE))]"

text \<open>One time of day every 5 minutes from 10:00 to 18:35.\<close>

definition every_five_minutes :: "time list" where
  "every_five_minutes = map (\<lambda>k. mk_time 10 (5 * int k)) [0..<104]"


text \<open>
  The times of day observed on a date, and the warning the gap detector is to print for a
  date, given the set of grid times and the set of observed times.
\<close>

definition observed :: "dataframe \<Rightarrow> date \<Rightarrow> time set" where
  "observed df d = set (map (\<lambda>r. time_of (ts r)) (filter (\<lambda>r. date_of (ts r) = d) (rows df)))"

definition expected_warning :: "time set \<Rightarrow> time set \<Rightarrow> date \<Rightarrow> day_warning" where
  "expected_warning grid obs d =
     \<lparr>wdate = d,
      missing = (if grid - obs = {} then None
                 else Some (card (grid - obs), card grid, Min (grid - obs), Max (grid - obs))),
      irregular = (if obs - grid = {} then None
                   else Some (card (obs - grid), Max (obs - grid)))\<rparr>"

text \<open>The minute values among the keys of \<open>KNOWN_PERIODS\<close>.\<close>

definition known_minutes :: "int list" where
  "known_minutes = [1, 2, 5, 10, 15, 30, 60]"

text \<open>
  The rows that the date options and the session window let through, and what the
  preparation steps of the pipeline do to one row of a frame with the given columns.
\<close>

definition in_date_range :: "args \<Rightarrow> row \<Rightarrow> bool" where
  "in_date_range a r \<longleftrightarrow>
     (case start_date a of Some s \<Rightarrow> s \<le> date_of (ts r) | None \<Rightarrow> True)
     \<and> (case end_date a of Some e \<Rightarrow> date_of (ts r) \<le> e | None \<Rightarrow> True)"

definition in_session :: "row \<Rightarrow> bool" where
  "in_session r \<longleftrightarrow> MKT_OPEN \<le> time_of (ts r) \<and> time_of (ts r) < MKT_CLOSE"

definition retained :: "args \<Rightarrow> row \<Rightarrow> bool" where
  "retained a r \<longleftrightarrow> in_date_range a r \<and> (extended_hours a \<or> in_session r)"

definition prepare_row :: "lib \<Rightarrow> args \<Rightarrow> (string \<times> dtype) list \<Rightarrow> row \<Rightarrow> error + row" where
  "prepare_row l a cols r0 =
     (let cols' = map (\<lambda>(n, t). (norm_column_name n, t)) cols;
          both = ({''date'', ''time''} \<subseteq> set (map fst cols'))
      in bind_err (clean_ticker_row (map (\<lambda>(n, v). (norm_column_name n, v)) r0)) (\<lambda>r.
         bind_err (if both then make_datetime_row l r
                   else if ''datetime'' \<in> set (map fst cols') then convert_datetime_row l r
                   else Inl NoTemporalColumns) (\<lambda>r.
         bind_err (case map_of cols' ''vol'' of
                     None \<Rightarrow> Inr r
                   | Some t \<Rightarrow> if \<not> is_integer_dtype t then cast_vol_row l r else Inr r) (\<lambda>r.
         Inr (if \<not> keep_date_time a \<and> both
              then filter (\<lambda>(n, _). n \<notin> set [''date'', ''time'']) r else r)))))"


text \<open>
  For the merge: the dates of a frame, the rows and the total volume of a date, the
  total being the sum of the volumes as numbers, the dates whose computed difference of
  volumes is not negative or that only the first frame has, the frames whose \<open>vol\<close>
  column is of the 64-bit signed dtype, and the preconditions on the two schemas: an
  integer \<open>vol\<close> column in both, the same sets of columns, and the same dtype for each
  column.
\<close>

definition dates_of :: "dataframe \<Rightarrow> date set" where
  "dates_of df = set (map (\<lambda>r. date_of (ts r)) (rows df))"

definition day_rows :: "dataframe \<Rightarrow> date \<Rightarrow> row list" where
  "day_rows df d = filter (\<lambda>r. date_of (ts r) = d) (rows df)"

definition day_total :: "dataframe \<Rightarrow> date \<Rightarrow> int" where
  "day_total df d = sum_list (map vol (day_rows df d))"

definition first_dates :: "dataframe \<Rightarrow> dataframe \<Rightarrow> date set" where
  "first_dates A B =
     (dates_of A - dates_of B)
     \<union> {d \<in> dates_of A \<inter> dates_of B.
          0 \<le> arith_sub (sub_arith (sum_arith A) (sum_arith B)
                             (map fst (daily_volumes A) = map fst (daily_volumes B)))
                 (wrap (sum_arith A) (day_total A d)) (wrap (sum_arith B) (day_total B d))}"

definition int64_vol :: "dataframe \<Rightarrow> bool" where
  "int64_vol df \<longleftrightarrow> map_of (columns df) ''vol'' = Some (IntDtype 64)"

definition preconditions_ok :: "dataframe \<Rightarrow> dataframe \<Rightarrow> bool" where
  "preconditions_ok df1 df2 \<longleftrightarrow>
     (case map_of (columns df1) ''vol'' of Some t \<Rightarrow> is_integer_dtype t | None \<Rightarrow> False)
     \<and> (case map_of (columns df2) ''vol'' of Some t \<Rightarrow> is_integer_dtype t | None \<Rightarrow> False)
     \<and> set (col_names df1) = set (col_names df2)
     \<and> list_all (\<lambda>n. map_of (columns df1) n = map_of (columns df2) n) (col_names df1)"

text \<open>
  For the idempotence of the cleaning: names that the column normalisation leaves
  unchanged, what the preparation steps establish for a row and for a frame, and the
  frames whose tickers the ticker normalisation leaves unchanged.
\<close>

definition norm_keys :: "(string \<times> 'a) list \<Rightarrow> bool" where
  "norm_keys al \<longleftrightarrow> list_all (\<lambda>(n, _). norm_column_name n = n) al"

definition prepared_row :: "lib \<Rightarrow> bool \<Rightarrow> cell \<Rightarrow> row \<Rightarrow> bool" where
  "prepared_row l both period r \<longleftrightarrow>
     norm_keys r
     \<and> (case map_of r ''per'' of Some c \<Rightarrow> dict_key c = dict_key period | None \<Rightarrow> False)
     \<and> (case map_of r ''ticker'' of Some (StrV _) \<Rightarrow> True | _ \<Rightarrow> False)
     \<and> (case map_of r ''datetime'' of Some (TsV _) \<Rightarrow> True | _ \<Rightarrow> False)
     \<and> (both \<longrightarrow> make_datetime_row l r = Inr r)"

definition prepared :: "lib \<Rightarrow> args \<Rightarrow> cell \<Rightarrow> dataframe \<Rightarrow> bool" where
  "prepared l a period df \<longleftrightarrow>
     norm_keys (columns df)
     \<and> ''per'' \<in> set (col_names df)
     \<and> map_of (columns df) ''ticker'' = Some ObjectDtype
     \<and> map_of (columns df) ''datetime'' = Some DatetimeDtype
     \<and> (case map_of (columns df) ''vol'' of Some t \<Rightarrow> is_integer_dtype t | None \<Rightarrow> True)
     \<and> (keep_date_time a \<or> \<not> {''date'', ''time''} \<subseteq> set (col_names df))
     \<and> list_all (prepared_row l ({''date'', ''time''} \<subseteq> set (col_names df)) period) (rows df)"

definition tickers_clean :: "dataframe \<Rightarrow> bool" where
  "tickers_clean df \<longleftrightarrow>
     list_all (\<lambda>r. case map_of r ''ticker'' of Some (StrV x) \<Rightarrow> clean_ticker x = x | _ \<Rightarrow> True)
       (rows df)"

section \<open>Example data\<close>

text \<open>
  A raw export of four 60-minute bars of 2023-01-03 (ordinal 738523): out of order, with
  a repeated 10:00 bar and a bar at 9:00, before the session; the frame after the
  preparation steps and after cleaning; and a clean frame of that day that lacks only
  the 12:00 bar. The library functions are given by a table for the values that occur.
\<close>

definition example_lib :: lib where
  "example_lib =
     \<lparr>fromisoformat = map_of
        [(''20230103 090000'', combine 738523 (mk_time 9 0)),
         (''20230103 100000'', combine 738523 (mk_time 10 0)),
         (''20230103 110000'', combine 738523 (mk_time 11 0))],
      to_datetime = (\<lambda>c. case c of
         StrV x \<Rightarrow> map_of
           [(''2023-01-02 10:00:00'', combine 738522 (mk_time 10 0)),
            (''2023-01-03 10:00:00'', combine 738523 (mk_time 10 0)),
            (''2023-01-03 11:00:00'', combine 738523 (mk_time 11 0)),
            (''2023-01-04 10:00:00'', combine 738524 (mk_time 10 0)),
            (''2023-01-05 10:00:00'', combine 738525 (mk_time 10 0)),
            (''2023-01-06 10:00:00'', combine 738526 (mk_time 10 0))] x
       | _ \<Rightarrow> None),
      str_of = (\<lambda>c. case c of StrV s \<Rightarrow> s | _ \<Rightarrow> []),
      int_of = (\<lambda>c. case c of IntV v \<Rightarrow> Some v | _ \<Rightarrow> None)\<rparr>"

definition raw_row :: "string \<Rightarrow> rat \<Rightarrow> int \<Rightarrow> row" where
  "raw_row t c v =
     [(''<TICKER>'', StrV ''SPFB.RTS''), (''<PER>'', IntV 60), (''<DATE>'', StrV ''20230103''),
      (''<TIME>'', StrV t), (''<CLOSE>'', FloatV c), (''<VOL>'', IntV v)]"

definition example_raw :: dataframe where
  "example_raw =
     \<lparr>columns = [(''<TICKER>'', ObjectDtype), (''<PER>'', IntDtype 64), (''<DATE>'', ObjectDtype),
                 (''<TIME>'', ObjectDtype), (''<CLOSE>'', FloatDtype 64), (''<VOL>'', IntDtype 64)],
      rows = [raw_row ''110000'' 101 5, raw_row ''100000'' 100 7, raw_row ''100000'' 99 8,
              raw_row ''90000'' 98 1]\<rparr>"

definition example_args :: args where
  "example_args = \<lparr>stock = False, extended_hours = False, keep_date_time = False,
     start_date = None, end_date = None, interactive = False\<rparr>"

definition example_env :: env where
  "example_env = \<lparr>env_today = 739923, env_answer = []\<rparr>"

definition clean_row :: "int \<Rightarrow> rat \<Rightarrow> int \<Rightarrow> row" where
  "clean_row h c v =
     [(''ticker'', StrV ''RTS''), (''per'', IntV 60), (''close'', FloatV c), (''vol'', IntV v),
      (''datetime'', TsV (combine 738523 (mk_time h 0)))]"

definition clean_columns :: "(string \<times> dtype) list" where
  "clean_columns = [(''ticker'', ObjectDtype), (''per'', IntDtype 64), (''close'', FloatDtype 64),
                 (''vol'', IntDtype 64), (''datetime'', DatetimeDtype)]"

definition example_prepared :: dataframe where
  "example_prepared =
     \<lparr>columns = clean_columns,
      rows = [clean_row 11 101 5, clean_row 10 100 7, clean_row 10 99 8, clean_row 9 98 1]\<rparr>"

definition example_clean :: dataframe where
  "example_clean = \<lparr>columns = clean_columns, rows = [clean_row 10 100 7, clean_row 11 101 5]\<rparr>"

definition example_report :: check_output where
  "example_report =
     \<lparr>total_bars = 8,
      warnings = [\<lparr>wdate = 738523, missing = Some (6, 8, mk_time 12 0, mk_time 18 0),
                   irregular = None\<rparr>],
      all_ok = False\<rparr>"

definition example_gap :: dataframe where
  "example_gap =
     \<lparr>columns = clean_columns,
      rows = [clean_row 10 100 7, clean_row 11 101 5, clean_row 13 102 4, clean_row 15 103 3,
              clean_row 16 104 2, clean_row 17 105 6, clean_row 18 106 9]\<rparr>"

definition example_gap_report :: check_output where
  "example_gap_report =
     \<lparr>total_bars = 8,
      warnings = [\<lparr>wdate = 738523, missing = Some (1, 8, mk_time 12 0, mk_time 12 0),
                   irregular = None\<rparr>],
      all_ok = False\<rparr>"

text \<open>The same run with the extended hours kept.\<close>

definition example_args_ext :: args where
  "example_args_ext = example_args\<lparr>extended_hours := True\<rparr>"

definition example_extended :: dataframe where
  "example_extended =
     \<lparr>columns = clean_columns,
      rows = [clean_row 9 98 1, clean_row 10 100 7, clean_row 11 101 5]\<rparr>"

definition example_extended_report :: check_output where
  "example_extended_report =
     \<lparr>total_bars = 8,
      warnings = [\<lparr>wdate = 738523, missing = Some (6, 8, mk_time 12 0, mk_time 18 0),
                   irregular = Some (1, mk_time 9 0)\<rparr>],
      all_ok = False\<rparr>"

text \<open>
  Two series for the merge. 738523 (2023-01-03): totals 100 and 90; 738524: 50 and 50;
  738525: 10 and 20; 738522 is in the first only and 738526 in the second only.
  Then the merge of the two, the merge restricted to 738523..738525, a frame with one
  column more, and a frame without a \<open>datetime\<close> column.
\<close>

definition merge_columns :: "(string \<times> dtype) list" where
  "merge_columns = [(''ticker'', ObjectDtype), (''datetime'', DatetimeDtype), (''vol'', IntDtype 64)]"

definition merge_row :: "string \<Rightarrow> date \<Rightarrow> int \<Rightarrow> int \<Rightarrow> row" where
  "merge_row tk d h v =
     [(''ticker'', StrV tk), (''datetime'', TsV (combine d (mk_time h 0))), (''vol'', IntV v)]"

definition example_A :: dataframe where
  "example_A =
     \<lparr>columns = merge_columns,
      rows = [merge_row ''RIH3'' 738522 10 5, merge_row ''RIH3'' 738523 10 60,
              merge_row ''RIH3'' 738523 11 40, merge_row ''RIH3'' 738524 10 50,
              merge_row ''RIH3'' 738525 10 10]\<rparr>"

definition example_B :: dataframe where
  "example_B =
     \<lparr>columns = merge_columns,
      rows = [merge_row ''RIM3'' 738523 10 90, merge_row ''RIM3'' 738524 10 50,
              merge_row ''RIM3'' 738525 10 20, merge_row ''RIM3'' 738526 10 7]\<rparr>"

definition example_merged :: dataframe where
  "example_merged =
     \<lparr>columns = merge_columns,
      rows = [merge_row ''RIH3'' 738522 10 5, merge_row ''RIH3'' 738523 10 60,
              merge_row ''RIH3'' 738523 11 40, merge_row ''RIH3'' 738524 10 50,
              merge_row ''RIM3'' 738525 10 20, merge_row ''RIM3'' 738526 10 7]\<rparr>"

definition example_args_range :: args where
  "example_args_range = example_args\<lparr>start_date := Some 738523, end_date := Some 738525\<rparr>"

definition example_merged_range :: dataframe where
  "example_merged_range =
     \<lparr>columns = merge_columns,
      rows = [merge_row ''RIH3'' 738523 10 60, merge_row ''RIH3'' 738523 11 40,
              merge_row ''RIH3'' 738524 10 50, merge_row ''RIM3'' 738525 10 20]\<rparr>"

definition example_C :: dataframe where
  "example_C =
     \<lparr>columns = merge_columns @ [(''close'', FloatDtype 64)],
      rows = [merge_row ''RIM3'' 738523 10 90 @ [(''close'', FloatV 100)]]\<rparr>"

definition example_no_datetime :: dataframe where
  "example_no_datetime =
     \<lparr>columns = [(''ticker'', ObjectDtype), (''vol'', IntDtype 64)],
      rows = [[(''ticker'', StrV ''RIH3''), (''vol'', IntV 5)]]\<rparr>"

text \<open>
  The tables of the three files that the frames above are loaded from, with the
  timestamps as they are written in a file.
\<close>

definition file_columns :: "(string \<times> dtype) list" where
  "file_columns = [(''ticker'', ObjectDtype), (''datetime'', ObjectDtype), (''vol'', IntDtype 64)]"

definition file_row :: "string \<Rightarrow> string \<Rightarrow> int \<Rightarrow> row" where
  "file_row tk t v = [(''ticker'', StrV tk), (''datetime'', StrV t), (''vol'', IntV v)]"

definition example_file_A :: dataframe where
  "example_file_A =
     \<lparr>columns = file_columns,
      rows = [file_row ''RIH3'' ''2023-01-02 10:00:00'' 5,
              file_row ''RIH3'' ''2023-01-03 10:00:00'' 60,
              file_row ''RIH3'' ''2023-01-03 11:00:00'' 40,
              file_row ''RIH3'' ''2023-01-04 10:00:00'' 50,
              file_row ''RIH3'' ''2023-01-05 10:00:00'' 10]\<rparr>"

definition example_file_B :: dataframe where
  "example_file_B =
     \<lparr>columns = file_columns,
      rows = [file_row ''RIM3'' ''2023-01-03 10:00:00'' 90,
              file_row ''RIM3'' ''2023-01-04 10:00:00'' 50,
              file_row ''RIM3'' ''2023-01-05 10:00:00'' 20,
              file_row ''RIM3'' ''2023-01-06 10:00:00'' 7]\<rparr>"

definition example_file_C :: dataframe where
  "example_file_C =
     \<lparr>columns = file_columns @ [(''close'', FloatDtype 64)],
      rows = [file_row ''RIM3'' ''2023-01-03 10:00:00'' 90 @ [(''close'', FloatV 100)]]\<rparr>"

text \<open>
  Two series whose only date is 738523. The three volumes of the first are \<open>2^62\<close> each,
  the volume of the second is 1. Then two series with the totals \<open>2^53\<close> and \<open>2^53 + 1\<close>
  on 738523, the first with one more date. Then two series of unsigned volumes, as
  \<open>read_csv\<close> gives them for a column with a value of \<open>2^63\<close> or more, with the totals 5
  and 7 on 738523.
\<close>

definition example_wrap_A :: dataframe where
  "example_wrap_A =
     \<lparr>columns = merge_columns,
      rows = [merge_row ''RIH3'' 738523 10 (2 ^ 62), merge_row ''RIH3'' 738523 11 (2 ^ 62),
              merge_row ''RIH3'' 738523 12 (2 ^ 62)]\<rparr>"

definition example_wrap_B :: dataframe where
  "example_wrap_B = \<lparr>columns = merge_columns, rows = [merge_row ''RIM3'' 738523 10 1]\<rparr>"

definition example_round_A :: dataframe where
  "example_round_A =
     \<lparr>columns = merge_columns,
      rows = [merge_row ''RIH3'' 738522 10 5, merge_row ''RIH3'' 738523 10 (2 ^ 53)]\<rparr>"

definition example_round_B :: dataframe where
  "example_round_B =
     \<lparr>columns = merge_columns, rows = [merge_row ''RIM3'' 738523 10 (2 ^ 53 + 1)]\<rparr>"

definition unsigned_columns :: "(string \<times> dtype) list" where
  "unsigned_columns =
     [(''ticker'', ObjectDtype), (''datetime'', DatetimeDtype), (''vol'', UIntDtype 64)]"

definition example_unsigned_A :: dataframe where
  "example_unsigned_A =
     \<lparr>columns = unsigned_columns,
      rows = [merge_row ''RIH3'' 738523 10 5, merge_row ''RIH3'' 738524 10 (2 ^ 63)]\<rparr>"

definition example_unsigned_B :: dataframe where
  "example_unsigned_B =
     \<lparr>columns = unsigned_columns,
      rows = [merge_row ''RIM3'' 738523 10 7, merge_row ''RIM3'' 738524 10 (2 ^ 63)]\<rparr>"

text \<open>
  A raw export whose only bar lies before the session, the empty frame it is cleaned
  to, and a clean frame of one bar with a given ticker.
\<close>

definition example_early :: dataframe where
  "example_early = \<lparr>columns = columns example_raw, rows = [raw_row ''90000'' 98 1]\<rparr>"

definition example_empty :: dataframe where
  "example_empty = \<lparr>columns = clean_columns, rows = []\<rparr>"

definition example_empty_report :: check_output where
  "example_empty_report = \<lparr>total_bars = 8, warnings = [], all_ok = True\<rparr>"

definition marked_row :: "string \<Rightarrow> row" where
  "marked_row tk =
     [(''ticker'', StrV tk), (''per'', IntV 60), (''close'', FloatV 100), (''vol'', IntV 7),
      (''datetime'', TsV (combine 738523 (mk_time 10 0)))]"

definition example_marked :: "string \<Rightarrow> dataframe" where
  "example_marked tk = \<lparr>columns = clean_columns, rows = [marked_row tk]\<rparr>"

definition example_marked_report :: check_output where
  "example_marked_report =
     \<lparr>total_bars = 8,
      warnings = [\<lparr>wdate = 738523, missing = Some (7, 8, mk_time 11 0, mk_time 18 0),
                   irregular = None\<rparr>],
      all_ok = False\<rparr>"

section \<open>Properties of the session time grid\<close>

lemma grid_times_Nil: "0 < p \<Longrightarrow> \<not> s < e \<Longrightarrow> grid_times s e p = []"
proof -
  assume p: "0 < p" and "\<not> s < e"
  then have "e - s + p * US_MINUTE - 1 < p * US_MINUTE" by simp
  moreover have "0 < p * US_MINUTE" using p by (simp add: US_MINUTE_def)
  ultimately have "(e - s + p * US_MINUTE - 1) div (p * US_MINUTE) \<le> 0"
    by (smt (verit) div_pos_pos_trivial div_nonpos_pos_le0 zdiv_mono1)
  then show ?thesis by (simp add: grid_times_def)
qed

lemma grid_times_Cons:
  assumes p: "0 < p" and se: "s < e"
  shows "grid_times s e p = s # grid_times (s + p * US_MINUTE) e p"
proof -
  define P where "P = p * US_MINUTE"
  have P: "0 < P" using p by (simp add: P_def US_MINUTE_def)
  define n where "n = nat ((e - (s + P) + P - 1) div P)"
  have "e - s + P - 1 = (e - (s + P) + P - 1) + P" by simp
  then have "(e - s + P - 1) div P = (e - (s + P) + P - 1) div P + 1"
    using P by (metis div_add_self2 less_irrefl)
  moreover have "0 \<le> (e - (s + P) + P - 1) div P"
    using P se by (simp add: pos_imp_zdiv_nonneg_iff)
  ultimately have n: "nat ((e - s + P - 1) div P) = Suc n"
    by (simp add: n_def nat_add_distrib)
  have "[0..<Suc n] = 0 # map Suc [0..<n]"
    by (simp add: upt_conv_Cons map_Suc_upt del: upt_Suc)
  then have "map (\<lambda>k. s + int k * P) [0..<Suc n] = s # map (\<lambda>k. s + P + int k * P) [0..<n]"
    by (simp add: comp_def algebra_simps del: upt_Suc)
  then show ?thesis
    unfolding grid_times_def P_def[symmetric] n n_def[symmetric] by simp
qed

lemma time_of_combine: "0 \<le> t \<Longrightarrow> t < US_DAY \<Longrightarrow> time_of (combine d t) = t"
  by (simp add: time_of_def combine_def)

lemma date_of_combine: "0 \<le> t \<Longrightarrow> t < US_DAY \<Longrightarrow> date_of (combine d t) = d"
  by (simp add: date_of_def combine_def US_DAY_def)

lemma bar_times_loop_grid:
  assumes "valid_date d" and "0 < p" and "e + p * US_MINUTE \<le> US_DAY"
  shows "valid_time s \<Longrightarrow> bar_times_loop (combine d s) e p skip acc =
           Some (Inr (acc @ filter (\<lambda>t. skip \<or> \<not> in_clearing_break t) (grid_times s e p)))"
proof (induction "nat (e - s)" arbitrary: s acc rule: less_induct)
  case less
  show ?case
  proof (cases "s < e")
    case False
    then have "\<not> time_of (combine d s) < e"
      using less.prems by (simp add: time_of_combine valid_time_def)
    then show ?thesis
      by (subst bar_times_loop.simps) (simp add: grid_times_Nil[OF assms(2) False])
  next
    case True
    have P: "0 < p * US_MINUTE" using assms by (simp add: US_MINUTE_def)
    have sd: "s < US_DAY" "s + p * US_MINUTE < US_DAY" using True assms P by auto
    have s0: "0 \<le> s" using less.prems by (simp add: valid_time_def)
    have t: "time_of (combine d s) = s" using s0 sd by (simp add: time_of_combine)
    have "date_of (combine d (s + p * US_MINUTE)) = d"
      using s0 sd P by (intro date_of_combine) auto
    moreover have "combine d s + p * US_MINUTE = combine d (s + p * US_MINUTE)"
      by (simp add: combine_def)
    ultimately have a: "add_minutes (combine d s) p = Inr (combine d (s + p * US_MINUTE))"
      using assms(1) by (simp add: add_minutes_def Let_def)
    have ih: "bar_times_loop (combine d (s + p * US_MINUTE)) e p skip acc' =
           Some (Inr (acc' @ filter (\<lambda>t. skip \<or> \<not> in_clearing_break t) (grid_times (s + p * US_MINUTE) e p)))" for acc'
      using less.hyps[of "s + p * US_MINUTE" acc'] True P s0 sd by (simp add: valid_time_def)
    show ?thesis
      by (subst bar_times_loop.simps)
         (simp add: t a ih True grid_times_Cons[OF assms(2) True] hour_def minute_def in_clearing_break_def)
  qed
qed

lemma bar_times_loop_result:
  assumes "bar_times_loop v e p skip acc = Some r"
  shows "case r of Inl _ \<Rightarrow> True
         | Inr xs \<Rightarrow> \<exists>ys. xs = acc @ ys
               \<and> (\<forall>t\<in>set ys. t < e \<and> (skip \<or> \<not> in_clearing_break t))"
proof (rule bar_times_loop.raw_induct[where P = "\<lambda>v e p skip acc r. case r of Inl _ \<Rightarrow> True
         | Inr xs \<Rightarrow> \<exists>ys. xs = acc @ ys
               \<and> (\<forall>t\<in>set ys. t < e \<and> (skip \<or> \<not> in_clearing_break t))", OF _ assms], goal_cases)
  case (1 loop v e p skip acc r)
  show ?case
  proof (cases "time_of v < e")
    case False
    with 1(2) show ?thesis by auto
  next
    case True
    show ?thesis
    proof (cases "add_minutes v p")
      case (Inl err)
      with True 1(2) show ?thesis by (auto simp: Let_def)
    next
      case (Inr v')
      define acc' where "acc' = (if skip \<or> hour v \<noteq> 14 \<or> minute v \<notin> set [0, 1, 2, 3, 4]
                then acc @ [time_of v] else acc)"
      have "loop v' e p skip acc' = Some r"
        using True Inr 1(2) by (simp add: Let_def acc'_def)
      from 1(1)[OF this] show ?thesis
        using True
        by (cases r) (auto simp: acc'_def hour_def minute_def in_clearing_break_def
            split: if_splits)
    qed
  qed
qed

lemma bar_times_loop_head:
  assumes r: "bar_times_loop v e p skip [] = Some (Inr xs)"
    and lt: "time_of v < e" and keep: "skip \<or> \<not> in_clearing_break (time_of v)"
  shows "xs \<noteq> [] \<and> hd xs = time_of v"
proof (cases "add_minutes v p")
  case (Inl err)
  with r lt show ?thesis by (subst (asm) bar_times_loop.simps) (simp add: Let_def)
next
  case (Inr v')
  have "bar_times_loop v' e p skip [time_of v] = Some (Inr xs)"
    using r lt keep Inr
    by (subst (asm) bar_times_loop.simps)
       (auto simp: Let_def hour_def minute_def in_clearing_break_def)
  from bar_times_loop_result[OF this] show ?thesis by auto
qed


lemma grid_5: "grid_times MKT_OPEN MKT_CLOSE 5 = every_five_minutes"
  by (simp add: grid_times_def every_five_minutes_def MKT_OPEN_def MKT_CLOSE_def mk_time_def
      US_MINUTE_def US_HOUR_def algebra_simps)

lemma break_5: "filter (\<lambda>t. \<not> in_clearing_break t) every_five_minutes
   = filter (\<lambda>t. t \<noteq> mk_time 14 0) every_five_minutes"
  by code_simp

lemma mem_5: "mk_time 14 0 \<in> set every_five_minutes" "mk_time 14 1 \<notin> set every_five_minutes"
  by code_simp+




lemma bar_times_returns:
  assumes "valid_date today" "valid_time start_time" "start_time \<le> end_time"
    "1 \<le> period_min" "end_time \<le> US_DAY - period_min * US_MINUTE"
  shows "get_full_list_of_daily_bar_times today start_time end_time period_min skip =
           Some (Inr (filter (\<lambda>t. skip \<or> \<not> in_clearing_break t)
                        (grid_times start_time end_time period_min)))"
  using assms bar_times_loop_grid[of today period_min end_time start_time skip "[]"]
  by (simp add: get_full_list_of_daily_bar_times_def)

lemma session_bounds:
  "valid_time MKT_OPEN" "MKT_OPEN \<le> MKT_CLOSE"
  "p \<in> set [1, 2, 5, 10, 15, 30, 60] \<Longrightarrow> 1 \<le> p \<and> MKT_CLOSE \<le> US_DAY - p * US_MINUTE"
  by (auto simp: valid_time_def MKT_OPEN_def MKT_CLOSE_def mk_time_def US_DAY_def US_HOUR_def
      US_MINUTE_def)

lemma add_minutes_same_day:
  assumes "1 \<le> p" "time_of v < e" "e \<le> US_DAY - p * US_MINUTE" "valid_date (date_of v)"
  shows "add_minutes v p = Inr (v + p * US_MINUTE) \<and> date_of (v + p * US_MINUTE) = date_of v
         \<and> time_of (v + p * US_MINUTE) = time_of v + p * US_MINUTE"
proof -
  have P: "0 < p * US_MINUTE" using assms(1) by (simp add: US_MINUTE_def)
  have v: "v = combine (date_of v) (time_of v)"
    by (simp add: combine_def date_of_def time_of_def)
  have t0: "0 \<le> time_of v" by (simp add: time_of_def US_DAY_def)
  have eq: "v + p * US_MINUTE = combine (date_of v) (time_of v + p * US_MINUTE)"
    by (simp add: combine_def date_of_def time_of_def)
  have d: "date_of (v + p * US_MINUTE) = date_of v"
    by (subst eq, rule date_of_combine) (use assms P t0 in auto)
  have t: "time_of (v + p * US_MINUTE) = time_of v + p * US_MINUTE"
    by (subst eq, rule time_of_combine) (use assms P t0 in auto)
  show ?thesis using d t assms(4) by (simp add: add_minutes_def Let_def)
qed

text \<open>
  Claim C9. On a representable day, the generator returns a list whenever the start time is
  a time of day not after the end time, the period is at least one minute and the end
  time is no later than 24:00 minus the period; this covers the session bounds 10:00 and
  18:40 with each known minute period. The reason is the third part: from a time of day
  below such an end time, one step stays on the same day and strictly increases the
  time of day.
\<close>
theorem bar_times_terminates:
  assumes "valid_date today"
  shows "(valid_time start_time \<and> start_time \<le> end_time \<and> 1 \<le> period_min
            \<and> end_time \<le> US_DAY - period_min * US_MINUTE
          \<longrightarrow> (\<exists>xs. get_full_list_of_daily_bar_times today start_time end_time period_min skip
                      = Some (Inr xs)))
       \<and> (known \<in> set [1, 2, 5, 10, 15, 30, 60]
          \<longrightarrow> (\<exists>xs. get_full_list_of_daily_bar_times today MKT_OPEN MKT_CLOSE known skip
                      = Some (Inr xs)))
       \<and> (1 \<le> period_min \<and> time_of var_dt < end_time
            \<and> end_time \<le> US_DAY - period_min * US_MINUTE \<and> valid_date (date_of var_dt)
          \<longrightarrow> (\<exists>var_dt'. add_minutes var_dt period_min = Inr var_dt'
                 \<and> date_of var_dt' = date_of var_dt \<and> time_of var_dt < time_of var_dt'))"
proof (intro conjI impI)
  assume "valid_time start_time \<and> start_time \<le> end_time \<and> 1 \<le> period_min
            \<and> end_time \<le> US_DAY - period_min * US_MINUTE"
  then show "\<exists>xs. get_full_list_of_daily_bar_times today start_time end_time period_min skip
                      = Some (Inr xs)"
    using bar_times_returns[OF assms, of start_time end_time period_min skip] by simp
next
  assume "known \<in> set [1, 2, 5, 10, 15, 30, 60]"
  from session_bounds(3)[OF this] show "\<exists>xs. get_full_list_of_daily_bar_times today MKT_OPEN MKT_CLOSE known skip
                      = Some (Inr xs)"
    using bar_times_returns[OF assms session_bounds(1,2), of known skip] by simp
next
  assume a: "1 \<le> period_min \<and> time_of var_dt < end_time
            \<and> end_time \<le> US_DAY - period_min * US_MINUTE \<and> valid_date (date_of var_dt)"
  then have "0 < period_min * US_MINUTE" by (simp add: US_MINUTE_def)
  then show "\<exists>var_dt'. add_minutes var_dt period_min = Inr var_dt'
                 \<and> date_of var_dt' = date_of var_dt \<and> time_of var_dt < time_of var_dt'"
    using add_minutes_same_day[of period_min var_dt end_time] a by simp
qed

theorem bar_times_terminates_witness:
  "valid_date 739923 \<and> valid_time MKT_OPEN \<and> MKT_OPEN \<le> MKT_CLOSE \<and> (1::int) \<le> 5
   \<and> MKT_CLOSE \<le> US_DAY - 5 * US_MINUTE \<and> (5::int) \<in> set [1, 2, 5, 10, 15, 30, 60]
   \<and> time_of (combine 739923 MKT_OPEN) < MKT_CLOSE
   \<and> valid_date (date_of (combine 739923 MKT_OPEN))
   \<and> (\<exists>xs. get_full_list_of_daily_bar_times 739923 MKT_OPEN MKT_CLOSE 5 False = Some (Inr xs))
   \<and> (\<exists>var_dt'. add_minutes (combine 739923 MKT_OPEN) 5 = Inr var_dt'
         \<and> date_of var_dt' = 739923 \<and> MKT_OPEN < time_of var_dt')"
proof -
  have h: "valid_date 739923" by (simp add: valid_date_def MAX_ORDINAL_def)
  have b: "valid_time MKT_OPEN \<and> MKT_OPEN \<le> MKT_CLOSE \<and> (1::int) \<le> 5
   \<and> MKT_CLOSE \<le> US_DAY - 5 * US_MINUTE \<and> (5::int) \<in> set [1, 2, 5, 10, 15, 30, 60]"
    by (simp add: valid_time_def MKT_OPEN_def MKT_CLOSE_def mk_time_def US_DAY_def US_HOUR_def
      US_MINUTE_def)
  have c: "time_of (combine 739923 MKT_OPEN) = MKT_OPEN" "date_of (combine 739923 MKT_OPEN) = 739923"
    by (simp_all add: time_of_def date_of_def combine_def MKT_OPEN_def mk_time_def US_DAY_def US_HOUR_def
      US_MINUTE_def)
  have d: "MKT_OPEN < MKT_CLOSE" by (simp add: MKT_OPEN_def MKT_CLOSE_def mk_time_def US_DAY_def US_HOUR_def
      US_MINUTE_def)
  show ?thesis
    using bar_times_terminates[OF h, of MKT_OPEN MKT_CLOSE 5 False 5 "combine 739923 MKT_OPEN"] h b c d
    by simp
qed



text \<open>
  Claim C3, as amended. For a start time not after the end time and a positive period: on a
  representable day and with an end time no later than 24:00 minus the period the
  generator returns a list; and every list it returns holds only times of day strictly
  before the end time, is empty when start and end coincide, begins with the start time
  when start is before end and is not dropped by the settlement-break exclusion, and
  does not hold the start time at all when the exclusion applies to it.
\<close>
theorem bar_times_start_and_end:
  assumes "valid_time start_time" "start_time \<le> end_time" "0 < period_min"
  shows "(valid_date today \<and> end_time \<le> US_DAY - period_min * US_MINUTE
          \<longrightarrow> (\<exists>xs. get_full_list_of_daily_bar_times today start_time end_time period_min skip
                      = Some (Inr xs)))
       \<and> (\<forall>xs. get_full_list_of_daily_bar_times today start_time end_time period_min skip
                  = Some (Inr xs)
          \<longrightarrow> (\<forall>t\<in>set xs. t < end_time)
              \<and> (start_time < end_time \<and> (skip \<or> \<not> in_clearing_break start_time)
                  \<longrightarrow> xs \<noteq> [] \<and> hd xs = start_time)
              \<and> (start_time = end_time \<longrightarrow> xs = [])
              \<and> (\<not> skip \<and> in_clearing_break start_time \<longrightarrow> start_time \<notin> set xs))"
proof (intro conjI impI allI)
  assume "valid_date today \<and> end_time \<le> US_DAY - period_min * US_MINUTE"
  then show "\<exists>xs. get_full_list_of_daily_bar_times today start_time end_time period_min skip
                      = Some (Inr xs)"
    using bar_times_returns[of today start_time end_time period_min skip] assms by simp
next
  fix xs
  assume "get_full_list_of_daily_bar_times today start_time end_time period_min skip
                  = Some (Inr xs)"
  then have r: "bar_times_loop (combine today start_time) end_time period_min skip [] = Some (Inr xs)"
    using assms(2) by (simp add: get_full_list_of_daily_bar_times_def)
  have t: "time_of (combine today start_time) = start_time"
    using assms(1) by (simp add: time_of_combine valid_time_def)
  from bar_times_loop_result[OF r]
  have all: "\<forall>t\<in>set xs. t < end_time \<and> (skip \<or> \<not> in_clearing_break t)" by simp
  then show "\<forall>t\<in>set xs. t < end_time" by simp
  { assume "start_time < end_time \<and> (skip \<or> \<not> in_clearing_break start_time)"
    then show "xs \<noteq> []" "hd xs = start_time"
      using bar_times_loop_head[OF r] t by simp_all }
  { assume "start_time = end_time"
    then show "xs = []" using r t by (subst (asm) bar_times_loop.simps) simp }
  { assume "\<not> skip \<and> in_clearing_break start_time"
    then show "start_time \<notin> set xs" using all by auto }
qed

theorem bar_times_start_and_end_witness:
  "valid_time MKT_OPEN \<and> MKT_OPEN \<le> MKT_CLOSE \<and> (0::int) < 60
   \<and> valid_date 739923 \<and> MKT_CLOSE \<le> US_DAY - 60 * US_MINUTE
   \<and> get_full_list_of_daily_bar_times 739923 MKT_OPEN MKT_CLOSE 60 False
       = Some (Inr (map (\<lambda>h. mk_time h 0) [10, 11, 12, 13, 15, 16, 17, 18]))
   \<and> list_all (\<lambda>t. t < MKT_CLOSE) (map (\<lambda>h. mk_time h 0) [10, 11, 12, 13, 15, 16, 17, 18])
   \<and> MKT_OPEN < MKT_CLOSE \<and> \<not> in_clearing_break MKT_OPEN
   \<and> hd (map (\<lambda>h. mk_time h 0) [10, 11, 12, 13, 15, 16, 17, 18]) = MKT_OPEN"
proof -
  have h: "valid_time MKT_OPEN" "MKT_OPEN \<le> MKT_CLOSE" "(0::int) < 60"
    by (simp_all add: valid_time_def MKT_OPEN_def MKT_CLOSE_def mk_time_def US_DAY_def
        US_HOUR_def US_MINUTE_def)
  have d: "valid_date 739923" "MKT_CLOSE \<le> US_DAY - 60 * US_MINUTE" "MKT_OPEN < MKT_CLOSE"
      "\<not> in_clearing_break MKT_OPEN"
    by (simp_all add: valid_date_def MAX_ORDINAL_def in_clearing_break_def MKT_OPEN_def
        MKT_CLOSE_def mk_time_def US_DAY_def US_HOUR_def US_MINUTE_def)
  have g: "grid_times MKT_OPEN MKT_CLOSE 60 = map (\<lambda>h. mk_time h 0) [10, 11, 12, 13, 14, 15, 16, 17, 18]"
    by (simp add: grid_times_def MKT_OPEN_def MKT_CLOSE_def mk_time_def US_HOUR_def
        US_MINUTE_def upt_rec)
  have r: "get_full_list_of_daily_bar_times 739923 MKT_OPEN MKT_CLOSE 60 False
       = Some (Inr (map (\<lambda>h. mk_time h 0) [10, 11, 12, 13, 15, 16, 17, 18]))"
    using bar_times_returns[OF d(1) h(1,2), of 60 False] d(2)
    by (simp add: g in_clearing_break_def mk_time_def US_HOUR_def US_MINUTE_def)
  show ?thesis
    using bar_times_start_and_end[OF h, of 739923 False] h d r
    by (simp add: list_all_iff)
qed

theorem bar_times_start_and_end_counterexample:
  "valid_time (mk_time 14 0) \<and> mk_time 14 0 \<le> mk_time 15 0 \<and> (0::int) < 30
   \<and> get_full_list_of_daily_bar_times 739923 (mk_time 14 0) (mk_time 15 0) 30 False
       = Some (Inr [mk_time 14 30])
   \<and> hd [mk_time 14 30] \<noteq> mk_time 14 0
   \<and> get_full_list_of_daily_bar_times 739923 (mk_time 14 0) (mk_time 14 0) 30 True
       = Some (Inr [])"
proof -
  have h: "valid_time (mk_time 14 0)" "mk_time 14 0 \<le> mk_time 15 0" "(1::int) \<le> 30"
      "valid_date 739923" "mk_time 15 0 \<le> US_DAY - 30 * US_MINUTE"
      "mk_time 14 0 \<le> US_DAY - 30 * US_MINUTE"
    by (simp_all add: valid_time_def valid_date_def MAX_ORDINAL_def mk_time_def US_DAY_def
        US_HOUR_def US_MINUTE_def)
  have g: "grid_times (mk_time 14 0) (mk_time 15 0) 30 = [mk_time 14 0, mk_time 14 30]"
     "grid_times (mk_time 14 0) (mk_time 14 0) 30 = []"
    by (simp_all add: grid_times_def mk_time_def US_HOUR_def US_MINUTE_def upt_rec)
  have f: "in_clearing_break (mk_time 14 0)" "\<not> in_clearing_break (mk_time 14 30)"
      "hd [mk_time 14 30] \<noteq> mk_time 14 0"
    by code_simp+
  show ?thesis
    using bar_times_returns[OF h(4) h(1,2,3,5), of False]
      bar_times_returns[OF h(4) h(1) order_refl h(3) h(6), of True] h(1,2) f(3)
    by (simp add: g f(1,2))
qed

text \<open>
  Claim C2, as amended. For the session bounds 10:00 and 18:40 and a 5-minute period, the
  grid with the settlement-break exclusion enabled is the every-5-minutes sequence
  without its single member 14:00, and the grid with the exclusion disabled is the whole
  every-5-minutes sequence: it holds 14:00 and none of 14:01, 14:02, 14:03, 14:04.
\<close>
theorem five_minute_grid:
  assumes "valid_date today"
  shows "get_full_list_of_daily_bar_times today MKT_OPEN MKT_CLOSE 5 False
           = Some (Inr (filter (\<lambda>t. t \<noteq> mk_time 14 0) every_five_minutes))
       \<and> get_full_list_of_daily_bar_times today MKT_OPEN MKT_CLOSE 5 True
           = Some (Inr every_five_minutes)
       \<and> mk_time 14 0 \<in> set every_five_minutes
       \<and> (\<forall>m\<in>{1, 2, 3, 4}. mk_time 14 m \<notin> set every_five_minutes)"
proof -
  have b: "(1::int) \<le> 5" "MKT_CLOSE \<le> US_DAY - 5 * US_MINUTE"
    using session_bounds(3)[of 5] by simp_all
  have m: "\<forall>m\<in>{1, 2, 3, 4}. mk_time 14 m \<notin> set every_five_minutes"
    by code_simp
  show ?thesis
    using bar_times_returns[OF assms session_bounds(1,2) b, of False]
      bar_times_returns[OF assms session_bounds(1,2) b, of True] m
    by (simp add: grid_5 break_5 mem_5)
qed

theorem five_minute_grid_witness:
  "valid_date 739923
   \<and> get_full_list_of_daily_bar_times 739923 MKT_OPEN MKT_CLOSE 5 False
           = Some (Inr (filter (\<lambda>t. t \<noteq> mk_time 14 0) every_five_minutes))
   \<and> get_full_list_of_daily_bar_times 739923 MKT_OPEN MKT_CLOSE 5 True
           = Some (Inr every_five_minutes)"
proof -
  have h: "valid_date 739923" by (simp add: valid_date_def MAX_ORDINAL_def)
  show ?thesis using five_minute_grid[OF h] h by simp
qed

theorem five_minute_grid_counterexample:
  "get_full_list_of_daily_bar_times 739923 MKT_OPEN MKT_CLOSE 5 True
           = Some (Inr every_five_minutes)
   \<and> mk_time 14 1 \<notin> set every_five_minutes"
proof -
  have h: "valid_date 739923" by (simp add: valid_date_def MAX_ORDINAL_def)
  have b: "(1::int) \<le> 5" "MKT_CLOSE \<le> US_DAY - 5 * US_MINUTE"
    using session_bounds(3)[of 5] by simp_all
  show ?thesis
    using bar_times_returns[OF h session_bounds(1,2) b, of True]
    by (simp add: grid_5 mem_5)
qed



section \<open>Properties of the gap detector\<close>

lemma hd_sorted_Min: "sorted xs \<Longrightarrow> xs \<noteq> [] \<Longrightarrow> hd xs = Min (set xs)"
  by (cases xs) (auto intro!: Min_eqI[symmetric])

lemma last_sorted_Max: "sorted xs \<Longrightarrow> xs \<noteq> [] \<Longrightarrow> last xs = Max (set xs)"
proof (induction xs)
  case (Cons x xs)
  show ?case
  proof (cases "xs = []")
    case False
    then have "last (x # xs) = Max (set xs)" using Cons by simp
    moreover have "x \<le> Max (set xs)"
      using Cons.prems False by (cases xs) (auto simp: Max_ge_iff)
    then have "Max (set (x # xs)) = Max (set xs)"
      using False by (simp add: max_absorb2)
    ultimately show ?thesis by simp
  qed simp
qed simp

lemma hd_sorted_list_of_set: "finite A \<Longrightarrow> A \<noteq> {} \<Longrightarrow> hd (sorted_list_of_set A) = Min A"
  using hd_sorted_Min[of "sorted_list_of_set A"] by simp

lemma last_sorted_list_of_set: "finite A \<Longrightarrow> A \<noteq> {} \<Longrightarrow> last (sorted_list_of_set A) = Max A"
  using last_sorted_Max[of "sorted_list_of_set A"] by simp

lemma day_check_eq:
  "day_check (set full) (rows df) d =
     (if set full - observed df d = {} \<and> observed df d - set full = {} then None
      else Some (expected_warning (set full) (observed df d) d))"
proof -
  have f: "finite (set full - observed df d)" "finite (observed df d - set full)"
    by (simp_all add: observed_def)
  have e: "set (map (\<lambda>r. time_of (ts r)) (filter (\<lambda>r. date_of (ts r) = d) (rows df)))
             = observed df d"
    by (simp add: observed_def)
  show ?thesis
    unfolding day_check_def e Let_def using f
    by (simp add: expected_warning_def hd_sorted_list_of_set last_sorted_list_of_set)
qed

lemma map_filter_day_check:
  "List.map_filter (day_check (set full) (rows df)) ds =
     map (\<lambda>d. expected_warning (set full) (observed df d) d)
       (filter (\<lambda>d. set full - observed df d \<noteq> {} \<or> observed df d - set full \<noteq> {}) ds)"
  by (induction ds) (auto simp: day_check_eq List.map_filter_simps)



lemma example_prepare:
  "prepare example_lib example_args example_raw = Inr (IntV 60, example_prepared)"
  by code_simp

lemma example_select: "select_rows example_args example_prepared = example_clean"
  by code_simp

lemma example_check:
  "intraday_data_check 739923 False example_clean 60 = Some (Inr example_report)"
  by code_simp

lemma example_gap_check:
  "intraday_data_check 739923 False example_gap 60 = Some (Inr example_gap_report)"
  by code_simp

lemma example_run:
  "process_dataframe example_lib example_env example_args example_raw
     = Some (Inr (example_clean, Some example_report))"
proof -
  have k: "KNOWN_PERIODS_get (IntV 60) = Some 60" by code_simp
  have a: "interactive example_args = False" "env_today example_env = 739923"
    "stock example_args = False"
    by (simp_all add: example_args_def example_env_def)
  show ?thesis
    unfolding process_dataframe_def example_prepare
    by (simp add: example_select k a example_check)
qed

lemma KNOWN_PERIODS_get_Some:
  "KNOWN_PERIODS_get period = Some p \<longleftrightarrow> p \<in> set known_minutes \<and> dict_key period = IntV p"
  by (auto simp: KNOWN_PERIODS_get_def KNOWN_PERIODS_def known_minutes_def
      split: option.splits if_splits)

lemma KNOWN_PERIODS_get_None:
  "KNOWN_PERIODS_get period = None \<longleftrightarrow> dict_key period \<notin> IntV ` set known_minutes"
  by (auto simp: KNOWN_PERIODS_get_def KNOWN_PERIODS_def known_minutes_def
      split: option.splits if_splits)

section \<open>Properties of the cleaning pipeline\<close>

lemma set_drop_duplicates: "set (drop_duplicates key xs) \<subseteq> set xs"
  by (induction key xs rule: drop_duplicates.induct) auto

lemma key_set_drop_duplicates: "key ` set (drop_duplicates key xs) = key ` set xs"
proof (induction key xs rule: drop_duplicates.induct)
  case (2 key x xs)
  have "key ` set (x # xs) = insert (key x) (key ` set (filter (\<lambda>y. key y \<noteq> key x) xs))"
    by auto
  then show ?case using 2 by simp
qed simp

lemma distinct_drop_duplicates: "distinct (map key (drop_duplicates key xs))"
proof (induction key xs rule: drop_duplicates.induct)
  case (2 key x xs)
  have "key x \<notin> key ` set (drop_duplicates key (filter (\<lambda>y. key y \<noteq> key x) xs))"
    unfolding key_set_drop_duplicates by auto
  then show ?case using 2 by simp
qed simp

lemma drop_duplicates_distinct: "distinct (map key xs) \<Longrightarrow> drop_duplicates key xs = xs"
proof (induction xs)
  case (Cons x xs)
  from Cons.prems have "key x \<notin> key ` set xs" by simp
  then have "\<forall>y\<in>set xs. key y \<noteq> key x" by (metis imageI)
  then have "filter (\<lambda>y. key y \<noteq> key x) xs = xs"
    by (simp add: filter_id_conv)
  then show ?case using Cons by simp
qed simp

lemma find_filter_other:
  "\<not> P x \<Longrightarrow> find P xs = find P (filter (\<lambda>y. y \<noteq> x) xs)"
  by (induction xs) auto

lemma drop_duplicates_first:
  "r \<in> set (drop_duplicates key xs) \<Longrightarrow> find (\<lambda>x. key x = key r) xs = Some r"
proof (induction key xs rule: drop_duplicates.induct)
  case (2 key x xs)
  show ?case
  proof (cases "key x = key r")
    case True
    have "key r \<notin> key ` set (drop_duplicates key (filter (\<lambda>y. key y \<noteq> key x) xs))"
      unfolding key_set_drop_duplicates using True by auto
    then have "r = x" using 2(2) by auto
    then show ?thesis by simp
  next
    case False
    then have r: "r \<in> set (drop_duplicates key (filter (\<lambda>y. key y \<noteq> key x) xs))"
      using 2(2) by auto
    have "find (\<lambda>y. key y = key r) (filter (\<lambda>y. key y \<noteq> key x) xs)
            = find (\<lambda>y. key y = key r) xs"
      using False by (induction xs) auto
    then show ?thesis using 2(1)[OF r] False by simp
  qed
qed simp

lemma select_rows_rows:
  "rows (select_rows a df) = sort_key ts (drop_duplicates ts (filter (retained a) (rows df)))"
proof -
  have f: "rows (drop_extended_hours a (restrict_dates a df)) = filter (retained a) (rows df)"
    by (auto simp: drop_extended_hours_def restrict_dates_def filter_rows_def Let_def
        retained_def in_date_range_def in_session_def split: option.splits
        intro: filter_cong)
  show ?thesis
    by (simp add: select_rows_def sort_values_def drop_datetime_duplicates_def f
        drop_duplicates_distinct)
qed

lemma select_rows_columns: "columns (select_rows a df) = columns df"
  by (simp add: select_rows_def sort_values_def drop_datetime_duplicates_def
      drop_extended_hours_def restrict_dates_def filter_rows_def Let_def split: option.splits)

lemma strictly_increasing_select: "sorted_wrt (<) (map ts (rows (select_rows a df)))"
proof -
  let ?xs = "drop_duplicates ts (filter (retained a) (rows df))"
  have "mset (map ts (sort_key ts ?xs)) = mset (map ts ?xs)" by simp
  then have "distinct (map ts (sort_key ts ?xs))"
    using distinct_drop_duplicates[of ts "filter (retained a) (rows df)"]
    by (metis mset_eq_imp_distinct_iff)
  moreover have "sorted (map ts (sort_key ts ?xs))" by (rule sorted_sort_key)
  ultimately show ?thesis
    by (simp add: select_rows_rows strict_sorted_iff)
qed


lemma map_err_map: "map_err f (map g xs) = map_err (\<lambda>x. f (g x)) xs"
  by (induction xs) (auto split: sum.splits)

lemma map_err_Inr: "map_err (\<lambda>x. Inr (g x)) xs = Inr (map g xs)"
  by (induction xs) auto

lemma map_err_bind:
  "map_err f xs = Inr ys \<Longrightarrow> map_err (\<lambda>x. bind_err (f x) g) xs = map_err g ys"
  by (induction xs arbitrary: ys) (auto simp: bind_err_def split: sum.splits)

lemma map_err_length: "map_err f xs = Inr ys \<Longrightarrow> length ys = length xs"
  by (induction xs arbitrary: ys) (auto split: sum.splits)

lemma map_err_all2: "map_err f xs = Inr ys \<Longrightarrow> list_all2 (\<lambda>x y. f x = Inr y) xs ys"
  by (induction xs arbitrary: ys) (auto split: sum.splits)

lemma col_names_update: "k \<in> set (map fst al) \<Longrightarrow> map fst (AList.update k v al) = map fst al"
  by (induction al) auto

lemma prepare_rows:
  assumes "prepare l a df0 = Inr (period, df1)"
  shows "map_err (prepare_row l a (columns df0)) (rows df0) = Inr (rows df1)"
proof -
  define df where "df = rename_columns df0"
  from assms obtain dfa dfb dfc where
    t: "clean_tickers df = Inr dfa" and d: "create_datetime l dfa = Inr dfb"
    and v: "cast_vol l dfb = Inr dfc" and e: "df1 = drop_date_time a dfc"
    by (auto simp: prepare_def Let_def bind_err_def df_def split: sum.splits)
  define cols' where "cols' = map (\<lambda>(n, t). (norm_column_name n, t)) (columns df0)"
  have c0: "columns df = cols'" "rows df = map (map (\<lambda>(n, v). (norm_column_name n, v))) (rows df0)"
    by (simp_all add: df_def rename_columns_def cols'_def)
  have tk: "''ticker'' \<in> set (map fst cols')"
    and ta: "map_err clean_ticker_row (rows df) = Inr (rows dfa)"
    and ca: "columns dfa = AList.update ''ticker'' ObjectDtype cols'"
    using t c0
    by (auto simp: clean_tickers_def col_names_def bind_err_def split: if_splits sum.splits)
  have na: "map fst (columns dfa) = map fst cols'"
    using tk by (simp add: ca col_names_update)
  define both where "both = ({''date'', ''time''} \<subseteq> set (map fst cols'))"
  define dstep :: "row \<Rightarrow> error + row" where "dstep = (\<lambda>r. if both then make_datetime_row l r
                   else if ''datetime'' \<in> set (map fst cols') then convert_datetime_row l r
                   else Inl NoTemporalColumns)"
  have dcb: "map_err dstep (rows dfa) = Inr (rows dfb)
      \<and> columns dfb = AList.update ''datetime'' DatetimeDtype (columns dfa)"
  proof (cases both)
    case True
    then have "dstep = make_datetime_row l" by (simp add: dstep_def)
    then show ?thesis
      using d True unfolding create_datetime_def col_names_def na both_def[symmetric]
      by (auto simp: bind_err_def split: sum.splits)
  next
    case False
    show ?thesis
    proof (cases "''datetime'' \<in> set (map fst cols')")
      case True
      then have "dstep = convert_datetime_row l" using False by (simp add: dstep_def)
      then show ?thesis
        using d True False unfolding create_datetime_def col_names_def na both_def[symmetric]
        by (auto simp: bind_err_def split: sum.splits)
    next
      case nd: False
      then show ?thesis
        using d False unfolding create_datetime_def col_names_def na both_def[symmetric]
        by simp
    qed
  qed
  then have db: "map_err dstep (rows dfa) = Inr (rows dfb)"
    and cb: "columns dfb = AList.update ''datetime'' DatetimeDtype (columns dfa)"
    by simp_all
  have mv: "map_of (columns dfb) ''vol'' = map_of cols' ''vol''"
    by (simp add: cb ca update_conv')
  define vstep :: "row \<Rightarrow> error + row" where "vstep = (\<lambda>r. case map_of cols' ''vol'' of
                     None \<Rightarrow> Inr r
                   | Some t \<Rightarrow> if \<not> is_integer_dtype t then cast_vol_row l r else Inr r)"
  have vc: "map_err vstep (rows dfb) = Inr (rows dfc)"
    using v mv
    by (auto simp: cast_vol_def bind_err_def vstep_def map_err_Inr split: option.splits sum.splits if_splits)
  have ka: "fst ` set (columns dfa) = fst ` set cols'"
    using arg_cong[OF na, of set] by simp
  have kb: "fst ` set (columns dfb) = insert ''datetime'' (fst ` set cols')"
    by (simp add: cb dom_update ka)
  have kc: "fst ` set (columns dfc) = fst ` set (columns dfb)"
  proof (cases "map_of (columns dfb) ''vol''")
    case None
    then show ?thesis using v by (simp add: cast_vol_def)
  next
    case (Some t)
    then have "''vol'' \<in> fst ` set (columns dfb)"
      by (metis domI dom_map_of_conv_image_fst)
    then have "fst ` set (AList.update ''vol'' (IntDtype 64) (columns dfb))
                 = fst ` set (columns dfb)"
      by (auto simp: dom_update)
    moreover have "columns dfc = columns dfb
        \<or> columns dfc = AList.update ''vol'' (IntDtype 64) (columns dfb)"
      using v Some
      by (auto simp: cast_vol_def bind_err_def split: sum.splits if_splits)
    ultimately show ?thesis by metis
  qed
  have bc: "{''date'', ''time''} \<subseteq> set (col_names dfc) \<longleftrightarrow> both"
    by (simp add: col_names_def kc kb both_def)
  define estep :: "row \<Rightarrow> row" where "estep = (\<lambda>r. if \<not> keep_date_time a \<and> both
              then filter (\<lambda>(n, _). n \<notin> set [''date'', ''time'']) r else r)"
  have ec: "rows df1 = map estep (rows dfc)"
  proof (cases "\<not> keep_date_time a \<and> both")
    case True
    then show ?thesis
      unfolding e drop_date_time_def bc estep_def by (simp add: drop_columns_def)
  next
    case False
    then have "estep = (\<lambda>r. r)" by (auto simp: estep_def)
    then show ?thesis
      using False unfolding e drop_date_time_def bc by auto
  qed
  have "prepare_row l a (columns df0) = (\<lambda>r0.
          bind_err (clean_ticker_row (map (\<lambda>(n, v). (norm_column_name n, v)) r0)) (\<lambda>r.
          bind_err (dstep r) (\<lambda>r. bind_err (vstep r) (\<lambda>r. Inr (estep r)))))"
    unfolding prepare_row_def Let_def cols'_def[symmetric] both_def[symmetric] dstep_def
        vstep_def estep_def ..
  then have "map_err (prepare_row l a (columns df0)) (rows df0)
       = map_err (\<lambda>r. bind_err (clean_ticker_row r) (\<lambda>r.
          bind_err (dstep r) (\<lambda>r. bind_err (vstep r) (\<lambda>r. Inr (estep r))))) (rows df)"
    by (simp add: c0 map_err_map)
  also have "\<dots> = map_err (\<lambda>r. bind_err (dstep r) (\<lambda>r. bind_err (vstep r) (\<lambda>r. Inr (estep r)))) (rows dfa)"
    by (rule map_err_bind[OF ta])
  also have "\<dots> = map_err (\<lambda>r. bind_err (vstep r) (\<lambda>r. Inr (estep r))) (rows dfb)"
    by (rule map_err_bind[OF db])
  also have "\<dots> = map_err (\<lambda>r. Inr (estep r)) (rows dfc)"
    by (rule map_err_bind[OF vc])
  also have "\<dots> = Inr (rows df1)"
    by (simp add: map_err_Inr ec)
  finally show ?thesis .
qed


lemma process_dataframe_Inr:
  assumes "process_dataframe l ev a df0 = Some (Inr (out, rep))"
  obtains period df1 where "prepare l a df0 = Inr (period, df1)" "out = select_rows a df1"
proof -
  from assms obtain period df1 where p: "prepare l a df0 = Inr (period, df1)"
    by (cases "prepare l a df0") (auto simp: process_dataframe_def)
  have "out = select_rows a df1"
    using assms unfolding process_dataframe_def p Let_def
    by (simp split: if_splits option.splits sum.splits)
  with p that show thesis by blast
qed

lemma retained_ts: "ts x = ts r \<Longrightarrow> retained a x = retained a r"
  by (simp add: retained_def in_date_range_def in_session_def split: option.splits)

lemma find_filter_implied: "(\<And>x. P x \<Longrightarrow> Q x) \<Longrightarrow> find P (filter Q xs) = find P xs"
  by (induction xs) auto

lemma select_rows_first:
  assumes "r \<in> set (rows (select_rows a df))"
  shows "find (\<lambda>x. ts x = ts r) (rows df) = Some r" and "retained a r"
proof -
  have r: "r \<in> set (drop_duplicates ts (filter (retained a) (rows df)))"
    using assms by (simp add: select_rows_rows)
  then show k: "retained a r" using set_drop_duplicates[of ts "filter (retained a) (rows df)"] by auto
  have "find (\<lambda>x. ts x = ts r) (filter (retained a) (rows df)) = Some r"
    by (rule drop_duplicates_first[OF r])
  moreover have "find (\<lambda>x. ts x = ts r) (filter (retained a) (rows df))
                   = find (\<lambda>x. ts x = ts r) (rows df)"
    by (rule find_filter_implied) (use k retained_ts in blast)
  ultimately show "find (\<lambda>x. ts x = ts r) (rows df) = Some r" by simp
qed

lemma select_rows_ts:
  "ts ` set (rows (select_rows a df)) = ts ` {r \<in> set (rows df). retained a r}"
  by (simp add: select_rows_rows key_set_drop_duplicates)

text \<open>
  Claim C5. When the cleaning pipeline succeeds, the timestamps of the output are strictly
  increasing. The output holds exactly the timestamps of the prepared rows (the input
  rows, in input order, with their timestamps built) that lie in the configured date
  range and, unless extended hours are kept, in the session window; and each output row
  is the first prepared row, in input order, that carries its timestamp.
\<close>
theorem cleaned_strictly_increasing:
  assumes "process_dataframe l ev a df0 = Some (Inr (out, rep))"
  shows "sorted_wrt (<) (map ts (rows out))
       \<and> (\<exists>period df1. prepare l a df0 = Inr (period, df1)
            \<and> map_err (prepare_row l a (columns df0)) (rows df0) = Inr (rows df1)
            \<and> ts ` set (rows out) = ts ` {r \<in> set (rows df1). retained a r}
            \<and> (\<forall>r\<in>set (rows out). find (\<lambda>x. ts x = ts r) (rows df1) = Some r))"
proof -
  from assms obtain period df1 where
    p: "prepare l a df0 = Inr (period, df1)" and o: "out = select_rows a df1"
    by (rule process_dataframe_Inr)
  have f: "\<forall>r\<in>set (rows out). find (\<lambda>x. ts x = ts r) (rows df1) = Some r"
    unfolding o using select_rows_first(1) by blast
  have s: "sorted_wrt (<) (map ts (rows out))"
    unfolding o by (rule strictly_increasing_select)
  have t: "ts ` set (rows out) = ts ` {r \<in> set (rows df1). retained a r}"
    unfolding o by (rule select_rows_ts)
  from s p prepare_rows[OF p] t f show ?thesis by blast
qed

theorem cleaned_strictly_increasing_witness:
  "process_dataframe example_lib example_env example_args example_raw
     = Some (Inr (example_clean, Some example_report))
   \<and> sorted_wrt (<) (map ts (rows example_clean))
   \<and> (\<exists>period df1. prepare example_lib example_args example_raw = Inr (period, df1)
        \<and> map_err (prepare_row example_lib example_args (columns example_raw))
              (rows example_raw) = Inr (rows df1)
        \<and> ts ` set (rows example_clean) = ts ` {r \<in> set (rows df1). retained example_args r}
        \<and> (\<forall>r\<in>set (rows example_clean). find (\<lambda>x. ts x = ts r) (rows df1) = Some r))
   \<and> rows example_prepared
       = [clean_row 11 101 5, clean_row 10 100 7, clean_row 10 99 8, clean_row 9 98 1]
   \<and> rows example_clean = [clean_row 10 100 7, clean_row 11 101 5]"
proof -
  note t = cleaned_strictly_increasing[OF example_run]
  have r: "rows example_prepared
       = [clean_row 11 101 5, clean_row 10 100 7, clean_row 10 99 8, clean_row 9 98 1]"
    "rows example_clean = [clean_row 10 100 7, clean_row 11 101 5]"
    by (simp_all add: example_prepared_def example_clean_def)
  show ?thesis
    by (intro conjI) (rule example_run, rule conjunct1[OF t], rule conjunct2[OF t], rule r, rule r)
qed

text \<open>
  Claim C6. When the cleaning pipeline succeeds with the extended-hours option unset, every
  output row has its time of day in the session window from 10:00 up to but excluding
  18:40, and no timestamp of a prepared row outside the window appears in the output;
  with the option set, the output is computed from the date range alone, so that every
  prepared row within the date range has its timestamp in the output whatever its time
  of day.
\<close>
theorem session_window:
  assumes "process_dataframe l ev a df0 = Some (Inr (out, rep))"
  shows "\<exists>period df1. prepare l a df0 = Inr (period, df1)
            \<and> map_err (prepare_row l a (columns df0)) (rows df0) = Inr (rows df1)
            \<and> (\<not> extended_hours a \<longrightarrow>
                  (\<forall>r\<in>set (rows out). in_session r)
                  \<and> (\<forall>r\<in>set (rows df1). \<not> in_session r \<longrightarrow> ts r \<notin> ts ` set (rows out))
                  \<and> rows out = sort_key ts (drop_duplicates ts
                       (filter (\<lambda>r. in_date_range a r \<and> in_session r) (rows df1))))
            \<and> (extended_hours a \<longrightarrow>
                  rows out = sort_key ts (drop_duplicates ts
                       (filter (in_date_range a) (rows df1)))
                  \<and> (\<forall>r\<in>set (rows df1). in_date_range a r \<longrightarrow> ts r \<in> ts ` set (rows out)))"
proof -
  from assms obtain period df1 where
    p: "prepare l a df0 = Inr (period, df1)" and o: "out = select_rows a df1"
    by (rule process_dataframe_Inr)
  have e: "extended_hours a \<Longrightarrow> retained a = in_date_range a"
    and n: "\<not> extended_hours a \<Longrightarrow> retained a = (\<lambda>r. in_date_range a r \<and> in_session r)"
    by (auto simp: retained_def)
  have 1: "\<not> extended_hours a \<Longrightarrow> \<forall>r\<in>set (rows out). in_session r"
    unfolding o using select_rows_first(2) retained_def by blast
  have 2: "\<not> extended_hours a \<Longrightarrow> \<forall>r\<in>set (rows df1). \<not> in_session r \<longrightarrow> ts r \<notin> ts ` set (rows out)"
  proof (intro ballI impI notI)
    fix r assume x: "\<not> extended_hours a" "r \<in> set (rows df1)" "\<not> in_session r"
      "ts r \<in> ts ` set (rows out)"
    then obtain r' where "r' \<in> set (rows out)" "ts r' = ts r" by auto
    then have "in_session r'" using 1 x(1) by blast
    then show False using x(3) \<open>ts r' = ts r\<close> by (simp add: in_session_def)
  qed
  have 3: "extended_hours a \<Longrightarrow> \<forall>r\<in>set (rows df1). in_date_range a r \<longrightarrow> ts r \<in> ts ` set (rows out)"
    unfolding o select_rows_ts by (simp add: e)
  have 4: "\<not> extended_hours a \<Longrightarrow> rows out = sort_key ts (drop_duplicates ts
                       (filter (\<lambda>r. in_date_range a r \<and> in_session r) (rows df1)))"
    by (simp add: o select_rows_rows n)
  have 5: "extended_hours a \<Longrightarrow> rows out = sort_key ts (drop_duplicates ts
                       (filter (in_date_range a) (rows df1)))"
    by (simp add: o select_rows_rows e)
  from p prepare_rows[OF p] 1 2 3 4 5 show ?thesis by blast
qed


lemma example_extended_run:
  "process_dataframe example_lib example_env example_args_ext example_raw
     = Some (Inr (example_extended, Some example_extended_report))"
proof -
  have p: "prepare example_lib example_args_ext example_raw = Inr (IntV 60, example_prepared)"
    using example_prepare
    by (simp add: prepare_def drop_date_time_def example_args_ext_def example_args_def)
  have s: "select_rows example_args_ext example_prepared = example_extended"
    by code_simp
  have c: "intraday_data_check 739923 False example_extended 60
             = Some (Inr example_extended_report)"
    by code_simp
  have k: "KNOWN_PERIODS_get (IntV 60) = Some 60" by code_simp
  have a: "interactive example_args_ext = False" "env_today example_env = 739923"
    "stock example_args_ext = False"
    by (simp_all add: example_args_ext_def example_args_def example_env_def)
  show ?thesis
    unfolding process_dataframe_def p
    by (simp add: s k a c)
qed

theorem session_window_witness:
  "process_dataframe example_lib example_env example_args example_raw
     = Some (Inr (example_clean, Some example_report))
   \<and> \<not> extended_hours example_args
   \<and> (\<exists>period df1. prepare example_lib example_args example_raw = Inr (period, df1)
        \<and> map_err (prepare_row example_lib example_args (columns example_raw))
              (rows example_raw) = Inr (rows df1)
        \<and> (\<not> extended_hours example_args \<longrightarrow>
              (\<forall>r\<in>set (rows example_clean). in_session r)
              \<and> (\<forall>r\<in>set (rows df1). \<not> in_session r \<longrightarrow> ts r \<notin> ts ` set (rows example_clean))
              \<and> rows example_clean = sort_key ts (drop_duplicates ts
                   (filter (\<lambda>r. in_date_range example_args r \<and> in_session r) (rows df1))))
        \<and> (extended_hours example_args \<longrightarrow>
              rows example_clean = sort_key ts (drop_duplicates ts
                   (filter (in_date_range example_args) (rows df1)))
              \<and> (\<forall>r\<in>set (rows df1). in_date_range example_args r
                    \<longrightarrow> ts r \<in> ts ` set (rows example_clean))))
   \<and> process_dataframe example_lib example_env example_args_ext example_raw
       = Some (Inr (example_extended, Some example_extended_report))
   \<and> extended_hours example_args_ext
   \<and> (\<exists>period df1. prepare example_lib example_args_ext example_raw = Inr (period, df1)
        \<and> map_err (prepare_row example_lib example_args_ext (columns example_raw))
              (rows example_raw) = Inr (rows df1)
        \<and> (\<not> extended_hours example_args_ext \<longrightarrow>
              (\<forall>r\<in>set (rows example_extended). in_session r)
              \<and> (\<forall>r\<in>set (rows df1). \<not> in_session r
                    \<longrightarrow> ts r \<notin> ts ` set (rows example_extended))
              \<and> rows example_extended = sort_key ts (drop_duplicates ts
                   (filter (\<lambda>r. in_date_range example_args_ext r \<and> in_session r) (rows df1))))
        \<and> (extended_hours example_args_ext \<longrightarrow>
              rows example_extended = sort_key ts (drop_duplicates ts
                   (filter (in_date_range example_args_ext) (rows df1)))
              \<and> (\<forall>r\<in>set (rows df1). in_date_range example_args_ext r
                    \<longrightarrow> ts r \<in> ts ` set (rows example_extended))))
   \<and> \<not> in_session (clean_row 9 98 1)
   \<and> clean_row 9 98 1 \<in> set (rows example_prepared)
   \<and> clean_row 9 98 1 \<notin> set (rows example_clean)
   \<and> clean_row 9 98 1 \<in> set (rows example_extended)"
proof -
  have e: "\<not> extended_hours example_args" "extended_hours example_args_ext"
    by (simp_all add: example_args_ext_def example_args_def)
  have r: "\<not> in_session (clean_row 9 98 1)" "clean_row 9 98 1 \<in> set (rows example_prepared)"
    "clean_row 9 98 1 \<notin> set (rows example_clean)"
    "clean_row 9 98 1 \<in> set (rows example_extended)"
    by code_simp+
  show ?thesis
    by (intro conjI)
       (rule example_run, rule e, rule session_window[OF example_run],
        rule example_extended_run, rule e, rule session_window[OF example_extended_run],
        (rule r)+)
qed


section \<open>Properties of the merge\<close>

lemma wrap_int64_id: "- (2 ^ 63) \<le> x \<Longrightarrow> x < 2 ^ 63 \<Longrightarrow> wrap_int64 x = x"
  by (simp add: wrap_int64_def)

lemma to_float64_id: "\<bar>x\<bar> < 2 ^ 53 \<Longrightarrow> to_float64 x = x"
proof -
  assume a: "\<bar>x\<bar> < 2 ^ 53"
  have "bitlen \<bar>x\<bar> \<le> 53"
  proof (cases "0 < \<bar>x\<bar>")
    case True
    have "(2::int) ^ nat (bitlen \<bar>x\<bar> - 1) < 2 ^ 53"
      using bitlen_bounds[OF True] a by linarith
    then have "nat (bitlen \<bar>x\<bar> - 1) < 53"
      by (rule power_less_imp_less_exp[rotated]) simp
    then show ?thesis by linarith
  next
    case False
    then show ?thesis by simp
  qed
  then show ?thesis by (simp add: to_float64_def Let_def)
qed

lemma to_float64_nonneg: "0 \<le> to_float64 x \<longleftrightarrow> 0 \<le> x"
proof (cases "nat (bitlen \<bar>x\<bar> - 53) = 0")
  case True
  then show ?thesis by (simp add: to_float64_def Let_def)
next
  case False
  define e where "e = nat (bitlen \<bar>x\<bar> - 53)"
  have e: "0 < e" using False by (simp add: e_def)
  then have p: "0 < \<bar>x\<bar>" by (auto simp: e_def bitlen_alt_def split: if_splits)
  have "e \<le> nat (bitlen \<bar>x\<bar> - 1)" using e by (simp add: e_def)
  then have "(2::int) ^ e \<le> 2 ^ nat (bitlen \<bar>x\<bar> - 1)" by (simp add: power_increasing)
  then have "(2::int) ^ e \<le> \<bar>x\<bar>" using bitlen_bounds[OF p] by linarith
  then have q: "0 < \<bar>x\<bar> div 2 ^ e"
    by (simp add: pos_imp_zdiv_pos_iff)
  define q' where "q' = (if 2 ^ (e - 1) < \<bar>x\<bar> mod 2 ^ e
                            \<or> \<bar>x\<bar> mod 2 ^ e = 2 ^ (e - 1) \<and> odd (\<bar>x\<bar> div 2 ^ e)
                         then \<bar>x\<bar> div 2 ^ e + 1 else \<bar>x\<bar> div 2 ^ e)"
  have q0: "0 < q'" using q by (simp add: q'_def)
  then have m: "0 < q' * 2 ^ e" by simp
  have "to_float64 x = sgn x * (q' * 2 ^ e)"
    using False by (simp add: to_float64_def Let_def e_def q'_def)
  then show ?thesis using m p q0
    by (cases "0 \<le> x") (auto simp: sgn_if mult_less_0_iff not_le zero_le_mult_iff)
qed

lemma arith_sub_exact:
  assumes "k = Int64 \<or> k = Float64" and "\<bar>x\<bar> < 2 ^ 53" and "\<bar>y\<bar> < 2 ^ 53"
  shows "0 \<le> arith_sub k (wrap Int64 x) (wrap Int64 y) \<longleftrightarrow> 0 \<le> x - y"
proof -
  have w0: "wrap_int64 x = x" "wrap_int64 y = y"
    using assms(2,3) by (auto intro!: wrap_int64_id)
  then have w: "wrap Int64 x = x" "wrap Int64 y = y"
    by (simp_all add: wrap_def)
  from assms(1) show ?thesis
  proof
    assume "k = Int64"
    moreover have "wrap_int64 (x - y) = x - y"
      using assms(2,3) by (intro wrap_int64_id) auto
    ultimately show ?thesis by (simp add: arith_sub_def w0 wrap_def)
  next
    assume "k = Float64"
    then show ?thesis
      using assms(2,3) by (simp add: arith_sub_def w to_float64_id to_float64_nonneg)
  qed
qed

lemma daily_volumes_keys: "set (map fst (daily_volumes df)) = dates_of df"
  by (simp add: daily_volumes_def dates_of_def comp_def)

lemma daily_volumes_lookup:
  "map_of (daily_volumes df) d
     = (if d \<in> dates_of df then Some (wrap (sum_arith df) (day_total df d)) else None)"
proof -
  have "map_of (map (\<lambda>d. (d, f d)) ds) d = (if d \<in> set ds then Some (f d) else None)"
    for f :: "date \<Rightarrow> int" and ds
    by (induction ds) auto
  then show ?thesis
    by (simp add: daily_volumes_def dates_of_def day_total_def day_rows_def)
qed

lemma nonneg_index_map:
  "nonneg_index (map (\<lambda>d. (d, g d)) ds)
     = filter (\<lambda>d. case g d of Some z \<Rightarrow> 0 \<le> z | None \<Rightarrow> False) ds"
  by (induction ds) (auto simp: nonneg_index_def)

lemma df1_dates_eq:
  "(dates_of A - dates_of B)
      \<union> set (nonneg_index (series_sub (sub_arith (sum_arith A) (sum_arith B)
                                          (map fst (daily_volumes A) = map fst (daily_volumes B)))
                              (daily_volumes A) (daily_volumes B)))
   = first_dates A B"
proof -
  have k: "set (sort (remdups (map fst (daily_volumes A) @ map fst (daily_volumes B))))
             = dates_of A \<union> dates_of B"
    using daily_volumes_keys[of A] daily_volumes_keys[of B] by simp
  show ?thesis
    unfolding series_sub_def nonneg_index_map set_filter k first_dates_def
    by (auto simp: daily_volumes_lookup split: option.splits if_splits)
qed

lemma first_dates_subset: "first_dates A B \<subseteq> dates_of A"
  by (auto simp: first_dates_def)

lemma first_dates_only: "d \<in> dates_of A \<Longrightarrow> d \<notin> dates_of B \<Longrightarrow> d \<in> first_dates A B"
  by (auto simp: first_dates_def)

lemma restrict_dates_columns: "columns (restrict_dates a df) = columns df"
  by (simp add: restrict_dates_def filter_rows_def Let_def split: option.splits)

lemma sum_arith_int64: "int64_vol df \<Longrightarrow> sum_arith (restrict_dates a df) = Int64"
  by (simp add: sum_arith_def int64_vol_def restrict_dates_columns)

lemma first_dates_compare:
  assumes "sum_arith A = Int64" and "sum_arith B = Int64"
    and "d \<in> dates_of A" and "d \<in> dates_of B"
    and "\<bar>day_total A d\<bar> < 2 ^ 53" and "\<bar>day_total B d\<bar> < 2 ^ 53"
  shows "d \<in> first_dates A B \<longleftrightarrow> 0 \<le> day_total A d - day_total B d"
proof -
  have "sub_arith Int64 Int64 s = Int64 \<or> sub_arith Int64 Int64 s = Float64" for s
    by (simp add: sub_arith_def)
  from arith_sub_exact[OF this assms(5,6)] show ?thesis
    using assms(3,4) by (simp add: first_dates_def assms(1,2))
qed


lemma map_of_align:
  "map_of (align names r) k = (if k \<in> set names then map_of r k else None)"
  by (induction names) (auto simp: align_def List.map_filter_simps split: option.splits)

lemma ts_align: "''datetime'' \<in> set names \<Longrightarrow> ts (align names r) = ts r"
  by (simp add: ts_def map_of_align)

lemma align_keeps_cells:
  assumes "set (map fst r) \<subseteq> set names"
  shows "map_of (align names r) = map_of r"
proof
  fix k
  show "map_of (align names r) k = map_of r k"
  proof (cases "k \<in> set names")
    case True
    then show ?thesis by (simp add: map_of_align)
  next
    case False
    then have "k \<notin> fst ` set r" using assms by auto
    then have "map_of r k = None" by (simp add: map_of_eq_None_iff)
    then show ?thesis using False by (simp add: map_of_align)
  qed
qed

lemma align_id_aux:
  "distinct (map fst r) \<Longrightarrow> set r \<subseteq> set r' \<Longrightarrow> distinct (map fst r')
     \<Longrightarrow> align (map fst r) r' = r"
proof (induction r)
  case Nil
  then show ?case by (simp add: align_def List.map_filter_simps)
next
  case (Cons p r)
  obtain k v where p: "p = (k, v)" by (cases p)
  have "map_of r' k = Some v" using Cons.prems p by simp
  moreover have "align (map fst r) r' = r" using Cons by simp
  ultimately show ?case by (simp add: p align_def List.map_filter_simps)
qed

lemma align_id: "distinct (map fst r) \<Longrightarrow> align (map fst r) r = r"
  by (rule align_id_aux) simp_all

lemma select_dates_rows:
  "rows (select_dates ds df) = filter (\<lambda>r. date_of (ts r) \<in> ds) (rows df)"
  by (simp add: select_dates_def filter_rows_def)

lemma select_dates_columns:
  "columns (select_dates ds df) = (if rows df = [] then [] else columns df)"
  by (simp add: select_dates_def filter_rows_def)

lemma frame_info_Inr:
  "frame_info df = Inr u \<longleftrightarrow>
     ''datetime'' \<in> set (col_names df) \<and> map_of (columns df) ''datetime'' = Some DatetimeDtype
     \<and> ''ticker'' \<in> set (col_names df) \<and> rows df \<noteq> []"
  by (simp add: frame_info_def)

lemma bind_err_Inr: "bind_err m f = Inr y \<longleftrightarrow> (\<exists>x. m = Inr x \<and> f x = Inr y)"
  by (cases m) (simp_all add: bind_err_def)

lemma merge_data_unfold:
  "merge_data a df1 df2 =
     bind_err (frame_info df1) (\<lambda>_.
     bind_err (frame_info df2) (\<lambda>_.
       if ''vol'' \<notin> set (col_names df1) \<or> ''vol'' \<notin> set (col_names df2)
       then Inl (KeyError ''vol'')
       else (let A = restrict_dates a df1; B = restrict_dates a df2;
                 new_df = sort_values
                            (concat (select_dates (first_dates A B) A)
                                    (select_dates (dates_of B - first_dates A B) B))
             in bind_err (frame_info new_df) (\<lambda>_. Inr new_df))))"
proof -
  have c: "col_names (restrict_dates a df) = col_names df" for df
    by (simp add: col_names_def restrict_dates_columns)
  show ?thesis
    unfolding merge_data_def Let_def daily_volumes_keys df1_dates_eq c
    ..
qed

lemma merge_data_Inr:
  assumes "merge_data a df1 df2 = Inr out"
  defines "A \<equiv> restrict_dates a df1" and "B \<equiv> restrict_dates a df2"
  shows "frame_info df1 = Inr ()" and "frame_info df2 = Inr ()"
    and "columns out = (if rows A = [] then [] else columns df1)
           @ filter (\<lambda>(n, _). n \<notin> set (if rows A = [] then [] else col_names df1))
               (if rows B = [] then [] else columns df2)"
    and "rows out = sort_key ts
           (filter (\<lambda>r. date_of (ts r) \<in> first_dates A B) (rows A)
            @ map (align (col_names out))
                (filter (\<lambda>r. date_of (ts r) \<notin> first_dates A B) (rows B)))"
    and "''datetime'' \<in> set (col_names out)"
proof -
  define new_df where "new_df = sort_values
                            (concat (select_dates (first_dates A B) A)
                                    (select_dates (dates_of B - first_dates A B) B))"
  note m = merge_data_unfold[of a df1 df2, unfolded Let_def, folded A_def B_def,
      folded new_df_def]
  from assms(1) show 1: "frame_info df1 = Inr ()" and 2: "frame_info df2 = Inr ()"
    unfolding m by (auto simp: bind_err_Inr)
  from assms(1) have o: "out = new_df" and n: "frame_info new_df = Inr ()"
    unfolding m by (auto simp: bind_err_Inr split: if_splits)
  show c: "columns out = (if rows A = [] then [] else columns df1)
           @ filter (\<lambda>(n, _). n \<notin> set (if rows A = [] then [] else col_names df1))
               (if rows B = [] then [] else columns df2)"
    by (simp add: o new_df_def sort_values_def concat_def Let_def select_dates_columns
        A_def B_def restrict_dates_columns col_names_def)
  have f: "filter (\<lambda>r. date_of (ts r) \<in> dates_of B - first_dates A B) (rows B)
            = filter (\<lambda>r. date_of (ts r) \<notin> first_dates A B) (rows B)"
    by (rule filter_cong) (auto simp: dates_of_def)
  have "rows new_df = sort_key ts
           (filter (\<lambda>r. date_of (ts r) \<in> first_dates A B) (rows A)
            @ map (align (col_names new_df))
                (filter (\<lambda>r. date_of (ts r) \<in> dates_of B - first_dates A B) (rows B)))"
    by (simp add: new_df_def sort_values_def concat_def Let_def select_dates_rows col_names_def)
  then show "rows out = sort_key ts
           (filter (\<lambda>r. date_of (ts r) \<in> first_dates A B) (rows A)
            @ map (align (col_names out))
                (filter (\<lambda>r. date_of (ts r) \<notin> first_dates A B) (rows B)))"
    unfolding o f .
  show "''datetime'' \<in> set (col_names out)" using n by (simp add: o frame_info_Inr)
qed

lemma mset_filter_sort_key: "mset (filter P (sort_key f xs)) = mset (filter P xs)"
  by (simp only: mset_filter mset_sort)

lemma merge_day_rows:
  assumes "merge_data a df1 df2 = Inr out"
  shows "mset (day_rows out d) =
           (if d \<in> first_dates (restrict_dates a df1) (restrict_dates a df2)
            then mset (day_rows (restrict_dates a df1) d)
            else mset (map (align (col_names out)) (day_rows (restrict_dates a df2) d)))"
proof -
  define A where "A = restrict_dates a df1"
  define B where "B = restrict_dates a df2"
  define F where "F = first_dates A B"
  note dt = merge_data_Inr(5)[OF assms]
  have a: "filter (\<lambda>r. date_of (ts r) = d) (filter (\<lambda>r. date_of (ts r) \<in> F) (rows A))
           = (if d \<in> F then day_rows A d else [])"
    by (auto simp: day_rows_def filter_empty_conv intro: filter_cong)
  have "filter (\<lambda>r. date_of (ts r) = d)
          (map (align (col_names out)) (filter (\<lambda>r. date_of (ts r) \<notin> F) (rows B)))
        = map (align (col_names out))
            (filter (\<lambda>r. date_of (ts r) = d) (filter (\<lambda>r. date_of (ts r) \<notin> F) (rows B)))"
    by (simp add: filter_map comp_def ts_align[OF dt])
  also have "\<dots> = (if d \<in> F then [] else map (align (col_names out)) (day_rows B d))"
  proof -
    have "filter (\<lambda>r. date_of (ts r) = d) (filter (\<lambda>r. date_of (ts r) \<notin> F) (rows B))
          = (if d \<in> F then [] else day_rows B d)"
      by (auto simp: day_rows_def filter_empty_conv intro: filter_cong)
    then show ?thesis by simp
  qed
  finally have b: "filter (\<lambda>r. date_of (ts r) = d)
          (map (align (col_names out)) (filter (\<lambda>r. date_of (ts r) \<notin> F) (rows B)))
        = (if d \<in> F then [] else map (align (col_names out)) (day_rows B d))" .
  have "mset (day_rows out d) = mset (filter (\<lambda>r. date_of (ts r) = d)
           (filter (\<lambda>r. date_of (ts r) \<in> F) (rows A)
            @ map (align (col_names out)) (filter (\<lambda>r. date_of (ts r) \<notin> F) (rows B))))"
    unfolding day_rows_def merge_data_Inr(4)[OF assms] A_def B_def F_def
    by (rule mset_filter_sort_key)
  also have "\<dots> = (if d \<in> F then mset (day_rows A d)
                    else mset (map (align (col_names out)) (day_rows B d)))"
    unfolding filter_append a b by simp
  finally show ?thesis unfolding A_def B_def F_def .
qed

lemma day_rows_empty: "d \<notin> dates_of df \<Longrightarrow> day_rows df d = []"
  by (auto simp: day_rows_def dates_of_def filter_empty_conv)

lemma restrict_dates_rows: "set (rows (restrict_dates a df)) \<subseteq> set (rows df)"
  by (auto simp: restrict_dates_def filter_rows_def Let_def split: option.splits)

lemma out_columns_second:
  assumes "merge_data a df1 df2 = Inr out" and "rows (restrict_dates a df2) \<noteq> []"
  shows "set (col_names df2) \<subseteq> set (col_names out)"
proof -
  have "fst ` set ys \<subseteq> fst ` set xs \<union> fst ` {x \<in> set ys. fst x \<notin> fst ` set xs}"
    for xs ys :: "(string \<times> dtype) list"
    by force
  from this[of "columns df2"] show ?thesis
    using assms(2) unfolding col_names_def merge_data_Inr(3)[OF assms(1)]
    by (auto simp: col_names_def case_prod_beta)
qed

lemma out_columns_same:
  assumes "merge_data a df1 df2 = Inr out" and "rows (restrict_dates a df2) \<noteq> []"
    and "col_names df2 = col_names df1"
  shows "col_names out = col_names df2"
proof -
  have "\<forall>x\<in>set (columns df2). fst x \<in> set (col_names df1)"
    unfolding assms(3)[symmetric] by (simp add: col_names_def)
  then have "filter (\<lambda>(n, _). n \<notin> set (col_names df1)) (columns df2) = []"
    by (auto simp: filter_empty_conv)
  then show ?thesis
    using assms(2,3) unfolding col_names_def merge_data_Inr(3)[OF assms(1)]
    by (auto simp: col_names_def)
qed


lemma second_rows_keep_cells:
  assumes "merge_data a df1 df2 = Inr out"
    and "\<forall>r\<in>set (rows df2). set (map fst r) \<subseteq> set (col_names df2)"
  shows "list_all (\<lambda>r. map_of (align (col_names out) r) = map_of r)
           (day_rows (restrict_dates a df2) d)"
proof -
  have "map_of (align (col_names out) r) = map_of r"
    if "r \<in> set (day_rows (restrict_dates a df2) d)" for r
  proof -
    from that have r: "r \<in> set (rows (restrict_dates a df2))" by (simp add: day_rows_def)
    then have "rows (restrict_dates a df2) \<noteq> []" by auto
    from out_columns_second[OF assms(1) this] have "set (col_names df2) \<subseteq> set (col_names out)" .
    moreover have "set (map fst r) \<subseteq> set (col_names df2)"
      using r restrict_dates_rows[of a df2] assms(2) by blast
    ultimately show ?thesis by (intro align_keeps_cells) blast
  qed
  then show ?thesis by (simp add: list_all_iff)
qed

lemma second_rows_unchanged:
  assumes "merge_data a df1 df2 = Inr out"
    and "distinct (col_names df1)" and "col_names df2 = col_names df1"
    and "\<forall>r\<in>set (rows df2). map fst r = col_names df2"
  shows "map (align (col_names out)) (day_rows (restrict_dates a df2) d)
           = day_rows (restrict_dates a df2) d"
proof (rule map_idI)
  fix r assume "r \<in> set (day_rows (restrict_dates a df2) d)"
  then have r: "r \<in> set (rows (restrict_dates a df2))" by (simp add: day_rows_def)
  then have "rows (restrict_dates a df2) \<noteq> []" by auto
  from out_columns_same[OF assms(1) this assms(3)] have c: "col_names out = col_names df2" .
  have k: "map fst r = col_names df2"
    using r restrict_dates_rows[of a df2] assms(4) by blast
  then have "distinct (map fst r)" using assms(2,3) by simp
  then show "align (col_names out) r = r" unfolding c k[symmetric] by (rule align_id)
qed

text \<open>
  Claim C1, as amended. When the merge returns, for every calendar date and the two series
  as restricted to the configured date range: a date present in both, of two series with
  64-bit signed volumes and with both daily totals below \<open>2^53\<close> in magnitude, contributes
  exactly the rows of the first series when the first daily total minus the second is at
  least 0, and exactly the rows of the second series otherwise; a date present in one
  series only contributes exactly that series's rows; a date present in neither
  contributes none. Whatever the totals are, the rows of a date in the output all come
  from one source. The rows of the second series appear in the column order of the
  output: they keep every cell when they are keyed by columns of their frame, and are
  unchanged when the two frames have the same columns in the same order.
\<close>

theorem merge_selects_whole_days:
  assumes "merge_data a df1 df2 = Inr out"
  shows "(int64_vol df1 \<and> int64_vol df2
            \<and> d \<in> dates_of (restrict_dates a df1) \<and> d \<in> dates_of (restrict_dates a df2)
            \<and> \<bar>day_total (restrict_dates a df1) d\<bar> < 2 ^ 53
            \<and> \<bar>day_total (restrict_dates a df2) d\<bar> < 2 ^ 53
            \<and> 0 \<le> day_total (restrict_dates a df1) d - day_total (restrict_dates a df2) d
          \<longrightarrow> mset (day_rows out d) = mset (day_rows (restrict_dates a df1) d))
       \<and> (int64_vol df1 \<and> int64_vol df2
            \<and> d \<in> dates_of (restrict_dates a df1) \<and> d \<in> dates_of (restrict_dates a df2)
            \<and> \<bar>day_total (restrict_dates a df1) d\<bar> < 2 ^ 53
            \<and> \<bar>day_total (restrict_dates a df2) d\<bar> < 2 ^ 53
            \<and> day_total (restrict_dates a df1) d - day_total (restrict_dates a df2) d < 0
          \<longrightarrow> mset (day_rows out d)
                = mset (map (align (col_names out)) (day_rows (restrict_dates a df2) d)))
       \<and> (d \<in> dates_of (restrict_dates a df1) \<and> d \<notin> dates_of (restrict_dates a df2)
          \<longrightarrow> mset (day_rows out d) = mset (day_rows (restrict_dates a df1) d))
       \<and> (d \<notin> dates_of (restrict_dates a df1) \<and> d \<in> dates_of (restrict_dates a df2)
          \<longrightarrow> mset (day_rows out d)
                = mset (map (align (col_names out)) (day_rows (restrict_dates a df2) d)))
       \<and> (d \<notin> dates_of (restrict_dates a df1) \<and> d \<notin> dates_of (restrict_dates a df2)
          \<longrightarrow> day_rows out d = [])
       \<and> (mset (day_rows out d) = mset (day_rows (restrict_dates a df1) d)
          \<or> mset (day_rows out d)
               = mset (map (align (col_names out)) (day_rows (restrict_dates a df2) d)))
       \<and> ((\<forall>r\<in>set (rows df2). set (map fst r) \<subseteq> set (col_names df2))
          \<longrightarrow> list_all (\<lambda>r. map_of (align (col_names out) r) = map_of r)
                (day_rows (restrict_dates a df2) d))
       \<and> (distinct (col_names df1) \<and> col_names df2 = col_names df1
            \<and> (\<forall>r\<in>set (rows df2). map fst r = col_names df2)
          \<longrightarrow> map (align (col_names out)) (day_rows (restrict_dates a df2) d)
                = day_rows (restrict_dates a df2) d)"
proof -
  define A where "A = restrict_dates a df1"
  define B where "B = restrict_dates a df2"
  note m = merge_day_rows[OF assms, of d, folded A_def B_def]
  have c: "d \<in> first_dates A B \<longleftrightarrow> 0 \<le> day_total A d - day_total B d"
    if "int64_vol df1" "int64_vol df2" "d \<in> dates_of A" "d \<in> dates_of B"
      "\<bar>day_total A d\<bar> < 2 ^ 53" "\<bar>day_total B d\<bar> < 2 ^ 53"
    using that sum_arith_int64[of df1 a] sum_arith_int64[of df2 a]
    unfolding A_def B_def by (intro first_dates_compare) simp_all
  have 1: "int64_vol df1 \<and> int64_vol df2 \<and> d \<in> dates_of A \<and> d \<in> dates_of B
            \<and> \<bar>day_total A d\<bar> < 2 ^ 53 \<and> \<bar>day_total B d\<bar> < 2 ^ 53
            \<and> 0 \<le> day_total A d - day_total B d
          \<longrightarrow> mset (day_rows out d) = mset (day_rows A d)"
    using m c by simp
  have 2: "int64_vol df1 \<and> int64_vol df2 \<and> d \<in> dates_of A \<and> d \<in> dates_of B
            \<and> \<bar>day_total A d\<bar> < 2 ^ 53 \<and> \<bar>day_total B d\<bar> < 2 ^ 53
            \<and> day_total A d - day_total B d < 0
          \<longrightarrow> mset (day_rows out d) = mset (map (align (col_names out)) (day_rows B d))"
    using m c by simp
  have 3: "d \<in> dates_of A \<and> d \<notin> dates_of B
          \<longrightarrow> mset (day_rows out d) = mset (day_rows A d)"
    using m first_dates_only[of d A B] by simp
  have n: "d \<notin> dates_of A \<Longrightarrow> d \<notin> first_dates A B"
    using first_dates_subset[of A B] by blast
  have 4: "d \<notin> dates_of A \<and> d \<in> dates_of B
          \<longrightarrow> mset (day_rows out d) = mset (map (align (col_names out)) (day_rows B d))"
    using m n by simp
  have 5: "d \<notin> dates_of A \<and> d \<notin> dates_of B \<longrightarrow> day_rows out d = []"
  proof
    assume h: "d \<notin> dates_of A \<and> d \<notin> dates_of B"
    then have "mset (day_rows out d) = {#}"
      using m n by (simp add: day_rows_empty)
    then show "day_rows out d = []" by simp
  qed
  have 6: "mset (day_rows out d) = mset (day_rows A d)
          \<or> mset (day_rows out d) = mset (map (align (col_names out)) (day_rows B d))"
    using m by (cases "d \<in> first_dates A B") simp_all
  have 7: "(\<forall>r\<in>set (rows df2). set (map fst r) \<subseteq> set (col_names df2))
          \<longrightarrow> list_all (\<lambda>r. map_of (align (col_names out) r) = map_of r) (day_rows B d)"
    unfolding B_def using second_rows_keep_cells[OF assms] by blast
  have 8: "distinct (col_names df1) \<and> col_names df2 = col_names df1
            \<and> (\<forall>r\<in>set (rows df2). map fst r = col_names df2)
          \<longrightarrow> map (align (col_names out)) (day_rows B d) = day_rows B d"
    unfolding B_def using second_rows_unchanged[OF assms] by blast
  from 1 2 3 4 5 6 7 8 show ?thesis unfolding A_def B_def by blast
qed

text \<open>
  Claim C10. When the merge returns, the calendar dates of its output are exactly the dates
  of the first series as restricted to the configured date range together with those of
  the second.
\<close>

theorem merge_keeps_all_dates:
  assumes "merge_data a df1 df2 = Inr out"
  shows "dates_of out = dates_of (restrict_dates a df1) \<union> dates_of (restrict_dates a df2)"
proof -
  have d: "d \<in> dates_of df \<longleftrightarrow> day_rows df d \<noteq> []" for d df
    by (auto simp: dates_of_def day_rows_def filter_empty_conv)
  have e: "xs \<noteq> [] \<longleftrightarrow> mset xs \<noteq> {#}" for xs :: "row list" by simp
  show ?thesis
  proof (intro set_eqI)
    fix x
    show "x \<in> dates_of out \<longleftrightarrow> x \<in> dates_of (restrict_dates a df1) \<union> dates_of (restrict_dates a df2)"
      unfolding Un_iff d[of x out] e[of "day_rows out x"] merge_day_rows[OF assms, of x]
      using first_dates_subset[of "restrict_dates a df1" "restrict_dates a df2"]
        first_dates_only[of x "restrict_dates a df1" "restrict_dates a df2"]
      by (auto simp: d)
  qed
qed


lemma check_columns_Inr:
  "check_columns i df = Inr u \<longleftrightarrow>
     ''datetime'' \<in> set (col_names df)
     \<and> (case map_of (columns df) ''vol'' of Some t \<Rightarrow> is_integer_dtype t | None \<Rightarrow> False)"
proof -
  have m: "''vol'' \<in> set (col_names df) \<longleftrightarrow> map_of (columns df) ''vol'' \<noteq> None"
    by (simp add: col_names_def map_of_eq_None_iff)
  show ?thesis
    unfolding check_columns_def m
    by (cases "map_of (columns df) ''vol''") auto
qed

lemma same_keys_values:
  "map fst xs = map fst ys \<Longrightarrow> distinct (map fst xs)
     \<Longrightarrow> map snd xs = map snd ys \<longleftrightarrow> map_of xs = map_of ys"
proof (induction xs arbitrary: ys)
  case Nil
  then show ?case by simp
next
  case (Cons x xs)
  then obtain y ys' where ys: "ys = y # ys'" by (cases ys) auto
  obtain k v where x: "x = (k, v)" by (cases x)
  obtain k' w where y: "y = (k', w)" by (cases y)
  have k: "k' = k" "map fst xs = map fst ys'" using Cons.prems x y ys by auto
  have kx: "k \<notin> set (map fst xs)" using Cons.prems(2) x by simp
  then have ky: "k \<notin> set (map fst ys')" unfolding k(2) .
  have nk: "k \<notin> fst ` set xs" "k \<notin> fst ` set ys'"
    using kx ky by simp_all
  have ih: "map snd xs = map snd ys' \<longleftrightarrow> map_of xs = map_of ys'"
    using Cons.IH[OF k(2)] Cons.prems(2) by simp
  have step: "map_of ((k, v) # xs) = map_of ((k, w) # ys') \<longleftrightarrow> v = w \<and> map_of xs = map_of ys'"
  proof
    assume e: "map_of ((k, v) # xs) = map_of ((k, w) # ys')"
    then have "v = w" by (auto dest: map_upd_eqD1)
    moreover have "map_of xs n = map_of ys' n" for n
    proof (cases "n = k")
      case True
      have "map_of xs k = None" "map_of ys' k = None"
        using nk by (simp_all add: map_of_eq_None_iff)
      then show ?thesis using True by simp
    next
      case False
      then show ?thesis using fun_cong[OF e, of n] by simp
    qed
    ultimately show "v = w \<and> map_of xs = map_of ys'" by auto
  qed simp
  have "map snd (x # xs) = map snd ys \<longleftrightarrow> v = w \<and> map snd xs = map snd ys'"
    by (simp add: x y ys)
  also have "\<dots> \<longleftrightarrow> v = w \<and> map_of xs = map_of ys'"
    using ih by simp
  also have "\<dots> \<longleftrightarrow> map_of (x # xs) = map_of ys"
    unfolding x y ys k(1) by (rule step[symmetric])
  finally show ?case .
qed

lemma check_source_data_Inr:
  assumes "distinct (col_names df1)" "distinct (col_names df2)"
  shows "check_source_data df1 df2 = Inr () \<longleftrightarrow>
           ''datetime'' \<in> set (col_names df1) \<and> ''datetime'' \<in> set (col_names df2)
           \<and> preconditions_ok df1 df2"
proof (cases "set (col_names df2) = set (col_names df1)")
  case False
  then show ?thesis
    by (auto simp: check_source_data_def preconditions_ok_def bind_err_Inr Let_def col_names_def)
next
  case True
  let ?s1 = "sort_key fst (columns df1)" and ?s2 = "sort_key fst (columns df2)"
  have "mset (map fst ?s1) = mset (map fst (columns df1))"
    "mset (map fst ?s2) = mset (map fst (columns df2))"
    by simp_all
  then have d: "distinct (map fst ?s1)" "distinct (map fst ?s2)"
    using assms unfolding col_names_def by (metis mset_eq_imp_distinct_iff)+
  have "sorted (map fst ?s1)" "sorted (map fst ?s2)" by (rule sorted_sort_key)+
  moreover have "set (map fst ?s1) = set (map fst ?s2)" using True by (simp add: col_names_def)
  ultimately have k: "map fst ?s1 = map fst ?s2"
    using d by (intro sorted_distinct_set_unique) auto
  have m: "map_of ?s1 = map_of (columns df1)" "map_of ?s2 = map_of (columns df2)"
    using assms d by (auto simp: col_names_def map_of_inject_set)
  have v: "map snd ?s1 = map snd ?s2 \<longleftrightarrow> map_of (columns df1) = map_of (columns df2)"
    using same_keys_values[OF k d(1)] m by simp
  have a: "map_of (columns df1) = map_of (columns df2)
            \<longleftrightarrow> list_all (\<lambda>n. map_of (columns df1) n = map_of (columns df2) n) (col_names df1)"
  proof
    assume h: "list_all (\<lambda>n. map_of (columns df1) n = map_of (columns df2) n) (col_names df1)"
    show "map_of (columns df1) = map_of (columns df2)"
    proof
      fix n
      show "map_of (columns df1) n = map_of (columns df2) n"
      proof (cases "n \<in> set (col_names df1)")
        case True
        then show ?thesis using h by (simp add: list_all_iff)
      next
        case False
        then have "map_of (columns df1) n = None" "map_of (columns df2) n = None"
          using True by (simp_all add: map_of_eq_None_iff col_names_def)
        then show ?thesis by simp
      qed
    qed
  qed (simp add: list_all_iff)
  have c: "check_source_data df1 df2 = Inr () \<longleftrightarrow>
           check_columns 0 df1 = Inr () \<and> check_columns 1 df2 = Inr ()
           \<and> map snd ?s1 = map snd ?s2"
    using True k by (simp add: check_source_data_def bind_err_Inr Let_def col_names_def)
  show ?thesis
    unfolding c check_columns_Inr preconditions_ok_def v a using True by auto
qed

lemma parse_dates_col_names:
  "''datetime'' \<in> set (col_names df) \<Longrightarrow> col_names (parse_dates l df) = col_names df"
  by (simp add: parse_dates_def col_names_def col_names_update split: sum.splits)

lemma load_source_file_Inr:
  "load_source_file l file = Inr df \<longleftrightarrow>
     ''datetime'' \<in> set (col_names file) \<and> df = parse_dates l file"
  by (auto simp: load_source_file_def)

lemma load_source_files_Inr:
  "load_source_files l file_1 file_2 = Inr (df1, df2) \<longleftrightarrow>
     ''datetime'' \<in> set (col_names file_1) \<and> ''datetime'' \<in> set (col_names file_2)
     \<and> df1 = parse_dates l file_1 \<and> df2 = parse_dates l file_2"
  by (auto simp: load_source_files_def bind_err_Inr load_source_file_Inr)

lemma Inl_iff_not_Inr: "(\<exists>e. x = Inl e) \<longleftrightarrow> \<not> (\<exists>y. x = Inr y)"
  by (cases x) auto

text \<open>
  Claim C7, as amended. For two files with distinct column names, the program fails before
  \<open>merge_data\<close> is run, with the error of the step that failed and without a merged frame,
  exactly in these cases: loading fails, which it does exactly when a file has no
  \<open>datetime\<close> column; or the files load and the check of the loaded frames fails, which it
  does exactly when a frame has no \<open>vol\<close> column or one that is not of an integer dtype,
  or the column sets or the dtypes of the columns differ. When both steps pass, the
  result of the program is that of \<open>merge_data\<close> on the loaded frames. On any two frames
  with distinct column names the check fails exactly when a frame has no \<open>datetime\<close>
  column or one of the conditions above holds.
\<close>

theorem merge_preconditions:
  assumes "distinct (col_names file_1)" and "distinct (col_names file_2)"
  shows "((\<exists>e. load_source_files l file_1 file_2 = Inl e)
            \<longleftrightarrow> ''datetime'' \<notin> set (col_names file_1) \<or> ''datetime'' \<notin> set (col_names file_2))
       \<and> (\<forall>e. load_source_files l file_1 file_2 = Inl e
              \<longrightarrow> merger_main l a file_1 file_2 = Inl e)
       \<and> (\<forall>df1 df2. load_source_files l file_1 file_2 = Inr (df1, df2) \<longrightarrow>
            ((\<exists>e. check_source_data df1 df2 = Inl e) \<longleftrightarrow> \<not> preconditions_ok df1 df2)
            \<and> (\<forall>e. check_source_data df1 df2 = Inl e
                   \<longrightarrow> merger_main l a file_1 file_2 = Inl e)
            \<and> (preconditions_ok df1 df2
                 \<longrightarrow> merger_main l a file_1 file_2 = merge_data a df1 df2))
       \<and> ((\<exists>e. check_source_data file_1 file_2 = Inl e)
            \<longleftrightarrow> ''datetime'' \<notin> set (col_names file_1) \<or> ''datetime'' \<notin> set (col_names file_2)
                \<or> \<not> preconditions_ok file_1 file_2)"
proof -
  have 1: "(\<exists>e. load_source_files l file_1 file_2 = Inl e)
            \<longleftrightarrow> ''datetime'' \<notin> set (col_names file_1) \<or> ''datetime'' \<notin> set (col_names file_2)"
    unfolding Inl_iff_not_Inr by (auto simp: load_source_files_Inr)
  have 2: "\<forall>e. load_source_files l file_1 file_2 = Inl e
              \<longrightarrow> merger_main l a file_1 file_2 = Inl e"
    by (simp add: merger_main_def bind_err_def)
  have u: "(\<exists>e. x = Inl e) \<longleftrightarrow> x \<noteq> Inr ()" for x :: "error + unit"
    by (cases x) auto
  have 3: "((\<exists>e. check_source_data df1 df2 = Inl e) \<longleftrightarrow> \<not> preconditions_ok df1 df2)
            \<and> (\<forall>e. check_source_data df1 df2 = Inl e
                   \<longrightarrow> merger_main l a file_1 file_2 = Inl e)
            \<and> (preconditions_ok df1 df2
                 \<longrightarrow> merger_main l a file_1 file_2 = merge_data a df1 df2)"
    if ld: "load_source_files l file_1 file_2 = Inr (df1, df2)" for df1 df2
  proof -
    from ld have dt: "''datetime'' \<in> set (col_names file_1)" "''datetime'' \<in> set (col_names file_2)"
      and p: "df1 = parse_dates l file_1" "df2 = parse_dates l file_2"
      by (simp_all add: load_source_files_Inr)
    have n: "col_names df1 = col_names file_1" "col_names df2 = col_names file_2"
      unfolding p using dt by (simp_all add: parse_dates_col_names)
    have c: "check_source_data df1 df2 = Inr () \<longleftrightarrow> preconditions_ok df1 df2"
      using check_source_data_Inr[of df1 df2] assms dt unfolding n by simp
    have m: "merger_main l a file_1 file_2
               = bind_err (check_source_data df1 df2) (\<lambda>_. merge_data a df1 df2)"
      by (simp add: merger_main_def ld bind_err_def)
    show ?thesis
      unfolding u c m by (auto simp: bind_err_def c[symmetric])
  qed
  have 4: "(\<exists>e. check_source_data file_1 file_2 = Inl e)
            \<longleftrightarrow> ''datetime'' \<notin> set (col_names file_1) \<or> ''datetime'' \<notin> set (col_names file_2)
                \<or> \<not> preconditions_ok file_1 file_2"
    unfolding u check_source_data_Inr[OF assms] by blast
  from 1 2 3 4 show ?thesis by blast
qed


lemma example_merge: "merge_data example_args example_A example_B = Inr example_merged"
  by code_simp

lemma example_restrict:
  "restrict_dates example_args example_A = example_A"
  "restrict_dates example_args example_B = example_B"
  by (simp_all add: restrict_dates_def example_args_def)

theorem merge_selects_whole_days_witness:
  "merge_data example_args example_A example_B = Inr example_merged
   \<and> int64_vol example_A \<and> int64_vol example_B
   \<and> 738523 \<in> dates_of example_A \<and> 738523 \<in> dates_of example_B
   \<and> day_total example_A 738523 = 100 \<and> day_total example_B 738523 = 90
   \<and> mset (day_rows example_merged 738523) = mset (day_rows example_A 738523)
   \<and> 738524 \<in> dates_of example_A \<and> 738524 \<in> dates_of example_B
   \<and> day_total example_A 738524 = 50 \<and> day_total example_B 738524 = 50
   \<and> mset (day_rows example_merged 738524) = mset (day_rows example_A 738524)
   \<and> 738525 \<in> dates_of example_A \<and> 738525 \<in> dates_of example_B
   \<and> day_total example_A 738525 = 10 \<and> day_total example_B 738525 = 20
   \<and> mset (day_rows example_merged 738525) = mset (day_rows example_B 738525)
   \<and> 738522 \<in> dates_of example_A \<and> 738522 \<notin> dates_of example_B
   \<and> mset (day_rows example_merged 738522) = mset (day_rows example_A 738522)
   \<and> 738526 \<notin> dates_of example_A \<and> 738526 \<in> dates_of example_B
   \<and> mset (day_rows example_merged 738526) = mset (day_rows example_B 738526)
   \<and> 738527 \<notin> dates_of example_A \<and> 738527 \<notin> dates_of example_B
   \<and> day_rows example_merged 738527 = []
   \<and> distinct (col_names example_A) \<and> col_names example_B = col_names example_A
   \<and> list_all (\<lambda>r. map fst r = col_names example_B) (rows example_B)
   \<and> list_all (\<lambda>r. set (map fst r) \<subseteq> set (col_names example_B)) (rows example_B)
   \<and> list_all (\<lambda>r. map_of (align (col_names example_merged) r) = map_of r)
        (day_rows example_B 738525)"
proof -
  have i: "int64_vol example_A" "int64_vol example_B"
    by code_simp+
  have d: "738523 \<in> dates_of example_A" "738523 \<in> dates_of example_B"
    "738524 \<in> dates_of example_A" "738524 \<in> dates_of example_B"
    "738525 \<in> dates_of example_A" "738525 \<in> dates_of example_B"
    "738522 \<in> dates_of example_A" "738522 \<notin> dates_of example_B"
    "738526 \<notin> dates_of example_A" "738526 \<in> dates_of example_B"
    "738527 \<notin> dates_of example_A" "738527 \<notin> dates_of example_B"
    by code_simp+
  have t: "day_total example_A 738523 = 100" "day_total example_B 738523 = 90"
    "day_total example_A 738524 = 50" "day_total example_B 738524 = 50"
    "day_total example_A 738525 = 10" "day_total example_B 738525 = 20"
    by code_simp+
  have w: "distinct (col_names example_A)" "col_names example_B = col_names example_A"
    "list_all (\<lambda>r. map fst r = col_names example_B) (rows example_B)"
    "list_all (\<lambda>r. set (map fst r) \<subseteq> set (col_names example_B)) (rows example_B)"
    by code_simp+
  note m = merge_selects_whole_days[OF example_merge, unfolded example_restrict]
  show ?thesis
    using example_merge i d t w m[of 738523] m[of 738524] m[of 738525] m[of 738522]
      m[of 738526] m[of 738527]
    by (simp add: list_all_iff del: mset_map)
qed

theorem merge_selects_whole_days_counterexample:
  "merge_data example_args example_wrap_A example_wrap_B = Inr example_wrap_B
   \<and> int64_vol example_wrap_A \<and> int64_vol example_wrap_B
   \<and> dates_of example_wrap_A = {738523} \<and> dates_of example_wrap_B = {738523}
   \<and> day_total example_wrap_A 738523 = 3 * 2 ^ 62 \<and> day_total example_wrap_B 738523 = 1
   \<and> 0 \<le> day_total example_wrap_A 738523 - day_total example_wrap_B 738523
   \<and> day_rows example_wrap_B 738523 = rows example_wrap_B
   \<and> day_rows example_wrap_A 738523 = rows example_wrap_A
   \<and> rows example_wrap_A \<noteq> []
   \<and> list_all (\<lambda>r. r \<notin> set (rows example_wrap_B)) (rows example_wrap_A)
   \<and> merge_data example_args example_round_A example_round_B = Inr example_round_A
   \<and> int64_vol example_round_A \<and> int64_vol example_round_B
   \<and> 738523 \<in> dates_of example_round_A \<and> 738523 \<in> dates_of example_round_B
   \<and> day_total example_round_A 738523 = 2 ^ 53
   \<and> day_total example_round_B 738523 = 2 ^ 53 + 1
   \<and> day_total example_round_A 738523 - day_total example_round_B 738523 < 0
   \<and> rows example_round_B \<noteq> []
   \<and> list_all (\<lambda>r. r \<notin> set (rows example_round_A)) (rows example_round_B)
   \<and> merge_data example_args example_unsigned_A example_unsigned_B = Inr example_unsigned_A
   \<and> preconditions_ok example_unsigned_A example_unsigned_B
   \<and> 738523 \<in> dates_of example_unsigned_A \<and> 738523 \<in> dates_of example_unsigned_B
   \<and> day_total example_unsigned_A 738523 = 5 \<and> day_total example_unsigned_B 738523 = 7
   \<and> day_rows example_unsigned_B 738523 \<noteq> []
   \<and> list_all (\<lambda>r. r \<notin> set (rows example_unsigned_A)) (day_rows example_unsigned_B 738523)"
  by code_simp

lemma example_merge_range:
  "merge_data example_args_range example_A example_B = Inr example_merged_range"
  by code_simp

theorem merge_keeps_all_dates_witness:
  "merge_data example_args_range example_A example_B = Inr example_merged_range
   \<and> dates_of example_merged_range
       = dates_of (restrict_dates example_args_range example_A)
         \<union> dates_of (restrict_dates example_args_range example_B)
   \<and> dates_of example_merged_range = {738523, 738524, 738525}
   \<and> dates_of example_A = {738522, 738523, 738524, 738525}
   \<and> dates_of example_B = {738523, 738524, 738525, 738526}"
proof -
  have d: "dates_of example_merged_range = {738523, 738524, 738525}"
    "dates_of example_A = {738522, 738523, 738524, 738525}"
    "dates_of example_B = {738523, 738524, 738525, 738526}"
    by code_simp+
  show ?thesis
    by (intro conjI)
       (rule example_merge_range, rule merge_keeps_all_dates[OF example_merge_range], (rule d)+)
qed

theorem merge_preconditions_witness:
  "distinct (col_names example_file_A) \<and> distinct (col_names example_file_B)
   \<and> distinct (col_names example_file_C) \<and> distinct (col_names example_no_datetime)
   \<and> load_source_files example_lib example_file_A example_file_B = Inr (example_A, example_B)
   \<and> preconditions_ok example_A example_B
   \<and> check_source_data example_A example_B = Inr ()
   \<and> merger_main example_lib example_args example_file_A example_file_B = Inr example_merged
   \<and> load_source_files example_lib example_file_A example_file_C = Inr (example_A, example_C)
   \<and> \<not> preconditions_ok example_A example_C
   \<and> check_source_data example_A example_C = Inl DifferentColumns
   \<and> merger_main example_lib example_args example_file_A example_file_C = Inl DifferentColumns
   \<and> ''datetime'' \<notin> set (col_names example_no_datetime)
   \<and> load_source_files example_lib example_no_datetime example_file_B = Inl ValueError
   \<and> merger_main example_lib example_args example_no_datetime example_file_B
       = Inl ValueError"
proof -
  have d: "distinct (col_names example_file_A)" "distinct (col_names example_file_B)"
    "distinct (col_names example_file_C)" "distinct (col_names example_no_datetime)"
    by code_simp+
  have s: "preconditions_ok example_A example_B"
    "check_source_data example_A example_C = Inl DifferentColumns"
    "load_source_files example_lib example_file_A example_file_B = Inr (example_A, example_B)"
    "load_source_files example_lib example_file_A example_file_C = Inr (example_A, example_C)"
    "load_source_files example_lib example_no_datetime example_file_B = Inl ValueError"
    "''datetime'' \<notin> set (col_names example_no_datetime)"
    by code_simp+
  note ab = merge_preconditions[OF d(1,2), of example_lib example_args]
  note ac = merge_preconditions[OF d(1,3), of example_lib example_args]
  note nb = merge_preconditions[OF d(4,2), of example_lib example_args]
  have 1: "check_source_data example_A example_B = Inr ()"
    using ab s(1,3) by (cases "check_source_data example_A example_B") auto
  have 2: "merger_main example_lib example_args example_file_A example_file_B
             = Inr example_merged"
    using ab s(1,3) example_merge by simp
  have 3: "\<not> preconditions_ok example_A example_C" using ac s(2,4) by blast
  have 4: "merger_main example_lib example_args example_file_A example_file_C
             = Inl DifferentColumns"
    using ac s(2,4) by blast
  have 5: "merger_main example_lib example_args example_no_datetime example_file_B
             = Inl ValueError"
    using nb s(5) by blast
  from d s 1 2 3 4 5 show ?thesis by simp
qed

theorem merge_preconditions_counterexample:
  "preconditions_ok example_no_datetime example_no_datetime
   \<and> map_of (columns example_no_datetime) ''vol'' = Some (IntDtype 64)
   \<and> is_integer_dtype (IntDtype 64)
   \<and> load_source_files example_lib example_no_datetime example_no_datetime = Inl ValueError
   \<and> merger_main example_lib example_args example_no_datetime example_no_datetime
       = Inl ValueError
   \<and> check_source_data example_no_datetime example_no_datetime = Inl (NoDatetimeColumn 1)"
  by code_simp


section \<open>Idempotence of the cleaning pipeline\<close>

lemma lower_char_idem: "lower_char (lower_char c) = lower_char c"
proof -
  have "of_char (char_of (n + 32) :: char) = n + 32" if "65 \<le> n" "n \<le> 90" for n :: nat
    using that by simp
  then show ?thesis
    by (auto simp: lower_char_def Let_def)
qed

lemma lower_char_not_angle: "lower_char c \<in> set ''<>'' \<Longrightarrow> c \<in> set ''<>''"
proof -
  have n: "of_char (char_of (n + 32) :: char) = n + 32" if "65 \<le> n" "n \<le> 90" for n :: nat
    using that by simp
  show "lower_char c \<in> set ''<>'' \<Longrightarrow> c \<in> set ''<>''"
  proof (cases "65 \<le> (of_char c :: nat) \<and> (of_char c :: nat) \<le> 90")
    case False
    assume "lower_char c \<in> set ''<>''"
    then show ?thesis using False by (simp add: lower_char_def Let_def)
  next
    case True
    assume a: "lower_char c \<in> set ''<>''"
    have "of_char (lower_char c) = (of_char c :: nat) + 32"
      using True n by (simp add: lower_char_def Let_def)
    moreover have "(of_char (lower_char c) :: nat) = 60 \<or> (of_char (lower_char c) :: nat) = 62"
      using a by auto
    ultimately show ?thesis using True by auto
  qed
qed

lemma norm_column_name_idem: "norm_column_name (norm_column_name x) = norm_column_name x"
proof -
  have "filter (\<lambda>c. c \<notin> set ''<>'') (map lower_char (filter (\<lambda>c. c \<notin> set ''<>'') x))
          = map lower_char (filter (\<lambda>c. c \<notin> set ''<>'') x)"
    unfolding filter_id_conv using lower_char_not_angle by force
  then show ?thesis
    by (simp add: norm_column_name_def lower_def lower_char_idem)
qed

lemma norm_fixed:
  "norm_column_name ''per'' = ''per''" "norm_column_name ''ticker'' = ''ticker''"
  "norm_column_name ''datetime'' = ''datetime''" "norm_column_name ''vol'' = ''vol''"
  by code_simp+

lemma norm_keys_update:
  "norm_keys al \<Longrightarrow> norm_column_name k = k \<Longrightarrow> norm_keys (AList.update k v al)"
  by (induction al) (auto simp: norm_keys_def)

lemma norm_keys_filter: "norm_keys al \<Longrightarrow> norm_keys (filter P al)"
  by (simp add: norm_keys_def list_all_iff)

lemma norm_keys_rename: "norm_keys (map (\<lambda>(n, v). (norm_column_name n, v)) al)"
  by (simp add: norm_keys_def list_all_iff norm_column_name_idem split_beta)

lemma norm_keys_id: "norm_keys al \<Longrightarrow> map (\<lambda>(n, v). (norm_column_name n, v)) al = al"
  by (rule map_idI) (auto simp: norm_keys_def list_all_iff)

lemma map_of_filter_keys:
  "k \<notin> set cs \<Longrightarrow> map_of (filter (\<lambda>(n, _). n \<notin> set cs) al) k = map_of al k"
  by (induction al) auto

lemma make_datetime_row_fixed:
  "make_datetime_row l r = Inr r \<longleftrightarrow>
     (\<exists>d t v. map_of r ''date'' = Some d \<and> map_of r ''time'' = Some t
        \<and> fromisoformat l (str_of l d @ '' '' @ pad_time (str_of l t)) = Some v
        \<and> map_of r ''datetime'' = Some (TsV v))"
proof -
  have u: "AList.update k v r = r \<longleftrightarrow> map_of r k = Some v" for k and v :: cell
    by (metis update_triv update_conv' fun_upd_same)
  show ?thesis
    by (auto simp: make_datetime_row_def u split: option.splits)
qed

lemma make_datetime_row_result:
  "make_datetime_row l r = Inr r' \<Longrightarrow>
     (\<exists>v. r' = AList.update ''datetime'' (TsV v) r) \<and> make_datetime_row l r' = Inr r'"
  unfolding make_datetime_row_fixed
  by (auto simp: make_datetime_row_def update_conv' split: option.splits)

lemma convert_datetime_row_result:
  "convert_datetime_row l r = Inr r' \<Longrightarrow> \<exists>v. r' = AList.update ''datetime'' (TsV v) r"
  by (auto simp: convert_datetime_row_def split: option.splits)

lemma clean_ticker_row_result:
  "clean_ticker_row r = Inr r' \<Longrightarrow> \<exists>x. r' = AList.update ''ticker'' (StrV x) r"
  by (auto simp: clean_ticker_row_def split: option.splits cell.splits)

lemma cast_vol_row_result:
  "cast_vol_row l r = Inr r' \<Longrightarrow> \<exists>v. r' = AList.update ''vol'' (IntV v) r"
  by (auto simp: cast_vol_row_def split: option.splits)

lemma prepared_row_update:
  assumes "prepared_row l both period r" and "k \<notin> set [''per'', ''ticker'', ''datetime'', ''date'', ''time'']"
    and "norm_column_name k = k"
  shows "prepared_row l both period (AList.update k v r)"
  using assms
  by (auto simp: prepared_row_def norm_keys_update make_datetime_row_fixed update_conv')

lemma prepared_row_filter:
  assumes "prepared_row l both period r"
  shows "prepared_row l False period (filter (\<lambda>(n, _). n \<notin> set [''date'', ''time'']) r)"
proof -
  let ?f = "filter (\<lambda>(n, _). n \<notin> set [''date'', ''time'']) r"
  have m: "map_of ?f ''per'' = map_of r ''per''" "map_of ?f ''ticker'' = map_of r ''ticker''"
    "map_of ?f ''datetime'' = map_of r ''datetime''"
    by (rule map_of_filter_keys, simp)+
  have "norm_keys ?f" using assms by (simp add: prepared_row_def norm_keys_filter)
  then show ?thesis
    using assms unfolding prepared_row_def m by simp
qed

lemma prepared_row_weaken: "prepared_row l both period r \<Longrightarrow> prepared_row l False period r"
  by (simp add: prepared_row_def)

lemma prepare_row_prepared:
  assumes p: "prepare_row l a cols r0 = Inr r1"
    and per: "case map_of (map (\<lambda>(n, v). (norm_column_name n, v)) r0) ''per'' of
                Some c \<Rightarrow> dict_key c = dict_key period | None \<Rightarrow> False"
  shows "prepared_row l
           (keep_date_time a
            \<and> {''date'', ''time''} \<subseteq> set (map fst (map (\<lambda>(n, t). (norm_column_name n, t)) cols)))
           period r1"
proof -
  define cols' where "cols' = map (\<lambda>(n, t). (norm_column_name n, t)) cols"
  define both where "both = ({''date'', ''time''} \<subseteq> set (map fst cols'))"
  define rn where "rn = map (\<lambda>(n, v). (norm_column_name n, v)) r0"
  from p obtain ra rb rc where
    a: "clean_ticker_row rn = Inr ra"
    and b: "(if both then make_datetime_row l ra
             else if ''datetime'' \<in> set (map fst cols') then convert_datetime_row l ra
             else Inl NoTemporalColumns) = Inr rb"
    and c: "(case map_of cols' ''vol'' of
               None \<Rightarrow> Inr rb
             | Some t \<Rightarrow> if \<not> is_integer_dtype t then cast_vol_row l rb else Inr rb) = Inr rc"
    and e: "r1 = (if \<not> keep_date_time a \<and> both
                  then filter (\<lambda>(n, _). n \<notin> set [''date'', ''time'']) rc else rc)"
    unfolding prepare_row_def Let_def cols'_def[symmetric] both_def[symmetric] rn_def[symmetric]
      bind_err_Inr
    by auto
  from clean_ticker_row_result[OF a] obtain x where ra: "ra = AList.update ''ticker'' (StrV x) rn"
    by blast
  have pa: "norm_keys ra"
    "case map_of ra ''per'' of Some c \<Rightarrow> dict_key c = dict_key period | None \<Rightarrow> False"
    "map_of ra ''ticker'' = Some (StrV x)"
    using per norm_keys_rename[of r0]
    by (simp_all add: ra rn_def norm_keys_update norm_fixed update_conv')
  have pb: "prepared_row l both period rb"
  proof (cases both)
    case True
    then have m: "make_datetime_row l ra = Inr rb" using b by simp
    from make_datetime_row_result[OF m] obtain v where
      "rb = AList.update ''datetime'' (TsV v) ra" "make_datetime_row l rb = Inr rb" by blast
    then show ?thesis
      using pa by (simp add: prepared_row_def norm_keys_update norm_fixed update_conv')
  next
    case False
    then have m: "convert_datetime_row l ra = Inr rb" using b by (simp split: if_splits)
    from convert_datetime_row_result[OF m] obtain v where
      "rb = AList.update ''datetime'' (TsV v) ra" by blast
    then show ?thesis
      using pa False by (simp add: prepared_row_def norm_keys_update norm_fixed update_conv')
  qed
  have "rc = rb \<or> (\<exists>v. rc = AList.update ''vol'' (IntV v) rb)"
    using c cast_vol_row_result[of l rb rc] by (auto split: option.splits if_splits)
  then have pc: "prepared_row l both period rc"
    using pb prepared_row_update[OF pb, of "''vol''"] by (auto simp: norm_fixed)
  show ?thesis
  proof (cases "\<not> keep_date_time a \<and> both")
    case True
    then show ?thesis
      unfolding cols'_def[symmetric] both_def[symmetric] e
      using prepared_row_filter[OF pc] by simp
  next
    case False
    then show ?thesis
      unfolding cols'_def[symmetric] both_def[symmetric] e
      using pc prepared_row_weaken[OF pc] by auto
  qed
qed

lemma those_Some: "those xs = Some ys \<longleftrightarrow> xs = map Some ys"
  by (induction xs arbitrary: ys) (auto split: option.splits)

lemma get_col_Inr:
  "get_col df c = Inr vs \<longleftrightarrow>
     c \<in> set (col_names df) \<and> map (\<lambda>r. map_of r c) (rows df) = map Some vs"
proof -
  have n: "those xs = None \<longleftrightarrow> (\<forall>ys. xs \<noteq> map Some ys)" for xs :: "cell option list"
    using those_Some[of xs] by (cases "those xs") auto
  show ?thesis
    by (auto simp: get_col_def those_Some n split: option.splits)
qed

lemma remdups_singleton: "length (remdups xs) = 1 \<longleftrightarrow> (\<exists>y. set xs = {y})"
proof
  assume "length (remdups xs) = 1"
  then obtain y where "remdups xs = [y]" by (cases "remdups xs") auto
  then have "set xs = {y}" by (metis list.set(1) list.simps(15) set_remdups)
  then show "\<exists>y. set xs = {y}" by blast
next
  assume "\<exists>y. set xs = {y}"
  then obtain y where y: "set xs = {y}" by blast
  have "distinct (remdups xs)" "set (remdups xs) = {y}" using y by simp_all
  then have "card (set (remdups xs)) = 1" by simp
  then show "length (remdups xs) = 1" by (simp add: distinct_card del: set_remdups)
qed

lemma remdups_map_singleton:
  "length (remdups (map f (x # xs))) = 1 \<longleftrightarrow> (\<forall>y\<in>set (x # xs). f y = f x)"
proof -
  have "length (remdups (map f (x # xs))) = 1 \<longleftrightarrow> (\<exists>y. set (map f (x # xs)) = {y})"
    by (rule remdups_singleton)
  also have "\<dots> \<longleftrightarrow> (\<forall>y\<in>set (x # xs). f y = f x)" by auto
  finally show ?thesis .
qed

lemma check_period_Inr:
  "check_period df = Inr period \<longleftrightarrow>
     ''per'' \<in> set (col_names df)
     \<and> (\<exists>r rs. rows df = r # rs \<and> map_of r ''per'' = Some period)
     \<and> (\<forall>r\<in>set (rows df).
           case map_of r ''per'' of Some c \<Rightarrow> dict_key c = dict_key period | None \<Rightarrow> False)"
proof
  assume "check_period df = Inr period"
  then obtain pers where g: "get_col df ''per'' = Inr pers"
    and u: "length (remdups (map dict_key pers)) = 1" and h: "\<exists>rest. pers = period # rest"
    by (auto simp: check_period_def bind_err_Inr split: if_splits list.splits)
  from h obtain rest where pr: "pers = period # rest" by blast
  from u have a: "\<forall>v\<in>set pers. dict_key v = dict_key period"
    unfolding pr remdups_map_singleton .
  from g have c: "''per'' \<in> set (col_names df)"
    and m: "map (\<lambda>r. map_of r ''per'') (rows df) = map Some pers"
    by (simp_all add: get_col_Inr)
  have "\<forall>r\<in>set (rows df).
          case map_of r ''per'' of Some c \<Rightarrow> dict_key c = dict_key period | None \<Rightarrow> False"
  proof
    fix r assume "r \<in> set (rows df)"
    then have "map_of r ''per'' \<in> set (map Some pers)" unfolding m[symmetric] by simp
    then show "case map_of r ''per'' of Some c \<Rightarrow> dict_key c = dict_key period | None \<Rightarrow> False"
      using a by auto
  qed
  moreover have "\<exists>r rs. rows df = r # rs \<and> map_of r ''per'' = Some period"
    using m unfolding pr by (cases "rows df") auto
  ultimately show "''per'' \<in> set (col_names df)
     \<and> (\<exists>r rs. rows df = r # rs \<and> map_of r ''per'' = Some period)
     \<and> (\<forall>r\<in>set (rows df).
           case map_of r ''per'' of Some c \<Rightarrow> dict_key c = dict_key period | None \<Rightarrow> False)"
    using c by simp
next
  assume a: "''per'' \<in> set (col_names df)
     \<and> (\<exists>r rs. rows df = r # rs \<and> map_of r ''per'' = Some period)
     \<and> (\<forall>r\<in>set (rows df).
           case map_of r ''per'' of Some c \<Rightarrow> dict_key c = dict_key period | None \<Rightarrow> False)"
  then obtain r rs where rr: "rows df = r # rs" and rp: "map_of r ''per'' = Some period"
    by blast
  define pers where "pers = map (\<lambda>r. the (map_of r ''per'')) (rows df)"
  have s: "map_of x ''per'' = Some (the (map_of x ''per''))
           \<and> dict_key (the (map_of x ''per'')) = dict_key period"
    if "x \<in> set (rows df)" for x
    using a that by (cases "map_of x ''per''") auto
  have "map (\<lambda>r. map_of r ''per'') (rows df) = map Some pers"
    unfolding pers_def map_map comp_def by (rule map_cong) (use s in auto)
  then have g: "get_col df ''per'' = Inr pers" using a by (simp add: get_col_Inr)
  have pr: "pers = period # map (\<lambda>r. the (map_of r ''per'')) rs"
    by (simp add: pers_def rr rp)
  have "\<forall>v\<in>set pers. dict_key v = dict_key period"
    unfolding pers_def using s by auto
  then have u: "length (remdups (map dict_key pers)) = 1"
    unfolding pr remdups_map_singleton .
  show "check_period df = Inr period"
    using g u pr by (simp add: check_period_def bind_err_def)
qed

lemma norm_keys_columns_rename: "norm_keys (map (\<lambda>(n, t). (norm_column_name n, t)) cols)"
  by (simp add: norm_keys_def list_all_iff norm_column_name_idem split_beta)

lemma clean_tickers_columns:
  "clean_tickers df = Inr dfa \<Longrightarrow> columns dfa = AList.update ''ticker'' ObjectDtype (columns df)"
  unfolding clean_tickers_def
  by (cases "''ticker'' \<in> set (col_names df)"; cases "map_err clean_ticker_row (rows df)")
     (auto simp: bind_err_def)

lemma create_datetime_columns:
  assumes "create_datetime l dfa = Inr dfb"
  shows "columns dfb = AList.update ''datetime'' DatetimeDtype (columns dfa)"
proof (cases "{''date'', ''time''} \<subseteq> set (col_names dfa)")
  case True
  then show ?thesis
    using assms unfolding create_datetime_def
    by (cases "map_err (make_datetime_row l) (rows dfa)") (auto simp: bind_err_def)
next
  case False
  then show ?thesis
    using assms unfolding create_datetime_def
    by (cases "''datetime'' \<in> set (col_names dfa)";
        cases "map_err (convert_datetime_row l) (rows dfa)") (auto simp: bind_err_def)
qed

lemma cast_vol_columns:
  assumes "cast_vol l dfb = Inr dfc"
  shows "columns dfc = columns dfb
      \<or> (\<exists>t. map_of (columns dfb) ''vol'' = Some t
            \<and> columns dfc = AList.update ''vol'' (IntDtype 64) (columns dfb))"
    and "case map_of (columns dfc) ''vol'' of Some t \<Rightarrow> is_integer_dtype t | None \<Rightarrow> True"
proof -
  show "columns dfc = columns dfb
      \<or> (\<exists>t. map_of (columns dfb) ''vol'' = Some t
            \<and> columns dfc = AList.update ''vol'' (IntDtype 64) (columns dfb))"
  proof (cases "map_of (columns dfb) ''vol''")
    case None
    then show ?thesis using assms by (simp add: cast_vol_def)
  next
    case (Some t)
    then show ?thesis
      using assms unfolding cast_vol_def
      by (cases "is_integer_dtype t"; cases "map_err (cast_vol_row l) (rows dfb)")
         (auto simp: bind_err_def)
  qed
  show "case map_of (columns dfc) ''vol'' of Some t \<Rightarrow> is_integer_dtype t | None \<Rightarrow> True"
  proof (cases "map_of (columns dfb) ''vol''")
    case None
    then show ?thesis using assms by (simp add: cast_vol_def)
  next
    case (Some t)
    then show ?thesis
      using assms unfolding cast_vol_def
      by (cases "is_integer_dtype t"; cases "map_err (cast_vol_row l) (rows dfb)")
         (auto simp: bind_err_def update_conv')
  qed
qed

lemma list_all2_right: "list_all2 R xs ys \<Longrightarrow> y \<in> set ys \<Longrightarrow> \<exists>x\<in>set xs. R x y"
  by (induction rule: list_all2_induct) auto

lemma drop_columns_map_of:
  "k \<notin> set cs \<Longrightarrow> map_of (columns (drop_columns cs df)) k = map_of (columns df) k"
  unfolding drop_columns_def dataframe.select_convs by (rule map_of_filter_keys)

lemma prepare_steps:
  assumes "prepare l a df0 = Inr (period, df1)"
  obtains dfa dfb dfc where
    "check_period (rename_columns df0) = Inr period"
    "clean_tickers (rename_columns df0) = Inr dfa" "create_datetime l dfa = Inr dfb"
    "cast_vol l dfb = Inr dfc" "df1 = drop_date_time a dfc"
proof -
  from assms obtain dfa where c: "check_period (rename_columns df0) = Inr period"
    and t: "clean_tickers (rename_columns df0) = Inr dfa"
    and r: "bind_err (create_datetime l dfa) (\<lambda>df. bind_err (cast_vol l df)
               (\<lambda>df. Inr (period, drop_date_time a df))) = Inr (period, df1)"
    unfolding prepare_def Let_def bind_err_Inr by auto
  from r obtain dfb dfc where "create_datetime l dfa = Inr dfb" "cast_vol l dfb = Inr dfc"
    "df1 = drop_date_time a dfc"
    unfolding bind_err_Inr by auto
  with c t that show thesis by blast
qed

lemma prepare_columns:
  assumes "prepare l a df0 = Inr (period, df1)"
  defines "both \<equiv> {''date'', ''time''}
             \<subseteq> set (map fst (map (\<lambda>(n, t). (norm_column_name n, t)) (columns df0)))"
  shows "norm_keys (columns df1) \<and> ''per'' \<in> set (col_names df1)
       \<and> map_of (columns df1) ''ticker'' = Some ObjectDtype
       \<and> map_of (columns df1) ''datetime'' = Some DatetimeDtype
       \<and> (case map_of (columns df1) ''vol'' of Some t \<Rightarrow> is_integer_dtype t | None \<Rightarrow> True)
       \<and> ({''date'', ''time''} \<subseteq> set (col_names df1) \<longleftrightarrow> keep_date_time a \<and> both)"
proof -
  from assms(1) obtain dfa dfb dfc where
    c: "check_period (rename_columns df0) = Inr period" and
    t: "clean_tickers (rename_columns df0) = Inr dfa" and d: "create_datetime l dfa = Inr dfb"
    and v: "cast_vol l dfb = Inr dfc" and e: "df1 = drop_date_time a dfc"
    by (rule prepare_steps)
  define cols' where "cols' = map (\<lambda>(n, t). (norm_column_name n, t)) (columns df0)"
  have b: "both \<longleftrightarrow> {''date'', ''time''} \<subseteq> fst ` set cols'"
    unfolding both_def cols'_def[symmetric] set_map ..
  have c0: "columns (rename_columns df0) = cols'"
    by (simp add: rename_columns_def cols'_def)
  have per: "''per'' \<in> fst ` set cols'"
    using c unfolding check_period_Inr c0 col_names_def by simp
  have ca: "columns dfa = AList.update ''ticker'' ObjectDtype cols'"
    using clean_tickers_columns[OF t] c0 by simp
  have cb: "columns dfb = AList.update ''datetime'' DatetimeDtype (columns dfa)"
    by (rule create_datetime_columns[OF d])
  note cc = cast_vol_columns[OF v]
  have kb: "fst ` set (columns dfb) = insert ''datetime'' (insert ''ticker'' (fst ` set cols'))"
    unfolding cb ca dom_update by blast
  have kc: "fst ` set (columns dfc) = fst ` set (columns dfb)"
    using cc(1)
  proof
    assume "\<exists>t. map_of (columns dfb) ''vol'' = Some t
            \<and> columns dfc = AList.update ''vol'' (IntDtype 64) (columns dfb)"
    then obtain t where s: "map_of (columns dfb) ''vol'' = Some t"
      and u: "columns dfc = AList.update ''vol'' (IntDtype 64) (columns dfb)" by blast
    from s have "''vol'' \<in> fst ` set (columns dfb)" by (metis domI dom_map_of_conv_image_fst)
    then show ?thesis unfolding u dom_update by blast
  qed simp
  have bc: "{''date'', ''time''} \<subseteq> set (col_names dfc) \<longleftrightarrow> both"
    unfolding col_names_def set_map kc kb b by simp
  have nb: "norm_keys (columns dfb)"
    by (simp add: cb ca norm_keys_update norm_fixed cols'_def norm_keys_columns_rename)
  have nc: "norm_keys (columns dfc)"
    using cc(1) nb norm_keys_update[OF nb norm_fixed(4)] by metis
  have mb: "map_of (columns dfb) ''ticker'' = Some ObjectDtype"
    "map_of (columns dfb) ''datetime'' = Some DatetimeDtype"
    by (simp_all add: cb ca update_conv')
  have mc: "map_of (columns dfc) ''ticker'' = Some ObjectDtype"
    "map_of (columns dfc) ''datetime'' = Some DatetimeDtype"
  proof -
    have "map_of (AList.update ''vol'' (IntDtype 64) (columns dfb)) ''ticker''
            = map_of (columns dfb) ''ticker''"
      "map_of (AList.update ''vol'' (IntDtype 64) (columns dfb)) ''datetime''
            = map_of (columns dfb) ''datetime''"
      by (simp_all add: update_conv')
    then show "map_of (columns dfc) ''ticker'' = Some ObjectDtype"
      "map_of (columns dfc) ''datetime'' = Some DatetimeDtype"
      using cc(1) mb by metis+
  qed
  have pc: "''per'' \<in> set (col_names dfc)"
    using per unfolding col_names_def set_map kc kb by simp
  show ?thesis
  proof (cases "\<not> keep_date_time a \<and> both")
    case True
    then have e': "df1 = drop_columns [''date'', ''time''] dfc"
      unfolding e drop_date_time_def bc by simp
    have f: "map_of (columns df1) k = map_of (columns dfc) k"
      if "k \<notin> set [''date'', ''time'']" for k
      unfolding e' using that by (rule drop_columns_map_of)
    have f3: "map_of (columns df1) ''ticker'' = map_of (columns dfc) ''ticker''"
      "map_of (columns df1) ''datetime'' = map_of (columns dfc) ''datetime''"
      "map_of (columns df1) ''vol'' = map_of (columns dfc) ''vol''"
      by (rule f, simp)+
    have n1: "set (col_names df1) = set (col_names dfc) - {''date'', ''time''}"
      unfolding e' drop_columns_def col_names_def by force
    have n: "norm_keys (columns df1)"
      unfolding e' drop_columns_def using nc by (simp add: norm_keys_filter)
    have p: "''per'' \<in> set (col_names df1)" unfolding n1 using pc by simp
    have q: "\<not> {''date'', ''time''} \<subseteq> set (col_names df1)" unfolding n1 by simp
    show ?thesis
      unfolding f3 using n p q True mc cc(2) by blast
  next
    case False
    then have e': "df1 = dfc" unfolding e drop_date_time_def bc by auto
    show ?thesis
      unfolding e' bc using nc pc mc cc(2) False by blast
  qed
qed

lemma prepare_prepared:
  assumes "prepare l a df0 = Inr (period, df1)"
  shows "prepared l a period df1"
proof -
  define both where "both = ({''date'', ''time''}
             \<subseteq> set (map fst (map (\<lambda>(n, t). (norm_column_name n, t)) (columns df0))))"
  note c = prepare_columns[OF assms, folded both_def]
  from assms have "check_period (rename_columns df0) = Inr period" by (rule prepare_steps)
  then have per: "\<forall>r0\<in>set (rows df0).
      (case map_of (map (\<lambda>(n, v). (norm_column_name n, v)) r0) ''per'' of
         Some c \<Rightarrow> dict_key c = dict_key period | None \<Rightarrow> False)"
    unfolding check_period_Inr by (simp add: rename_columns_def)
  have "prepared_row l (keep_date_time a \<and> both) period r1" if "r1 \<in> set (rows df1)" for r1
  proof -
    from list_all2_right[OF map_err_all2[OF prepare_rows[OF assms]] that]
    obtain r0 where "r0 \<in> set (rows df0)" "prepare_row l a (columns df0) r0 = Inr r1" by blast
    then show ?thesis
      unfolding both_def using prepare_row_prepared per by blast
  qed
  then have "list_all (prepared_row l ({''date'', ''time''} \<subseteq> set (col_names df1)) period)
               (rows df1)"
    using c by (simp add: list_all_iff)
  moreover have "keep_date_time a \<or> \<not> {''date'', ''time''} \<subseteq> set (col_names df1)"
    using c by blast
  ultimately show ?thesis
    unfolding prepared_def using c by blast
qed

lemma prepared_rows:
  "prepared l a period df \<Longrightarrow> set rs \<subseteq> set (rows df) \<Longrightarrow> prepared l a period (df\<lparr>rows := rs\<rparr>)"
  by (auto simp: prepared_def col_names_def list_all_iff)

lemma select_rows_eq: "select_rows a df = df\<lparr>rows := rows (select_rows a df)\<rparr>"
  using select_rows_columns[of a df] by (cases "select_rows a df"; cases df) simp

lemma select_rows_subset: "set (rows (select_rows a df)) \<subseteq> set (rows df)"
  unfolding select_rows_rows using set_drop_duplicates[of ts "filter (retained a) (rows df)"]
  by auto

lemma prepared_select_rows: "prepared l a period df \<Longrightarrow> prepared l a period (select_rows a df)"
  using prepared_rows[OF _ select_rows_subset, of l a period df a] select_rows_eq[of a df]
  by simp

lemma map_err_id: "(\<And>x. x \<in> set xs \<Longrightarrow> f x = Inr x) \<Longrightarrow> map_err f xs = Inr xs"
  by (induction xs) auto

lemma frame_eq: "columns df = c \<Longrightarrow> rows df = r \<Longrightarrow> \<lparr>columns = c, rows = r\<rparr> = df"
  by (cases df) simp

lemma prepared_fixed:
  assumes p: "prepared l a period df" and ne: "rows df \<noteq> []" and tc: "tickers_clean df"
  shows "\<exists>period'. prepare l a df = Inr (period', df) \<and> dict_key period' = dict_key period"
proof -
  define both where "both = ({''date'', ''time''} \<subseteq> set (col_names df))"
  from p have nk: "norm_keys (columns df)" and per: "''per'' \<in> set (col_names df)"
    and mt: "map_of (columns df) ''ticker'' = Some ObjectDtype"
    and md: "map_of (columns df) ''datetime'' = Some DatetimeDtype"
    and mv: "case map_of (columns df) ''vol'' of Some t \<Rightarrow> is_integer_dtype t | None \<Rightarrow> True"
    and kd: "keep_date_time a \<or> \<not> both"
    and rs: "\<And>r. r \<in> set (rows df) \<Longrightarrow> prepared_row l both period r"
    unfolding prepared_def both_def list_all_iff by blast+
  have "map (map (\<lambda>(n, v). (norm_column_name n, v))) (rows df) = rows df"
    by (rule map_idI) (use rs in \<open>simp add: prepared_row_def norm_keys_id\<close>)
  then have 0: "rename_columns df = df"
    unfolding rename_columns_def using nk by (simp add: norm_keys_id frame_eq)
  from ne obtain r0 rs0 where r0: "rows df = r0 # rs0" by (cases "rows df") auto
  with rs[of r0] obtain period' where
    p': "map_of r0 ''per'' = Some period'" "dict_key period' = dict_key period"
    by (auto simp: prepared_row_def split: option.splits)
  have "case map_of r ''per'' of Some c \<Rightarrow> dict_key c = dict_key period' | None \<Rightarrow> False"
    if "r \<in> set (rows df)" for r
    using rs[OF that] p'(2) by (auto simp: prepared_row_def split: option.splits)
  then have 1: "check_period df = Inr period'"
    unfolding check_period_Inr using per r0 p'(1) by blast
  have tk: "''ticker'' \<in> set (col_names df)" "''datetime'' \<in> set (col_names df)"
    using mt md unfolding col_names_def set_map by (metis domI dom_map_of_conv_image_fst)+
  have "clean_ticker_row r = Inr r" if "r \<in> set (rows df)" for r
  proof -
    from rs[OF that] obtain x where x: "map_of r ''ticker'' = Some (StrV x)"
      by (auto simp: prepared_row_def split: option.splits cell.splits)
    then have "clean_ticker x = x" using tc that by (auto simp: tickers_clean_def list_all_iff)
    then show ?thesis using x by (simp add: clean_ticker_row_def update_triv)
  qed
  then have "map_err clean_ticker_row (rows df) = Inr (rows df)" by (rule map_err_id)
  then have 2: "clean_tickers df = Inr df"
    unfolding clean_tickers_def using tk(1) mt by (simp add: bind_err_def update_triv frame_eq)
  have "convert_datetime_row l r = Inr r" if "r \<in> set (rows df)" for r
  proof -
    from rs[OF that] obtain v where "map_of r ''datetime'' = Some (TsV v)"
      by (auto simp: prepared_row_def split: option.splits cell.splits)
    then show ?thesis by (simp add: convert_datetime_row_def update_triv)
  qed
  then have cv: "map_err (convert_datetime_row l) (rows df) = Inr (rows df)" by (rule map_err_id)
  have "both \<Longrightarrow> map_err (make_datetime_row l) (rows df) = Inr (rows df)"
    by (rule map_err_id) (use rs in \<open>simp add: prepared_row_def\<close>)
  then have 3: "create_datetime l df = Inr df"
    unfolding create_datetime_def both_def[symmetric]
    using cv tk(2) md by (cases both) (simp_all add: bind_err_def update_triv frame_eq)
  have 4: "cast_vol l df = Inr df"
    using mv by (cases "map_of (columns df) ''vol''") (simp_all add: cast_vol_def)
  have 5: "drop_date_time a df = df"
    unfolding drop_date_time_def both_def[symmetric] using kd by auto
  have "prepare l a df = Inr (period', df)"
    unfolding prepare_def Let_def 0 by (simp add: bind_err_def 1 2 3 4 5)
  then show ?thesis using p'(2) by blast
qed

lemma sort_key_sorted: "sorted (map f xs) \<Longrightarrow> sort_key f xs = xs"
  by (induction xs) (auto simp: insort_is_Cons)

lemma select_rows_idem: "select_rows a (select_rows a df) = select_rows a df"
proof -
  let ?out = "select_rows a df"
  have s: "sorted_wrt (<) (map ts (rows ?out))" by (rule strictly_increasing_select)
  then have d: "distinct (map ts (rows ?out))" and o: "sorted (map ts (rows ?out))"
    by (simp_all add: strict_sorted_iff)
  have "\<forall>r\<in>set (rows ?out). retained a r" using select_rows_first(2) by blast
  then have f: "filter (retained a) (rows ?out) = rows ?out" by (simp add: filter_id_conv)
  have "rows (select_rows a ?out) = rows ?out"
    unfolding select_rows_rows[of a ?out] f drop_duplicates_distinct[OF d] sort_key_sorted[OF o] ..
  moreover have "columns (select_rows a ?out) = columns ?out" by (rule select_rows_columns)
  ultimately show ?thesis by (cases "select_rows a ?out"; cases ?out) simp
qed

text \<open>
  Claim C4, as amended. When a cleaning run succeeds with an output that has at least one
  row and whose tickers the ticker normalisation leaves unchanged, running the pipeline
  again on that output, with the same options, succeeds and returns the same frame and
  the same gap report.
\<close>

theorem cleaning_idempotent:
  assumes "process_dataframe l ev a df0 = Some (Inr (out, rep))"
    and "rows out \<noteq> []" and "tickers_clean out"
  shows "process_dataframe l ev a out = Some (Inr (out, rep))"
proof -
  from assms(1) obtain period df1 where
    p: "prepare l a df0 = Inr (period, df1)" and o: "out = select_rows a df1"
    by (rule process_dataframe_Inr)
  have "prepared l a period out"
    unfolding o by (rule prepared_select_rows[OF prepare_prepared[OF p]])
  then obtain period' where q: "prepare l a out = Inr (period', out)"
    and k: "dict_key period' = dict_key period"
    using prepared_fixed[OF _ assms(2,3)] by blast
  have s: "select_rows a out = out" unfolding o by (rule select_rows_idem)
  have g: "KNOWN_PERIODS_get period' = KNOWN_PERIODS_get period"
    by (simp add: KNOWN_PERIODS_get_def k)
  have "process_dataframe l ev a out = process_dataframe l ev a df0"
    unfolding process_dataframe_def p q by (simp add: s o[symmetric] g)
  then show ?thesis using assms(1) by simp
qed

theorem cleaning_idempotent_witness:
  "process_dataframe example_lib example_env example_args example_raw
     = Some (Inr (example_clean, Some example_report))
   \<and> rows example_clean \<noteq> [] \<and> tickers_clean example_clean
   \<and> process_dataframe example_lib example_env example_args example_clean
       = Some (Inr (example_clean, Some example_report))"
proof -
  have h: "rows example_clean \<noteq> []" "tickers_clean example_clean"
    by code_simp+
  from cleaning_idempotent[OF example_run h] example_run h show ?thesis by simp
qed

theorem cleaning_idempotent_counterexample:
  "process_dataframe example_lib example_env example_args example_early
     = Some (Inr (example_empty, Some example_empty_report))
   \<and> process_dataframe example_lib example_env example_args example_empty
       = Some (Inl PeriodNotUnique)
   \<and> process_dataframe example_lib example_env example_args (example_marked ''SxSPFByPFB'')
       = Some (Inr (example_marked ''SPFB'', Some example_marked_report))
   \<and> process_dataframe example_lib example_env example_args (example_marked ''SPFB'')
       = Some (Inr (example_marked [], Some example_marked_report))
   \<and> example_marked ''SPFB'' \<noteq> example_marked []"
  by code_simp


section \<open>The gap detector in the pipeline\<close>

lemma detector_returns:
  assumes "valid_date today" and "p \<in> set known_minutes"
    and "map_of (columns df) ''datetime'' = Some DatetimeDtype"
  shows "\<exists>out. intraday_data_check today s df p = Some (Inr out)"
proof -
  from assms(2) have k: "p \<in> set [1, 2, 5, 10, 15, 30, 60]" by (simp add: known_minutes_def)
  from session_bounds(3)[OF k] have b: "1 \<le> p" "MKT_CLOSE \<le> US_DAY - p * US_MINUTE"
    by simp_all
  from bar_times_returns[OF assms(1) session_bounds(1,2) b, of s]
  obtain full where
    "get_full_list_of_daily_bar_times today MKT_OPEN MKT_CLOSE p s = Some (Inr full)"
    by blast
  moreover have "''datetime'' \<in> set (col_names df)"
    using assms(3) unfolding col_names_def set_map by (metis domI dom_map_of_conv_image_fst)
  ultimately show ?thesis
    using assms(3) by (simp add: intraday_data_check_def Let_def)
qed

lemma process_returns:
  assumes "valid_date (env_today ev)" and "prepare l a df0 = Inr (per, dfp)"
    and "\<not> (interactive a \<and> lower (env_answer ev) = ''n'')"
  shows "\<exists>rep. process_dataframe l ev a df0 = Some (Inr (select_rows a dfp, rep))
           \<and> (rep \<noteq> None \<longleftrightarrow> dict_key per \<in> IntV ` set known_minutes)"
proof (cases "KNOWN_PERIODS_get per")
  case None
  then have "process_dataframe l ev a df0 = Some (Inr (select_rows a dfp, None))"
    using assms(3) by (simp add: process_dataframe_def assms(2) Let_def)
  then show ?thesis using None by (simp add: KNOWN_PERIODS_get_None)
next
  case (Some q)
  then have q: "q \<in> set known_minutes" "dict_key per = IntV q"
    by (simp_all add: KNOWN_PERIODS_get_Some)
  then have q0: "q \<noteq> 0" by (auto simp: known_minutes_def)
  have "map_of (columns (select_rows a dfp)) ''datetime'' = Some DatetimeDtype"
    using prepare_columns[OF assms(2)] by (simp add: select_rows_columns)
  from detector_returns[OF assms(1) q(1) this, of "stock a"] obtain out where
    "intraday_data_check (env_today ev) (stock a) (select_rows a dfp) q = Some (Inr out)"
    by blast
  then have "process_dataframe l ev a df0 = Some (Inr (select_rows a dfp, Some out))"
    using assms(3) by (simp add: process_dataframe_def assms(2) Let_def Some q0)
  then show ?thesis using q by auto
qed

text \<open>
  Claim C8. On a representable day, for a known minute period and a frame whose \<open>datetime\<close>
  column is of the datetime dtype, the gap detector returns. When it returns, it has
  generated the grid for the session bounds, printed the number of grid times, and
  printed one warning for each date of the series, in ascending order, whose set of
  missing times (grid minus observed) or of irregular times (observed minus grid) is not
  empty: with the count of the missing times, the size of the grid and the earliest and
  latest missing time when some are missing, and with the count of the irregular times
  and the latest one when some are irregular. When the preparation steps succeed and the
  user does not stop the run, the pipeline returns the cleaned frame, with a report
  exactly when the period is one of the known minute values. The pipeline runs the
  detector exactly when the period is one of the known minute values, on the cleaned
  frame and with that value; for every other period, the symbolic ones among them, it
  runs no check.
\<close>

theorem gap_detector_report:
  "(valid_date today \<and> period_min \<in> set known_minutes
      \<and> map_of (columns df) ''datetime'' = Some DatetimeDtype
    \<longrightarrow> (\<exists>res. intraday_data_check today stock_flag df period_min = Some (Inr res)))
   \<and> (intraday_data_check today stock_flag df period_min = Some (Inr out)
    \<longrightarrow> (\<exists>full. get_full_list_of_daily_bar_times today MKT_OPEN MKT_CLOSE period_min stock_flag
                  = Some (Inr full)
          \<and> total_bars out = card (set full)
          \<and> warnings out =
              map (\<lambda>d. expected_warning (set full) (observed df d) d)
                (filter (\<lambda>d. set full - observed df d \<noteq> {} \<or> observed df d - set full \<noteq> {})
                   (sorted_list_of_set ((\<lambda>r. date_of (ts r)) ` set (rows df))))
          \<and> all_ok out = (warnings out = [])))
   \<and> (valid_date (env_today ev) \<and> prepare l a df0 = Inr (per, dfp)
        \<and> \<not> (interactive a \<and> lower (env_answer ev) = ''n'')
      \<longrightarrow> (\<exists>res. process_dataframe l ev a df0 = Some (Inr (select_rows a dfp, res))
              \<and> (res \<noteq> None \<longleftrightarrow> dict_key per \<in> IntV ` set known_minutes)))
   \<and> (process_dataframe l ev a df0 = Some (Inr (df', rep))
      \<longrightarrow> (\<exists>period df1. prepare l a df0 = Inr (period, df1) \<and> df' = select_rows a df1
            \<and> (case rep of
                 Some out' \<Rightarrow>
                   (\<exists>p. p \<in> set known_minutes \<and> dict_key period = IntV p
                      \<and> intraday_data_check (env_today ev) (stock a) df' p = Some (Inr out'))
               | None \<Rightarrow> dict_key period \<notin> IntV ` set known_minutes)))"
proof (intro conjI impI)
  assume "valid_date today \<and> period_min \<in> set known_minutes
      \<and> map_of (columns df) ''datetime'' = Some DatetimeDtype"
  then show "\<exists>res. intraday_data_check today stock_flag df period_min = Some (Inr res)"
    using detector_returns[of today period_min df stock_flag] by blast
next
  assume a: "intraday_data_check today stock_flag df period_min = Some (Inr out)"
  then obtain full where
    full: "get_full_list_of_daily_bar_times today MKT_OPEN MKT_CLOSE period_min stock_flag
             = Some (Inr full)"
    by (auto simp: intraday_data_check_def split: option.splits sum.splits)
  have s: "sort (remdups (map (\<lambda>r. date_of (ts r)) (rows df)))
             = sorted_list_of_set ((\<lambda>r. date_of (ts r)) ` set (rows df))"
    by (simp add: sorted_list_of_set_sort_remdups[symmetric])
  have "out = \<lparr>total_bars = card (set full),
           warnings = List.map_filter (day_check (set full) (rows df))
                            (sort (remdups (map (\<lambda>r. date_of (ts r)) (rows df)))),
           all_ok = (List.map_filter (day_check (set full) (rows df))
                            (sort (remdups (map (\<lambda>r. date_of (ts r)) (rows df)))) = [])\<rparr>"
    using a full by (simp add: intraday_data_check_def Let_def split: if_splits)
  then show "\<exists>full. get_full_list_of_daily_bar_times today MKT_OPEN MKT_CLOSE period_min stock_flag
                  = Some (Inr full)
          \<and> total_bars out = card (set full)
          \<and> warnings out =
              map (\<lambda>d. expected_warning (set full) (observed df d) d)
                (filter (\<lambda>d. set full - observed df d \<noteq> {} \<or> observed df d - set full \<noteq> {})
                   (sorted_list_of_set ((\<lambda>r. date_of (ts r)) ` set (rows df))))
          \<and> all_ok out = (warnings out = [])"
    using full by (simp add: map_filter_day_check s)
next
  assume "valid_date (env_today ev) \<and> prepare l a df0 = Inr (per, dfp)
        \<and> \<not> (interactive a \<and> lower (env_answer ev) = ''n'')"
  then show "\<exists>res. process_dataframe l ev a df0 = Some (Inr (select_rows a dfp, res))
              \<and> (res \<noteq> None \<longleftrightarrow> dict_key per \<in> IntV ` set known_minutes)"
    using process_returns[of ev l a df0 per dfp] by blast
next
  assume a: "process_dataframe l ev a df0 = Some (Inr (df', rep))"
  then obtain period df1 where p: "prepare l a df0 = Inr (period, df1)"
    by (cases "prepare l a df0") (auto simp: process_dataframe_def)
  have d: "df' = select_rows a df1"
    using a unfolding process_dataframe_def p Let_def
    by (simp split: if_splits option.splits sum.splits)
  have r: "case rep of
                 Some out' \<Rightarrow>
                   (\<exists>p. p \<in> set known_minutes \<and> dict_key period = IntV p
                      \<and> intraday_data_check (env_today ev) (stock a) df' p = Some (Inr out'))
               | None \<Rightarrow> dict_key period \<notin> IntV ` set known_minutes"
  proof (cases "KNOWN_PERIODS_get period")
    case None
    then have "rep = None"
      using a p by (auto simp: process_dataframe_def Let_def split: if_splits)
    then show ?thesis
      using None by (simp add: KNOWN_PERIODS_get_None)
  next
    case (Some q)
    then have q: "q \<in> set known_minutes" "dict_key period = IntV q"
      by (simp_all add: KNOWN_PERIODS_get_Some)
    then have q0: "q \<noteq> 0" by (auto simp: known_minutes_def)
    have "(case intraday_data_check (env_today ev) (stock a) (select_rows a df1) q of
             None \<Rightarrow> None
           | Some (Inl e) \<Rightarrow> Some (Inl e)
           | Some (Inr out) \<Rightarrow> Some (Inr (select_rows a df1, Some out)))
          = Some (Inr (df', rep))"
      using a unfolding process_dataframe_def p Let_def
      by (simp add: Some q0 split: if_splits)
    then obtain out' where
      "intraday_data_check (env_today ev) (stock a) (select_rows a df1) q = Some (Inr out')"
      "rep = Some out'"
      by (auto split: option.splits sum.splits)
    then show ?thesis using q d by auto
  qed
  show "\<exists>period df1. prepare l a df0 = Inr (period, df1) \<and> df' = select_rows a df1
            \<and> (case rep of
                 Some out' \<Rightarrow>
                   (\<exists>p. p \<in> set known_minutes \<and> dict_key period = IntV p
                      \<and> intraday_data_check (env_today ev) (stock a) df' p = Some (Inr out'))
               | None \<Rightarrow> dict_key period \<notin> IntV ` set known_minutes)"
    using p d r by blast
qed

theorem gap_detector_report_witness:
  "valid_date 739923 \<and> 60 \<in> set known_minutes
   \<and> map_of (columns example_gap) ''datetime'' = Some DatetimeDtype
   \<and> intraday_data_check 739923 False example_gap 60 = Some (Inr example_gap_report)
   \<and> valid_date (env_today example_env)
   \<and> prepare example_lib example_args example_raw = Inr (IntV 60, example_prepared)
   \<and> \<not> (interactive example_args \<and> lower (env_answer example_env) = ''n'')
   \<and> select_rows example_args example_prepared = example_clean
   \<and> dict_key (IntV 60) \<in> IntV ` set known_minutes
   \<and> process_dataframe example_lib example_env example_args example_raw
       = Some (Inr (example_clean, Some example_report))
   \<and> (\<exists>full. get_full_list_of_daily_bar_times 739923 MKT_OPEN MKT_CLOSE 60 False
                  = Some (Inr full)
          \<and> total_bars example_gap_report = card (set full)
          \<and> warnings example_gap_report =
              map (\<lambda>d. expected_warning (set full) (observed example_gap d) d)
                (filter (\<lambda>d. set full - observed example_gap d \<noteq> {}
                             \<or> observed example_gap d - set full \<noteq> {})
                   (sorted_list_of_set ((\<lambda>r. date_of (ts r)) ` set (rows example_gap))))
          \<and> all_ok example_gap_report = (warnings example_gap_report = []))
   \<and> (\<exists>period df1. prepare example_lib example_args example_raw = Inr (period, df1)
          \<and> example_clean = select_rows example_args df1
          \<and> (\<exists>p. p \<in> set known_minutes \<and> dict_key period = IntV p
                \<and> intraday_data_check (env_today example_env) (stock example_args)
                      example_clean p = Some (Inr example_report)))
   \<and> warnings example_gap_report
       = [\<lparr>wdate = 738523, missing = Some (1, 8, mk_time 12 0, mk_time 12 0),
           irregular = None\<rparr>]"
proof -
  have h: "valid_date 739923" "60 \<in> set known_minutes"
    "map_of (columns example_gap) ''datetime'' = Some DatetimeDtype"
    "valid_date (env_today example_env)"
    "\<not> (interactive example_args \<and> lower (env_answer example_env) = ''n'')"
    "dict_key (IntV 60) \<in> IntV ` set known_minutes"
    by (simp_all add: valid_date_def MAX_ORDINAL_def known_minutes_def example_gap_def
        clean_columns_def example_env_def example_args_def dict_key_def)
  note g = gap_detector_report[where today = 739923 and stock_flag = False and df = example_gap
      and period_min = 60 and out = example_gap_report and l = example_lib
      and ev = example_env and a = example_args and ?df0.0 = example_raw
      and df' = example_clean and rep = "Some example_report" and per = "IntV 60"
      and dfp = example_prepared]
  show ?thesis
    using g h example_gap_check example_run example_prepare example_select
    by (simp add: example_gap_report_def)
qed

end
